(* ===== verification/Prelude.thy ===== *)
theory Prelude
  imports Main "HOL-Library.Word" "HOL-Library.AList" "HOL-Library.Sublist"
begin

text \<open>
  The vocabulary every other theory shares.

  \<^item> Go's \<open>string\<close> and \<open>[]byte\<close> are sequences of bytes; Isabelle's \<open>char\<close> is one of 256
    byte values, so both are \<open>char list\<close> and the conversions between them are the identity.
  \<^item> Go's fixed-width integers are words of their width, so \<open>+\<close> and \<open>-\<close> wrap as in Go.
  \<^item> A function that can panic at run time returns \<open>'a go\<close>: \<open>None\<close> is the panic.
  \<^item> A Go \<open>(T, error)\<close> result is a sum, \<open>Inl\<close> the error; a bare \<open>error\<close> is an option,
    \<open>None\<close> being \<open>nil\<close>. A nilable pointer is an option as well.
  \<^item> A Go map is an association list with distinct keys. Go iterates over a map in an
    unspecified order; here the order is the order of the list, and every theorem that
    mentions an iteration holds for every list.
\<close>

subsection \<open>Types\<close>

type_synonym u8 = "8 word"
type_synonym u64 = "64 word"
type_synonym i64 = "64 word"
type_synonym bytes = "char list"
type_synonym 'a go = "'a option"
type_synonym ('k, 'v) gomap = "('k \<times> 'v) list"

text \<open>The errors of the program: where each comes from is what the callers distinguish.\<close>

datatype error =
    ErrNotFound
  | ErrIO string
  | ErrSyntax
  | ErrRange
  | ErrDecode
  | ErrHex
  | ErrMsg string

subsection \<open>Collections of the development\<close>

named_theorems go_map_simps \<open>laws of Go maps as association lists\<close>
named_theorems frame \<open>what an operation leaves unchanged\<close>
named_theorems wf_intro \<open>preservation of well-formedness invariants\<close>

subsection \<open>Go maps\<close>

text \<open>\<open>m[k]\<close>, \<open>m[k] = v\<close>, \<open>delete(m, k)\<close>, \<open>len(m)\<close>.\<close>

abbreviation map_get :: "('k, 'v) gomap \<Rightarrow> 'k \<Rightarrow> 'v option" where
  "map_get m k \<equiv> map_of m k"

abbreviation map_set :: "'k \<Rightarrow> 'v \<Rightarrow> ('k, 'v) gomap \<Rightarrow> ('k, 'v) gomap" where
  "map_set k v m \<equiv> AList.update k v m"

abbreviation map_delete :: "'k \<Rightarrow> ('k, 'v) gomap \<Rightarrow> ('k, 'v) gomap" where
  "map_delete k m \<equiv> AList.delete k m"

abbreviation map_wf :: "('k, 'v) gomap \<Rightarrow> bool" where
  "map_wf m \<equiv> distinct (map fst m)"

lemma map_get_set [simp, go_map_simps]:
  "map_get (map_set k v m) k' = (if k' = k then Some v else map_get m k')"
  by (simp add: update_conv')

lemma map_get_delete [simp, go_map_simps]:
  "map_get (map_delete k m) k' = (if k' = k then None else map_get m k')"
  by (simp add: delete_conv')

lemma map_wf_set [simp, wf_intro]: "map_wf m \<Longrightarrow> map_wf (map_set k v m)"
  by (rule distinct_update)

lemma map_wf_delete [simp, wf_intro]: "map_wf m \<Longrightarrow> map_wf (map_delete k m)"
  by (rule distinct_delete)

lemma map_set_keys: "k \<in> fst ` set m \<Longrightarrow> map fst (map_set k v m) = map fst m"
  by (induction m) auto

lemma map_set_fst_image: "fst ` set (map_set k v m) = insert k (fst ` set m)"
  by (simp add: dom_update)

lemma map_get_in_keys: "map_get m k = Some v \<Longrightarrow> k \<in> fst ` set m"
  by (force dest: map_of_SomeD)

lemma map_wf_get_iff: "map_wf m \<Longrightarrow> map_get m k = Some v \<longleftrightarrow> (k, v) \<in> set m"
  by (rule map_of_eq_Some_iff)

lemma length_map_delete:
  "map_wf m \<Longrightarrow> length (map_delete k m) = (if map_get m k = None then length m else length m - 1)"
proof (induction m)
  case (Cons x m)
  then show ?case
    by (cases x, cases "map_get m k"; cases m) (auto simp: map_of_eq_None_iff)
qed simp

lemma length_map_set:
  "length (map_set k v m) = (if map_get m k = None then Suc (length m) else length m)"
  by (induction m) auto

subsection \<open>Lists\<close>

lemma list_update_same_conv_nth: "i < length xs \<Longrightarrow> (xs[i := v]) ! j = (if j = i then v else xs ! j)"
  by simp

lemma find_SomeI_set: "find P xs = Some x \<Longrightarrow> x \<in> set xs \<and> P x"
  by (induction xs) (auto split: if_splits)

lemma find_append_case:
  "find P (xs @ ys) = (case find P xs of Some x \<Rightarrow> Some x | None \<Rightarrow> find P ys)"
  by (induction xs) auto

lemma map_of_map_find:
  "map_of (map (\<lambda>x. (f x, g x)) xs) k = map_option g (find (\<lambda>x. f x = k) xs)"
  by (induction xs) auto

lemma takeWhile_prefix: "prefix (takeWhile P xs) xs"
  by (metis prefixI takeWhile_dropWhile_id)

lemma takeWhile_neq_split: "c \<notin> set xs \<Longrightarrow> takeWhile (\<lambda>x. x \<noteq> c) (xs @ c # ys) = xs"
  by (induction xs) auto

text \<open>The last separator of a sequence splits it in one way only.\<close>

lemma append_unique_split:
  assumes "xs @ c # ys = xs' @ c # ys'" and "c \<notin> set ys" and "c \<notin> set ys'"
  shows "xs = xs' \<and> ys = ys'"
proof -
  have "rev ys @ c # rev xs = rev ys' @ c # rev xs'"
    using arg_cong [OF assms(1), of rev] by simp
  then have "rev ys = rev ys'"
    using assms(2,3) by (metis takeWhile_neq_split set_rev)
  with assms(1) show ?thesis
    by simp
qed

subsection \<open>Words\<close>

lemma unat_plus_one: "x < y \<Longrightarrow> unat (x + 1) = unat x + 1" for x y :: "'a::len word"
  by unat_arith

lemma unat_minus_le: "y \<le> x \<Longrightarrow> unat (x - y) = unat x - unat y" for x y :: "'a::len word"
  by (rule unat_sub)

text \<open>\<open>int(x)\<close> of a \<open>uint\<close> in the range of \<open>int\<close>.\<close>

lemma sint_small: "unat x < 2 ^ 63 \<Longrightarrow> sint x = int (unat x)" for x :: u64
proof -
  assume "unat x < 2 ^ 63"
  then have "int (unat x) < int (2 ^ 63)"
    by (simp only: of_nat_less_iff)
  then have "uint x < 2 ^ 63"
    by simp
  then have "signed_take_bit 63 (uint x) = uint x"
    by (intro signed_take_bit_int_eq_self) (use uint_ge_0 [of x] in linarith, simp)
  then show ?thesis
    by (simp add: sint_uint)
qed

end
