(* ===== verification/GoStd.thy ===== *)
theory GoStd
  imports Prelude
begin

text \<open>
  The parts of Go's standard library that the relayer's own code computes with:
  \<open>strings.Join\<close>, \<open>strconv.FormatUint\<close>/\<open>FormatInt\<close>/\<open>ParseUint\<close>/\<open>ParseInt\<close>,
  \<open>encoding/hex\<close>, \<open>encoding/base64\<close> (\<open>StdEncoding\<close>), \<open>unicode/utf8\<close> and
  \<open>big.Int.SetBytes\<close>. Nothing here is code of the repository, so nothing here is in the
  source map; the lemmas are the laws the components rest on, the round trips first.
\<close>

subsection \<open>strings\<close>

fun strings_Join :: "string list \<Rightarrow> string \<Rightarrow> string" where
  "strings_Join [] sep = []"
| "strings_Join [x] sep = x"
| "strings_Join (x # y # ys) sep = x @ sep @ strings_Join (y # ys) sep"

definition strings_HasPrefix :: "string \<Rightarrow> string \<Rightarrow> bool" where
  "strings_HasPrefix s p \<longleftrightarrow> prefix p s"

definition ascii_lower :: "char \<Rightarrow> char" where
  "ascii_lower c = (let n = (of_char c :: nat) in
     if 65 \<le> n \<and> n \<le> 90 then char_of (n + 32) else c)"

subsection \<open>strconv\<close>

definition digit_char :: "nat \<Rightarrow> char" where
  "digit_char d = char_of (if d < 10 then 48 + d else 87 + d)"

definition digit_val :: "char \<Rightarrow> nat option" where
  "digit_val c = (let n = (of_char c :: nat) in
     if 48 \<le> n \<and> n \<le> 57 then Some (n - 48)
     else if 97 \<le> n \<and> n \<le> 122 then Some (n - 87)
     else if 65 \<le> n \<and> n \<le> 90 then Some (n - 55)
     else None)"

fun fmt_uint :: "nat \<Rightarrow> nat \<Rightarrow> string" where
  "fmt_uint b n =
     (if b \<le> 1 \<or> n < b then [digit_char n]
      else fmt_uint b (n div b) @ [digit_char (n mod b)])"

declare fmt_uint.simps [simp del]

definition fmt_int :: "nat \<Rightarrow> int \<Rightarrow> string" where
  "fmt_int b v = (if v < 0 then CHR ''-'' # fmt_uint b (nat (- v)) else fmt_uint b (nat v))"

text \<open>
  \<open>ParseUint\<close> reads the digits from the left and stops at the first character that is no
  digit of the base (syntax) or that makes the value too large for the width (range).
\<close>

fun parse_uint_loop :: "nat \<Rightarrow> nat \<Rightarrow> nat \<Rightarrow> string \<Rightarrow> error + nat" where
  "parse_uint_loop b mx acc [] = Inr acc"
| "parse_uint_loop b mx acc (c # cs) =
     (case digit_val c of
        None \<Rightarrow> Inl ErrSyntax
      | Some d \<Rightarrow> if b \<le> d then Inl ErrSyntax
                 else if mx < acc * b + d then Inl ErrRange
                 else parse_uint_loop b mx (acc * b + d) cs)"

definition parse_uint :: "nat \<Rightarrow> nat \<Rightarrow> string \<Rightarrow> error + nat" where
  "parse_uint b bits s =
     (if s = [] then Inl ErrSyntax else parse_uint_loop b (2 ^ bits - 1) 0 s)"

definition parse_int :: "nat \<Rightarrow> nat \<Rightarrow> string \<Rightarrow> error + int" where
  "parse_int b bits s =
     (case s of
        [] \<Rightarrow> Inl ErrSyntax
      | c # cs \<Rightarrow>
          (let neg = (c = CHR ''-'');
               ds = (if c = CHR ''-'' \<or> c = CHR ''+'' then cs else s)
           in case parse_uint b bits ds of
                Inl e \<Rightarrow> Inl e
              | Inr un \<Rightarrow>
                  if \<not> neg \<and> 2 ^ (bits - 1) \<le> un then Inl ErrRange
                  else if neg \<and> 2 ^ (bits - 1) < un then Inl ErrRange
                  else Inr (if neg then - int un else int un)))"

lemma digit_val_char [simp]: "d < 36 \<Longrightarrow> digit_val (digit_char d) = Some d"
  by (simp add: digit_val_def digit_char_def)

lemma digit_char_neq [simp]:
  "d < 36 \<Longrightarrow> digit_char d \<noteq> CHR ''-''" "d < 36 \<Longrightarrow> digit_char d \<noteq> CHR ''+''"
  "d < 36 \<Longrightarrow> digit_char d \<noteq> CHR ''x''\<or> d = 33"
  using digit_val_char [of d] by (auto simp: digit_val_def simp del: digit_val_char)

lemma fmt_uint_neq_Nil [simp]: "fmt_uint b n \<noteq> []"
  by (subst fmt_uint.simps) simp

lemma fmt_uint_digits: "2 \<le> b \<Longrightarrow> c \<in> set (fmt_uint b n) \<Longrightarrow> \<exists>d < b. c = digit_char d"
proof (induction b n rule: fmt_uint.induct)
  case (1 b n)
  show ?case
  proof (cases "n < b")
    case True
    with "1.prems" show ?thesis
      by (subst (asm) fmt_uint.simps) auto
  next
    case False
    with "1.prems" have "c \<in> set (fmt_uint b (n div b)) \<or> c = digit_char (n mod b)"
      by (subst (asm) fmt_uint.simps) auto
    then show ?thesis
    proof
      assume "c \<in> set (fmt_uint b (n div b))"
      with False "1.IH" "1.prems"(1) show ?thesis
        by auto
    next
      assume "c = digit_char (n mod b)"
      moreover have "n mod b < b"
        using "1.prems"(1) by simp
      ultimately show ?thesis
        by blast
    qed
  qed
qed

lemma fmt_uint_no_sign:
  assumes "2 \<le> b" and "b \<le> 36"
  shows "CHR ''-'' \<notin> set (fmt_uint b n)" and "CHR ''+'' \<notin> set (fmt_uint b n)"
  using fmt_uint_digits [OF assms(1)] assms(2) digit_char_neq
  by (metis less_le_trans)+

lemma parse_uint_loop_append:
  "parse_uint_loop b mx acc (xs @ ys) =
     (case parse_uint_loop b mx acc xs of
        Inl e \<Rightarrow> Inl e | Inr a \<Rightarrow> parse_uint_loop b mx a ys)"
  by (induction xs arbitrary: acc) (auto split: option.splits)

lemma parse_uint_loop_fmt:
  "2 \<le> b \<Longrightarrow> b \<le> 36 \<Longrightarrow> n \<le> mx \<Longrightarrow> parse_uint_loop b mx 0 (fmt_uint b n) = Inr n"
proof (induction b n rule: fmt_uint.induct)
  case (1 b n)
  show ?case
  proof (cases "n < b")
    case True
    with "1.prems" show ?thesis
      by (subst fmt_uint.simps) simp
  next
    case False
    with "1.prems" have IH: "parse_uint_loop b mx 0 (fmt_uint b (n div b)) = Inr (n div b)"
      by (intro "1.IH") (auto intro: order_trans [OF div_le_dividend])
    have lt: "n mod b < b"
      using "1.prems"(1) by simp
    then have D: "digit_val (digit_char (n mod b)) = Some (n mod b)"
      using "1.prems"(2) by (intro digit_val_char) linarith
    have "fmt_uint b n = fmt_uint b (n div b) @ [digit_char (n mod b)]"
      using False "1.prems"(1) by (subst fmt_uint.simps) simp
    then show ?thesis
      using "1.prems"(3) lt by (simp add: parse_uint_loop_append IH D)
  qed
qed

lemma parse_uint_fmt:
  "2 \<le> b \<Longrightarrow> b \<le> 36 \<Longrightarrow> n < 2 ^ bits \<Longrightarrow> parse_uint b bits (fmt_uint b n) = Inr n"
  by (simp add: parse_uint_def parse_uint_loop_fmt)

lemma fmt_uint_inj:
  assumes "2 \<le> b" and "b \<le> 36" and "fmt_uint b m = fmt_uint b n"
  shows "m = n"
proof -
  have "parse_uint_loop b (m + n) 0 (fmt_uint b m) = Inr m"
    using assms(1,2) by (rule parse_uint_loop_fmt) simp
  moreover have "parse_uint_loop b (m + n) 0 (fmt_uint b n) = Inr n"
    using assms(1,2) by (rule parse_uint_loop_fmt) simp
  ultimately show ?thesis
    using assms(3) by (metis sum.inject(2))
qed

lemma parse_int_fmt:
  assumes "2 \<le> b" and "b \<le> 36" and "0 < bits"
    and "- (2 ^ (bits - 1)) \<le> v" and "v < 2 ^ (bits - 1)"
  shows "parse_int b bits (fmt_int b v) = Inr v"
proof (cases "v < 0")
  case True
  have le: "nat (- v) \<le> 2 ^ (bits - 1)"
    using assms(4) by (simp add: nat_le_iff)
  also have "(2::nat) ^ (bits - 1) < 2 ^ bits"
    using assms(3) by (simp add: power_strict_increasing)
  finally have "parse_uint b bits (fmt_uint b (nat (- v))) = Inr (nat (- v))"
    using assms(1,2) by (simp add: parse_uint_fmt)
  with True le show ?thesis
    by (simp add: parse_int_def fmt_int_def)
next
  case False
  have lt: "nat v < 2 ^ (bits - 1)"
    using assms(5) False by (simp add: nat_less_iff)
  also have "(2::nat) ^ (bits - 1) < 2 ^ bits"
    using assms(3) by (simp add: power_strict_increasing)
  finally have P: "parse_uint b bits (fmt_uint b (nat v)) = Inr (nat v)"
    using assms(1,2) by (simp add: parse_uint_fmt)
  obtain c cs where C: "fmt_uint b (nat v) = c # cs"
    by (cases "fmt_uint b (nat v)") auto
  then have "c \<noteq> CHR ''-''" "c \<noteq> CHR ''+''"
    using fmt_uint_no_sign [OF assms(1,2), of "nat v"] by auto
  with False P C lt show ?thesis
    by (simp add: parse_int_def fmt_int_def)
qed

subsection \<open>encoding/hex\<close>

fun hex_encode :: "bytes \<Rightarrow> string" where
  "hex_encode [] = []"
| "hex_encode (c # cs) =
     (let n = (of_char c :: nat) in digit_char (n div 16) # digit_char (n mod 16) # hex_encode cs)"

definition hex_val :: "char \<Rightarrow> nat option" where
  "hex_val c = (case digit_val c of Some d \<Rightarrow> if d < 16 then Some d else None | None \<Rightarrow> None)"

fun hex_decode :: "string \<Rightarrow> error + bytes" where
  "hex_decode [] = Inr []"
| "hex_decode [c] = Inl ErrHex"
| "hex_decode (a # b # cs) =
     (case (hex_val a, hex_val b) of
        (Some x, Some y) \<Rightarrow>
          (case hex_decode cs of Inl e \<Rightarrow> Inl e | Inr bs \<Rightarrow> Inr (char_of (x * 16 + y) # bs))
      | _ \<Rightarrow> Inl ErrHex)"

lemma hex_val_char [simp]: "d < 16 \<Longrightarrow> hex_val (digit_char d) = Some d"
  by (simp add: hex_val_def)

lemma of_char_less_256 [simp]: "(of_char c :: nat) < 256"
  by (metis of_char_mod_256 mod_less_divisor zero_less_numeral)

lemma char_div_mod [simp]:
  "(of_char c :: nat) div 16 mod 16 = of_char c div 16"
  "(of_char c :: nat) div 64 mod 4 = of_char c div 64"
  using of_char_less_256 [of c] by (simp_all add: less_mult_imp_div_less)

lemma hex_decode_encode [simp]: "hex_decode (hex_encode bs) = Inr bs"
proof (induction bs)
  case (Cons c cs)
  have "(of_char c :: nat) div 16 < 16"
    using of_char_less_256 [of c] by linarith
  with Cons show ?case
    by (simp add: Let_def)
qed simp

lemma length_hex_encode [simp]: "length (hex_encode bs) = 2 * length bs"
  by (induction bs) (simp_all add: Let_def)

lemma hex_decode_length: "hex_decode s = Inr bs \<Longrightarrow> length s = 2 * length bs"
  by (induction s arbitrary: bs rule: hex_decode.induct)
    (auto split: option.splits sum.splits)

subsection \<open>big.Int.SetBytes: big-endian\<close>

definition set_bytes :: "bytes \<Rightarrow> nat" where
  "set_bytes bs = foldl (\<lambda>acc c. 256 * acc + of_char c) 0 bs"

subsection \<open>encoding/base64, StdEncoding\<close>

definition b64_char :: "nat \<Rightarrow> char" where
  "b64_char n =
     (if n < 26 then char_of (65 + n) else if n < 52 then char_of (71 + n)
      else if n < 62 then char_of (n - 4) else if n = 62 then CHR ''+'' else CHR ''/'')"

definition b64_val :: "char \<Rightarrow> nat option" where
  "b64_val c = (let n = (of_char c :: nat) in
     if 65 \<le> n \<and> n \<le> 90 then Some (n - 65)
     else if 97 \<le> n \<and> n \<le> 122 then Some (n - 71)
     else if 48 \<le> n \<and> n \<le> 57 then Some (n + 4)
     else if c = CHR ''+'' then Some 62
     else if c = CHR ''/'' then Some 63
     else None)"

fun b64_encode :: "bytes \<Rightarrow> string" where
  "b64_encode [] = []"
| "b64_encode [a] =
     (let x = (of_char a :: nat) in [b64_char (x div 4), b64_char (x mod 4 * 16), CHR ''='', CHR ''=''])"
| "b64_encode [a, b] =
     (let x = (of_char a :: nat); y = of_char b in
        [b64_char (x div 4), b64_char (x mod 4 * 16 + y div 16), b64_char (y mod 16 * 4), CHR ''=''])"
| "b64_encode (a # b # c # cs) =
     (let x = (of_char a :: nat); y = of_char b; z = of_char c in
        b64_char (x div 4) # b64_char (x mod 4 * 16 + y div 16)
        # b64_char (y mod 16 * 4 + z div 64) # b64_char (z mod 64) # b64_encode cs)"

fun b64_decode :: "string \<Rightarrow> bytes option" where
  "b64_decode [] = Some []"
| "b64_decode (a # b # c # d # cs) =
     (case (b64_val a, b64_val b) of
        (Some w, Some x) \<Rightarrow>
          (if c = CHR ''='' then
             (if d = CHR ''='' \<and> cs = [] then Some [char_of (w * 4 + x div 16)] else None)
           else (case b64_val c of
               None \<Rightarrow> None
             | Some y \<Rightarrow>
                 (if d = CHR ''='' then
                    (if cs = [] then Some [char_of (w * 4 + x div 16), char_of (x mod 16 * 16 + y div 4)]
                     else None)
                  else (case b64_val d of
                      None \<Rightarrow> None
                    | Some z \<Rightarrow> map_option
                        (\<lambda>bs. char_of (w * 4 + x div 16) # char_of (x mod 16 * 16 + y div 4)
                              # char_of (y mod 4 * 64 + z) # bs)
                        (b64_decode cs)))))
      | _ \<Rightarrow> None)"
| "b64_decode _ = None"

lemma b64_val_char [simp]: "n < 64 \<Longrightarrow> b64_val (b64_char n) = Some n"
  by (auto simp: b64_val_def b64_char_def Let_def)

lemma b64_char_neq_pad [simp]: "n < 64 \<Longrightarrow> b64_char n \<noteq> CHR ''=''"
  using b64_val_char [of n] by (auto simp: b64_val_def simp del: b64_val_char)

lemma b64_sextets:
  assumes "x < 256" and "y < 256" and "z < (256::nat)"
  shows "x div 4 < 64" "x mod 4 * 16 + y div 16 < 64" "y mod 16 * 4 + z div 64 < 64"
    "x div 4 * 4 + (x mod 4 * 16 + y div 16) div 16 = x"
    "(x mod 4 * 16 + y div 16) mod 16 * 16 + (y mod 16 * 4 + z div 64) div 4 = y"
    "(y mod 16 * 4 + z div 64) mod 4 * 64 + z mod 64 = z"
proof -
  have y: "y div 16 < 16" and z: "z div 64 < 4"
    using assms by (simp_all add: less_mult_imp_div_less)
  show "x div 4 < 64" "x mod 4 * 16 + y div 16 < 64" "y mod 16 * 4 + z div 64 < 64"
    using assms by linarith+
  show "x div 4 * 4 + (x mod 4 * 16 + y div 16) div 16 = x"
    using y by simp
  show "(x mod 4 * 16 + y div 16) mod 16 * 16 + (y mod 16 * 4 + z div 64) div 4 = y"
    using y z by simp
  show "(y mod 16 * 4 + z div 64) mod 4 * 64 + z mod 64 = z"
    using z by simp
qed

lemma b64_decode_encode [simp]: "b64_decode (b64_encode bs) = Some bs"
proof (induction bs rule: b64_encode.induct)
  case (2 a)
  show ?case
    using b64_sextets [of "of_char a" 0 0] by (simp add: Let_def)
next
  case (3 a b)
  show ?case
    using b64_sextets [of "of_char a" "of_char b" 0] by (simp add: Let_def)
next
  case (4 a b c cs)
  then show ?case
    using b64_sextets [of "of_char a" "of_char b" "of_char c"] by (simp add: Let_def)
qed simp

end
