(* ===== verification/Json.thy ===== *)
theory Json
  imports GoStd
begin

text \<open>
  The fragment of Go's \<open>encoding/json\<close> (Go 1.21, the version of \<open>go.mod\<close>) that the stores
  use: the compact text of a document (\<open>json.Marshal\<close>, HTML escaping on), the reader of
  \<open>json.Unmarshal\<close>, and the assignment of an object's members to the fields of a struct.
  A string that is not valid UTF-8 does not survive: each bad byte comes back as U+FFFD, so
  the round trip of a document is stated up to \<open>utf8_sanitize\<close>.
\<close>

subsection \<open>unicode/utf8\<close>

definition in_range :: "nat \<Rightarrow> nat \<Rightarrow> char \<Rightarrow> bool" where
  "in_range lo hi c \<longleftrightarrow> lo \<le> of_char c \<and> of_char c \<le> hi"

text \<open>
  The width of the valid rune at the head of a string, 0 when there is none: the first byte
  gives the width and the range of the second byte, the others are continuation bytes.
\<close>

definition rune_size :: "nat \<Rightarrow> nat" where
  "rune_size n =
     (if n < 128 then 1 else if 194 \<le> n \<and> n \<le> 223 then 2
      else if 224 \<le> n \<and> n \<le> 239 then 3 else if 240 \<le> n \<and> n \<le> 244 then 4 else 0)"

definition second_ok :: "nat \<Rightarrow> char \<Rightarrow> bool" where
  "second_ok n =
     in_range (if n = 224 then 160 else if n = 240 then 144 else 128)
              (if n = 237 then 159 else if n = 244 then 143 else 191)"

fun rune_len :: "string \<Rightarrow> nat" where
  "rune_len [] = 0"
| "rune_len (a # cs) =
     (let n = of_char a; k = rune_size n in
      if k \<le> 1 then k
      else if length cs < k - 1 then 0
      else if second_ok n (hd cs) \<and> list_all (in_range 128 191) (take (k - 2) (tl cs)) then k
      else 0)"

lemma rune_len_le: "rune_len s \<le> length s"
  by (cases s) (auto simp: Let_def)

lemma rune_len_ascii: "(of_char a :: nat) < 128 \<Longrightarrow> rune_len (a # cs) = 1"
  by (simp add: rune_size_def)

lemma rune_len_take:
  assumes "rune_len s = l" and "l \<noteq> 0"
  shows "rune_len (take l s @ t) = l"
proof (cases s)
  case (Cons a cs)
  define k where "k = rune_size (of_char a)"
  show ?thesis
  proof (cases "k \<le> 1")
    case True
    with assms Cons have "l = Suc 0" "k = Suc 0"
      by (auto simp: k_def [symmetric] Let_def split: if_splits)
    with Cons show ?thesis
      by (simp add: k_def [symmetric] Let_def)
  next
    case False
    with assms Cons have l: "l = k" "k - 1 \<le> length cs" "second_ok (of_char a) (hd cs)"
      "list_all (in_range 128 191) (take (k - 2) (tl cs))"
      by (auto simp: k_def [symmetric] Let_def split: if_splits)
    then obtain b ds where cs: "cs = b # ds" and k: "k = Suc (Suc (k - 2))"
      using False by (cases cs) auto
    have "take l s @ t = a # b # (take (k - 2) ds @ t)"
      using Cons cs k l(1) by (metis append_Cons take_Suc_Cons)
    with False l cs show ?thesis
      by (simp add: k_def [symmetric] Let_def)
  qed
qed (use assms in simp)

declare rune_len.simps(2) [simp del]

definition rune_error :: string where
  "rune_error = [CHR 0xEF, CHR 0xBF, CHR 0xBD]"

function utf8_sanitize :: "string \<Rightarrow> string" where
  "utf8_sanitize s =
     (case s of
        [] \<Rightarrow> []
      | a # cs \<Rightarrow>
          if rune_len s = 0 then rune_error @ utf8_sanitize cs
          else take (rune_len s) s @ utf8_sanitize (drop (rune_len s) s))"
  by pat_completeness auto
termination
  by (relation "measure length") auto

declare utf8_sanitize.simps [simp del]

text \<open>\<open>utf8.ValidString\<close>.\<close>

function utf8_valid :: "string \<Rightarrow> bool" where
  "utf8_valid s =
     (case s of
        [] \<Rightarrow> True
      | _ # _ \<Rightarrow> if rune_len s = 0 then False else utf8_valid (drop (rune_len s) s))"
  by pat_completeness auto
termination
  by (relation "measure length") auto

declare utf8_valid.simps [simp del]

lemma utf8_sanitize_Nil [simp]: "utf8_sanitize [] = []"
  by (simp add: utf8_sanitize.simps)

lemma utf8_sanitize_rune:
  "rune_len s \<noteq> 0 \<Longrightarrow>
     utf8_sanitize s = take (rune_len s) s @ utf8_sanitize (drop (rune_len s) s)"
  by (cases s) (simp_all add: utf8_sanitize.simps [of "_ # _"])

lemma utf8_sanitize_bad: "rune_len (a # cs) = 0 \<Longrightarrow> utf8_sanitize (a # cs) = rune_error @ utf8_sanitize cs"
  by (simp add: utf8_sanitize.simps [of "a # cs"])

lemma utf8_sanitize_valid: "utf8_valid s \<Longrightarrow> utf8_sanitize s = s"
proof (induction s rule: utf8_valid.induct)
  case (1 s)
  show ?case
  proof (cases s)
    case (Cons a cs)
    then have "rune_len s \<noteq> 0" "utf8_valid (drop (rune_len s) s)"
      using "1.prems" by (auto simp: utf8_valid.simps [of "a # cs"] split: if_splits)
    then show ?thesis
      using "1.IH" [OF Cons] Cons by (subst utf8_sanitize_rune) simp_all
  qed simp
qed

lemma utf8_valid_ascii_Cons: "(of_char a :: nat) < 128 \<Longrightarrow> utf8_valid (a # cs) = utf8_valid cs"
  by (simp add: utf8_valid.simps [of "a # cs"] rune_len_ascii)

lemma utf8_valid_ascii: "\<forall>c \<in> set s. (of_char c :: nat) < 128 \<Longrightarrow> utf8_valid s"
  by (induction s) (simp_all add: utf8_valid_ascii_Cons utf8_valid.simps [of "[]"])

lemma utf8_valid_rune_append:
  assumes "rune_len s \<noteq> 0"
  shows "utf8_valid (take (rune_len s) s @ t) = utf8_valid t"
proof -
  have len: "rune_len (take (rune_len s) s @ t) = rune_len s"
    using assms by (intro rune_len_take) auto
  have "length (take (rune_len s) s) = rune_len s"
    using rune_len_le [of s] by simp
  then have D: "drop (rune_len s) (take (rune_len s) s @ t) = t"
    by simp
  obtain a cs where C: "take (rune_len s) s @ t = a # cs"
    using assms len by (cases "take (rune_len s) s @ t") auto
  then show ?thesis
    using len D assms by (simp add: utf8_valid.simps [of "a # cs"])
qed

lemma utf8_valid_rune_error: "utf8_valid (rune_error @ t) = utf8_valid t"
proof -
  have "rune_len (rune_error @ t) = 3"
    by (simp add: rune_error_def rune_len.simps(2) rune_size_def second_ok_def in_range_def)
  then show ?thesis
    using utf8_valid_rune_append [of "rune_error @ t" t] by (simp add: rune_error_def)
qed

lemma utf8_valid_sanitize: "utf8_valid (utf8_sanitize s)"
proof (induction s rule: utf8_sanitize.induct)
  case (1 s)
  show ?case
  proof (cases s)
    case Nil
    then show ?thesis
      by (simp add: utf8_valid.simps [of "[]"])
  next
    case (Cons a cs)
    then show ?thesis
      using "1.IH"(1) [OF Cons] "1.IH"(2) [OF Cons]
      by (cases "rune_len s = 0")
        (simp_all add: utf8_sanitize_bad utf8_valid_rune_error utf8_sanitize_rune [of "a # cs"]
          utf8_valid_rune_append)
  qed
qed

lemma utf8_sanitize_idem [simp]: "utf8_sanitize (utf8_sanitize s) = utf8_sanitize s"
  by (rule utf8_sanitize_valid [OF utf8_valid_sanitize])

text \<open>\<open>utf8.AppendRune\<close> for a code point below \<open>0x110000\<close> that is no surrogate.\<close>

definition utf8_encode :: "nat \<Rightarrow> string" where
  "utf8_encode r =
     (if r < 128 then [char_of r]
      else if r < 2048 then [char_of (192 + r div 64), char_of (128 + r mod 64)]
      else if 55296 \<le> r \<and> r \<le> 57343 \<or> 1114111 < r then rune_error
      else if r < 65536 then
        [char_of (224 + r div 4096), char_of (128 + r div 64 mod 64), char_of (128 + r mod 64)]
      else
        [char_of (240 + r div 262144), char_of (128 + r div 4096 mod 64),
         char_of (128 + r div 64 mod 64), char_of (128 + r mod 64)])"

subsection \<open>Documents and their text\<close>

datatype json =
    JNull
  | JBool bool
  | JNum string
  | JStr string
  | JArr "json list"
  | JObj "(string \<times> json) list"

definition esc_ascii :: "char \<Rightarrow> string" where
  "esc_ascii c =
     (if c = CHR 0x22 \<or> c = CHR 0x5C then [CHR 0x5C, c]
      else if c = CHR 0x0A then [CHR 0x5C, CHR ''n'']
      else if c = CHR 0x0D then [CHR 0x5C, CHR ''r'']
      else if c = CHR 0x09 then [CHR 0x5C, CHR ''t'']
      else if (of_char c :: nat) < 32 \<or> c = CHR ''<'' \<or> c = CHR ''>'' \<or> c = CHR ''&''
        then [CHR 0x5C, CHR ''u'', CHR ''0'', CHR ''0'',
              digit_char (of_char c div 16), digit_char (of_char c mod 16)]
      else [c])"

function quote_body :: "string \<Rightarrow> string" where
  "quote_body s =
     (case s of
        [] \<Rightarrow> []
      | a # cs \<Rightarrow>
          if (of_char a :: nat) < 128 then esc_ascii a @ quote_body cs
          else if rune_len s = 0 then CHR 0x5C # ''ufffd'' @ quote_body cs
          else (let r = take (rune_len s) s in
                  (if r = [CHR 0xE2, CHR 0x80, CHR 0xA8] then CHR 0x5C # ''u2028''
                   else if r = [CHR 0xE2, CHR 0x80, CHR 0xA9] then CHR 0x5C # ''u2029''
                   else r) @ quote_body (drop (rune_len s) s)))"
  by pat_completeness auto
termination
  by (relation "measure length") auto

declare quote_body.simps [simp del]

definition json_quote :: "string \<Rightarrow> string" where
  "json_quote s = CHR 0x22 # quote_body s @ [CHR 0x22]"

fun json_print :: "json \<Rightarrow> string" where
  "json_print JNull = ''null''"
| "json_print (JBool b) = (if b then ''true'' else ''false'')"
| "json_print (JNum lit) = lit"
| "json_print (JStr s) = json_quote s"
| "json_print (JArr vs) = ''['' @ strings_Join (map json_print vs) '','' @ '']''"
| "json_print (JObj kvs) =
     ''{'' @ strings_Join (map (\<lambda>kv. json_quote (fst kv) @ '':'' @ json_print (snd kv)) kvs) '','' @ ''}''"

subsection \<open>The reader\<close>

fun getu4 :: "string \<Rightarrow> (nat \<times> string) option" where
  "getu4 (a # b # c # d # r) =
     (case (hex_val a, hex_val b, hex_val c, hex_val d) of
        (Some w, Some x, Some y, Some z) \<Rightarrow> Some (w * 4096 + x * 256 + y * 16 + z, r)
      | _ \<Rightarrow> None)"
| "getu4 _ = None"

lemma getu4_length: "getu4 s = Some (n, r) \<Longrightarrow> length r < length s"
  by (cases s rule: getu4.cases) (auto split: option.splits)

definition simple_escape :: "char \<Rightarrow> char option" where
  "simple_escape e =
     (if e = CHR 0x22 \<or> e = CHR 0x5C \<or> e = CHR ''/'' then Some e
      else if e = CHR ''b'' then Some (CHR 0x08)
      else if e = CHR ''f'' then Some (CHR 0x0C)
      else if e = CHR ''n'' then Some (CHR 0x0A)
      else if e = CHR ''r'' then Some (CHR 0x0D)
      else if e = CHR ''t'' then Some (CHR 0x09)
      else None)"

text \<open>
  The rune of a \<open>\<setminus>uXXXX\<close> escape and what is left of the input: a high surrogate takes the low
  one after it, an unpaired surrogate is U+FFFD.
\<close>

definition unicode_escape :: "string \<Rightarrow> (string \<times> string) option" where
  "unicode_escape r =
     (case getu4 r of
        None \<Rightarrow> None
      | Some (hi, r1) \<Rightarrow>
          if 55296 \<le> hi \<and> hi < 56320 then
            (case r1 of
               b # u # r2 \<Rightarrow>
                 (if b = CHR 0x5C \<and> u = CHR ''u'' then
                    (case getu4 r2 of
                       Some (lo, r3) \<Rightarrow>
                         if 56320 \<le> lo \<and> lo < 57344
                         then Some (utf8_encode ((hi - 55296) * 1024 + (lo - 56320) + 65536), r3)
                         else Some (rune_error, r1)
                     | None \<Rightarrow> Some (rune_error, r1))
                  else Some (rune_error, r1))
             | _ \<Rightarrow> Some (rune_error, r1))
          else Some (utf8_encode hi, r1))"

lemma unicode_escape_length: "unicode_escape s = Some (x, r) \<Longrightarrow> length r < length s"
  by (auto simp: unicode_escape_def dest!: getu4_length split: option.splits if_splits list.splits)

text \<open>The rest of a string literal, its opening quote already read.\<close>

function p_string :: "string \<Rightarrow> (string \<times> string) option" where
  "p_string s =
     (case s of
        [] \<Rightarrow> None
      | a # cs \<Rightarrow>
          if a = CHR 0x22 then Some ([], cs)
          else if a = CHR 0x5C then
            (case cs of
               [] \<Rightarrow> None
             | e # r \<Rightarrow>
                 if e = CHR ''u'' then
                   (case unicode_escape r of
                      None \<Rightarrow> None
                    | Some (x, r') \<Rightarrow> map_option (apfst ((@) x)) (p_string r'))
                 else
                   (case simple_escape e of
                      None \<Rightarrow> None
                    | Some c \<Rightarrow> map_option (apfst ((#) c)) (p_string r)))
          else if (of_char a :: nat) < 32 then None
          else if rune_len s = 0 then map_option (apfst ((@) rune_error)) (p_string cs)
          else map_option (apfst ((@) (take (rune_len s) s))) (p_string (drop (rune_len s) s)))"
  by pat_completeness auto
termination
  by (relation "measure length") (auto dest: unicode_escape_length)

declare p_string.simps [simp del]

fun skip_ws :: "string \<Rightarrow> string" where
  "skip_ws [] = []"
| "skip_ws (c # cs) =
     (if c = CHR '' '' \<or> c = CHR 0x09 \<or> c = CHR 0x0A \<or> c = CHR 0x0D then skip_ws cs else c # cs)"

definition num_char :: "char \<Rightarrow> bool" where
  "num_char c \<longleftrightarrow> in_range 48 57 c \<or> c = CHR ''-'' \<or> c = CHR ''+'' \<or> c = CHR ''.''
     \<or> c = CHR ''e'' \<or> c = CHR ''E''"

fun skip_digits :: "string \<Rightarrow> string" where
  "skip_digits [] = []"
| "skip_digits (c # cs) = (if in_range 48 57 c then skip_digits cs else c # cs)"

text \<open>\<open>-?(0|[1-9][0-9]*)(\.[0-9]+)?([eE][+-]?[0-9]+)?\<close>, read from the left.\<close>

definition digits1 :: "string \<Rightarrow> string option" where
  "digits1 s = (case s of c # cs \<Rightarrow> if in_range 48 57 c then Some (skip_digits cs) else None | [] \<Rightarrow> None)"

definition valid_number :: "string \<Rightarrow> bool" where
  "valid_number s =
     (let s1 = (case s of c # cs \<Rightarrow> if c = CHR ''-'' then cs else s | [] \<Rightarrow> []);
          int = (case s1 of
                   c # cs \<Rightarrow> if c = CHR ''0'' then Some cs
                             else if in_range 49 57 c then Some (skip_digits cs) else None
                 | [] \<Rightarrow> None)
      in case int of
           None \<Rightarrow> False
         | Some s2 \<Rightarrow>
             (case (case s2 of c # cs \<Rightarrow> if c = CHR ''.'' then digits1 cs else Some s2 | [] \<Rightarrow> Some []) of
                None \<Rightarrow> False
              | Some s3 \<Rightarrow>
                  (case s3 of
                     [] \<Rightarrow> True
                   | c # cs \<Rightarrow>
                       (c = CHR ''e'' \<or> c = CHR ''E'') \<and>
                       (case cs of
                          d # ds \<Rightarrow>
                            digits1 (if d = CHR ''+'' \<or> d = CHR ''-'' then ds else cs) = Some []
                        | [] \<Rightarrow> False))))"

text \<open>
  Values, members and elements. Every call that is not on a shorter input is on a smaller
  construct of the same input, so the length of the input bounds the depth of the recursion.
\<close>

fun p_value :: "nat \<Rightarrow> string \<Rightarrow> (json \<times> string) option"
  and p_members :: "nat \<Rightarrow> string \<Rightarrow> ((string \<times> json) list \<times> string) option"
  and p_elems :: "nat \<Rightarrow> string \<Rightarrow> (json list \<times> string) option"
where
  "p_value 0 s = None"
| "p_value (Suc n) s =
     (case skip_ws s of
        [] \<Rightarrow> None
      | a # cs \<Rightarrow>
          if a = CHR 0x22 then map_option (apfst JStr) (p_string cs)
          else if a = CHR ''{'' then
            (case skip_ws cs of
               [] \<Rightarrow> None
             | b # r \<Rightarrow> if b = CHR ''}'' then Some (JObj [], r)
                        else map_option (apfst JObj) (p_members n (b # r)))
          else if a = CHR ''['' then
            (case skip_ws cs of
               [] \<Rightarrow> None
             | b # r \<Rightarrow> if b = CHR '']'' then Some (JArr [], r)
                        else map_option (apfst JArr) (p_elems n (b # r)))
          else if prefix ''null'' (a # cs) then Some (JNull, drop 4 (a # cs))
          else if prefix ''true'' (a # cs) then Some (JBool True, drop 4 (a # cs))
          else if prefix ''false'' (a # cs) then Some (JBool False, drop 5 (a # cs))
          else if valid_number (takeWhile num_char (a # cs))
            then Some (JNum (takeWhile num_char (a # cs)), dropWhile num_char (a # cs))
          else None)"
| "p_members 0 s = None"
| "p_members (Suc n) s =
     (case skip_ws s of
        [] \<Rightarrow> None
      | a # cs \<Rightarrow>
          if a \<noteq> CHR 0x22 then None
          else (case p_string cs of
              None \<Rightarrow> None
            | Some (k, r) \<Rightarrow>
                (case skip_ws r of
                   [] \<Rightarrow> None
                 | c # r1 \<Rightarrow>
                     if c \<noteq> CHR '':'' then None
                     else (case p_value n r1 of
                         None \<Rightarrow> None
                       | Some (v, r2) \<Rightarrow>
                           (case skip_ws r2 of
                              [] \<Rightarrow> None
                            | d # r3 \<Rightarrow>
                                if d = CHR '','' then map_option (apfst ((#) (k, v))) (p_members n r3)
                                else if d = CHR ''}'' then Some ([(k, v)], r3)
                                else None)))))"
| "p_elems 0 s = None"
| "p_elems (Suc n) s =
     (case p_value n s of
        None \<Rightarrow> None
      | Some (v, r) \<Rightarrow>
          (case skip_ws r of
             [] \<Rightarrow> None
           | d # r1 \<Rightarrow>
               if d = CHR '','' then map_option (apfst ((#) v)) (p_elems n r1)
               else if d = CHR '']'' then Some ([v], r1)
               else None))"

definition json_parse :: "string \<Rightarrow> json option" where
  "json_parse s =
     (case p_value (Suc (2 * length s)) s of
        Some (v, r) \<Rightarrow> if skip_ws r = [] then Some v else None
      | None \<Rightarrow> None)"

subsection \<open>Round trip of strings\<close>

lemma cons_append: "(#) a = (@) [a]"
  by auto

lemma p_string_plain:
  assumes "32 \<le> (of_char a :: nat)" and "(of_char a :: nat) < 128"
    and "a \<noteq> CHR 0x22" and "a \<noteq> CHR 0x5C"
  shows "p_string (a # t) = map_option (apfst ((#) a)) (p_string t)"
  using assms by (simp add: p_string.simps [of "a # t"] rune_len_ascii cons_append [symmetric])

lemma p_string_simple_escape:
  assumes "simple_escape e = Some c"
  shows "p_string (CHR 0x5C # e # t) = map_option (apfst ((#) c)) (p_string t)"
proof -
  have "e \<noteq> CHR ''u''"
    using assms by (auto simp: simple_escape_def)
  with assms show ?thesis
    by (simp add: p_string.simps [of "CHR 0x5C # e # t"])
qed

lemma p_string_unicode_escape:
  assumes "unicode_escape r = Some (x, r')"
  shows "p_string (CHR 0x5C # CHR ''u'' # r) = map_option (apfst ((@) x)) (p_string r')"
  using assms by (simp add: p_string.simps [of "CHR 0x5C # CHR ''u'' # r"])

lemma unicode_escape_ascii:
  assumes "(of_char a :: nat) < 128"
  shows "unicode_escape (CHR ''0'' # CHR ''0'' # digit_char (of_char a div 16)
           # digit_char (of_char a mod 16) # t) = Some ([a], t)"
proof -
  have "(of_char a :: nat) div 16 < 16"
    using assms by simp
  moreover have "hex_val (CHR ''0'') = Some 0"
    by (simp add: hex_val_def digit_val_def)
  ultimately show ?thesis
    using assms by (simp add: unicode_escape_def utf8_encode_def)
qed

lemma p_string_esc_ascii:
  assumes "(of_char a :: nat) < 128"
  shows "p_string (esc_ascii a @ t) = map_option (apfst ((#) a)) (p_string t)"
proof -
  let ?special = "a = CHR 0x22 \<or> a = CHR 0x5C \<or> a = CHR 0x0A \<or> a = CHR 0x0D \<or> a = CHR 0x09"
  let ?unsafe = "(of_char a :: nat) < 32 \<or> a = CHR ''<'' \<or> a = CHR ''>'' \<or> a = CHR ''&''"
  consider ?special | "\<not> ?special" ?unsafe | "\<not> ?special" "\<not> ?unsafe"
    by argo
  then show ?thesis
  proof cases
    case 1
    then show ?thesis
      by (elim disjE) (simp_all add: esc_ascii_def simple_escape_def p_string_simple_escape)
  next
    case 2
    then have "esc_ascii a = [CHR 0x5C, CHR ''u'', CHR ''0'', CHR ''0'',
        digit_char (of_char a div 16), digit_char (of_char a mod 16)]"
      by (auto simp: esc_ascii_def)
    then show ?thesis
      using p_string_unicode_escape [OF unicode_escape_ascii [OF assms]]
      by (simp add: cons_append [symmetric])
  next
    case 3
    then have "esc_ascii a = [a]"
      by (auto simp: esc_ascii_def)
    with 3 assms show ?thesis
      by (simp add: p_string_plain)
  qed
qed

lemma p_string_rune:
  assumes "rune_len s = l" and "l \<noteq> 0" and "128 \<le> (of_char (hd s) :: nat)"
  shows "p_string (take l s @ t) = map_option (apfst ((@) (take l s))) (p_string t)"
proof -
  obtain a cs where s: "s = a # cs"
    using assms(1,2) by (cases s) auto
  have len: "rune_len (take l s @ t) = l"
    using assms(1,2) by (rule rune_len_take)
  obtain cs' where T: "take l s @ t = a # cs'"
    using s assms(2) by (cases l) auto
  have "length (take l s) = l"
    using rune_len_le [of s] assms(1) by simp
  then have D: "take l (a # cs') = take l s" "drop l (a # cs') = t"
    unfolding T [symmetric] by simp_all
  have "a \<noteq> CHR 0x22" "a \<noteq> CHR 0x5C" "\<not> (of_char a :: nat) < 32"
    using assms(3) s by auto
  then show ?thesis
    using len assms(2) unfolding T by (simp add: p_string.simps [of "a # cs'"] D)
qed

lemma unicode_escape_ffff:
  "unicode_escape (''fffd'' @ t) = Some (rune_error, t)"
  "unicode_escape (''2028'' @ t) = Some ([CHR 0xE2, CHR 0x80, CHR 0xA8], t)"
  "unicode_escape (''2029'' @ t) = Some ([CHR 0xE2, CHR 0x80, CHR 0xA9], t)"
  by (simp_all add: unicode_escape_def hex_val_def digit_val_def utf8_encode_def rune_error_def
      char_of_eq_iff)

lemma map_option_apfst_append:
  "map_option (apfst ((@) x)) (Some (y, r)) = Some (x @ y, r)"
  by simp

text \<open>Reading back a quoted string gives the string, up to invalid UTF-8.\<close>

lemma p_string_quote_body:
  "p_string (quote_body s @ CHR 0x22 # rest) = Some (utf8_sanitize s, rest)"
proof (induction s rule: quote_body.induct)
  case (1 s)
  show ?case
  proof (cases s)
    case Nil
    then show ?thesis
      by (simp add: quote_body.simps [of "[]"] p_string.simps [of "CHR 0x22 # rest"])
  next
    case (Cons a cs)
    consider "(of_char a :: nat) < 128"
      | "128 \<le> (of_char a :: nat)" "rune_len s = 0"
      | "128 \<le> (of_char a :: nat)" "rune_len s \<noteq> 0"
      by linarith
    then show ?thesis
    proof cases
      case 1
      then show ?thesis
        using "1.IH"(1) [OF Cons] Cons
        by (simp add: quote_body.simps [of "a # cs"] p_string_esc_ascii
              utf8_sanitize_rune rune_len_ascii)
    next
      case 2
      have "p_string (CHR 0x5C # CHR ''u'' # ''fffd'' @ quote_body cs @ CHR 0x22 # rest)
            = Some (rune_error @ utf8_sanitize cs, rest)"
        using "1.IH"(2) [OF Cons] 2 unicode_escape_ffff(1)
        by (subst p_string_unicode_escape) auto
      then show ?thesis
        using 2 Cons by (simp add: quote_body.simps [of "a # cs"] utf8_sanitize_bad)
    next
      case 3
      define r t where "r = take (rune_len s) s" and "t = drop (rune_len s) s"
      have IH: "p_string (quote_body t @ CHR 0x22 # rest) = Some (utf8_sanitize t, rest)"
        using "1.IH"(3) [OF Cons] 3 by (simp add: t_def)
      have S: "utf8_sanitize s = r @ utf8_sanitize t"
        using 3(2) by (simp add: r_def t_def utf8_sanitize_rune)
      have P: "p_string (r @ u) = map_option (apfst ((@) r)) (p_string u)" for u
        unfolding r_def using 3 Cons by (intro p_string_rune) auto
      have E: "p_string (CHR 0x5C # CHR ''u'' # ''2028'' @ u)
          = map_option (apfst ((@) [CHR 0xE2, CHR 0x80, CHR 0xA8])) (p_string u)"
        "p_string (CHR 0x5C # CHR ''u'' # ''2029'' @ u)
          = map_option (apfst ((@) [CHR 0xE2, CHR 0x80, CHR 0xA9])) (p_string u)" for u
        using unicode_escape_ffff(2,3) by (auto intro: p_string_unicode_escape)
      have "quote_body s =
          (if r = [CHR 0xE2, CHR 0x80, CHR 0xA8] then CHR 0x5C # ''u2028''
           else if r = [CHR 0xE2, CHR 0x80, CHR 0xA9] then CHR 0x5C # ''u2029'' else r)
          @ quote_body t"
        using 3 Cons by (simp add: quote_body.simps [of "a # cs"] r_def t_def Let_def)
      then show ?thesis
        using E [of "quote_body t @ CHR 0x22 # rest"] P [of "quote_body t @ CHR 0x22 # rest"]
        by (simp add: IH S)
    qed
  qed
qed

subsection \<open>Round trip of flat objects\<close>

fun json_scalar :: "json \<Rightarrow> bool" where
  "json_scalar (JNum lit) \<longleftrightarrow> valid_number lit \<and> list_all num_char lit"
| "json_scalar (JArr _) \<longleftrightarrow> False"
| "json_scalar (JObj _) \<longleftrightarrow> False"
| "json_scalar _ \<longleftrightarrow> True"

text \<open>What comes back: the strings of the document made valid UTF-8.\<close>

fun json_clean :: "json \<Rightarrow> json" where
  "json_clean (JStr s) = JStr (utf8_sanitize s)"
| "json_clean v = v"

definition member_text :: "string \<times> json \<Rightarrow> string" where
  "member_text kv = json_quote (fst kv) @ '':'' @ json_print (snd kv)"

lemma valid_number_neq_Nil: "valid_number lit \<Longrightarrow> lit \<noteq> []"
  by (auto simp: valid_number_def)

lemma num_char_facts:
  "num_char c \<Longrightarrow> c \<noteq> CHR 0x22 \<and> c \<noteq> CHR ''{'' \<and> c \<noteq> CHR ''['' \<and> c \<noteq> CHR ''n'' \<and> c \<noteq> CHR ''t''
     \<and> c \<noteq> CHR ''f'' \<and> CHR ''n'' \<noteq> c \<and> CHR ''t'' \<noteq> c \<and> CHR ''f'' \<noteq> c
     \<and> c \<noteq> CHR '' '' \<and> c \<noteq> CHR 0x09 \<and> c \<noteq> CHR 0x0A \<and> c \<noteq> CHR 0x0D"
  by (auto simp: num_char_def in_range_def)

lemma takeWhile_num:
  assumes "list_all num_char lit" and "rest = [] \<or> \<not> num_char (hd rest)"
  shows "takeWhile num_char (lit @ rest) = lit" and "dropWhile num_char (lit @ rest) = rest"
proof -
  have "takeWhile num_char rest = []" "dropWhile num_char rest = rest"
    using assms(2) by (cases rest; simp)+
  with assms(1) show "takeWhile num_char (lit @ rest) = lit"
    and "dropWhile num_char (lit @ rest) = rest"
    by (simp_all add: list_all_iff)
qed

lemma p_value_scalar:
  assumes "json_scalar v" and "rest = [] \<or> \<not> num_char (hd rest)"
  shows "p_value (Suc n) (json_print v @ rest) = Some (json_clean v, rest)"
proof (cases v)
  case (JNum lit)
  with assms(1) obtain c cs where lit: "lit = c # cs" "num_char c" "valid_number lit"
      "list_all num_char lit"
    using valid_number_neq_Nil by (cases lit) auto
  note tw = takeWhile_num [OF lit(4) assms(2)]
  then show ?thesis
    using lit num_char_facts [OF lit(2)] JNum by simp
qed (use assms(1) in \<open>auto simp: json_quote_def p_string_quote_body\<close>)

lemma json_print_member:
  "json_print (JObj kvs) = CHR ''{'' # strings_Join (map member_text kvs) '','' @ ''}''"
  by (simp add: member_text_def [abs_def])

lemma strings_Join_Cons:
  "xs \<noteq> [] \<Longrightarrow> strings_Join (x # xs) sep = x @ sep @ strings_Join xs sep"
  by (cases xs) auto

lemma p_members_flat:
  assumes "kvs \<noteq> []" and "\<forall>kv \<in> set kvs. json_scalar (snd kv)" and "length kvs \<le> n"
  shows "p_members (Suc n) (strings_Join (map member_text kvs) '','' @ CHR ''}'' # rest)
         = Some (map (\<lambda>kv. (utf8_sanitize (fst kv), json_clean (snd kv))) kvs, rest)"
  using assms
proof (induction kvs arbitrary: n)
  case (Cons kv kvs)
  obtain k v where kv: "kv = (k, v)"
    by (cases kv)
  obtain m where n: "n = Suc m"
    using Cons.prems(3) by (cases n) auto
  have sc: "json_scalar v"
    using Cons.prems(2) kv by simp
  have V: "p_value n (json_print v @ c # u) = Some (json_clean v, c # u)" if "\<not> num_char c" for c u
    unfolding n using sc that by (intro p_value_scalar) auto
  have Q: "p_string (quote_body k @ CHR 0x22 # CHR '':'' # u) = Some (utf8_sanitize k, CHR '':'' # u)" for u
    by (rule p_string_quote_body)
  have nc: "\<not> num_char (CHR '','')" "\<not> num_char (CHR ''}'')"
    by (simp_all add: num_char_def in_range_def)
  have M: "member_text (k, v) = CHR 0x22 # quote_body k @ CHR 0x22 # CHR '':'' # json_print v"
    by (simp add: member_text_def json_quote_def)
  show ?case
  proof (cases "kvs = []")
    case True
    then show ?thesis
      using V [OF nc(2)] Q by (simp add: M kv)
  next
    case False
    have "p_members n (strings_Join (map member_text kvs) '','' @ CHR ''}'' # rest)
          = Some (map (\<lambda>kv. (utf8_sanitize (fst kv), json_clean (snd kv))) kvs, rest)"
      unfolding n using Cons.prems False n by (intro Cons.IH) auto
    with False show ?thesis
      using V [OF nc(1)] Q by (simp add: M kv strings_Join_Cons)
  qed
qed simp

lemma p_value_flat:
  assumes "\<forall>kv \<in> set kvs. json_scalar (snd kv)" and "length kvs < n"
  shows "p_value (Suc n) (json_print (JObj kvs) @ rest)
         = Some (JObj (map (\<lambda>kv. (utf8_sanitize (fst kv), json_clean (snd kv))) kvs), rest)"
proof (cases kvs)
  case (Cons kv kvs')
  obtain m where n: "n = Suc m"
    using assms(2) by (cases n) auto
  obtain t where "strings_Join (map member_text kvs) '','' = CHR 0x22 # t"
    unfolding Cons by (cases kvs') (auto simp: member_text_def json_quote_def)
  moreover have "p_members n (strings_Join (map member_text kvs) '','' @ CHR ''}'' # rest)
          = Some (map (\<lambda>kv. (utf8_sanitize (fst kv), json_clean (snd kv))) kvs, rest)"
    unfolding n using assms n Cons by (intro p_members_flat) auto
  ultimately show ?thesis
    unfolding json_print_member by simp
qed simp

lemma length_le_Join: "\<forall>x \<in> set xs. x \<noteq> [] \<Longrightarrow> length xs \<le> length (strings_Join xs sep)"
proof (induction xs sep rule: strings_Join.induct)
  case (3 x y ys sep)
  then show ?case
    by (cases x) auto
qed (auto simp: Suc_le_eq)

theorem json_parse_print_flat:
  assumes "\<forall>kv \<in> set kvs. json_scalar (snd kv)"
  shows "json_parse (json_print (JObj kvs))
         = Some (JObj (map (\<lambda>kv. (utf8_sanitize (fst kv), json_clean (snd kv))) kvs))"
proof -
  let ?s = "json_print (JObj kvs)"
  have "length kvs \<le> length (strings_Join (map member_text kvs) '','')"
    using length_le_Join [of "map member_text kvs" "'',''"] by (auto simp: member_text_def json_quote_def)
  then have "length kvs < 2 * length ?s"
    unfolding json_print_member by simp
  from p_value_flat [OF assms this, of "[]"] show ?thesis
    unfolding json_parse_def by (simp del: json_print.simps)
qed

theorem json_parse_print_scalar:
  "json_scalar v \<Longrightarrow> json_parse (json_print v) = Some (json_clean v)"
  using p_value_scalar [of v "[]"] by (simp add: json_parse_def)

text \<open>A number printed by \<open>strconv.AppendUint\<close> is one the reader accepts.\<close>

lemma in_range_digit: "d < 10 \<Longrightarrow> in_range 48 57 (digit_char d)"
  "0 < d \<Longrightarrow> d < 10 \<Longrightarrow> in_range 49 57 (digit_char d)"
  by (auto simp: in_range_def digit_char_def)

lemma fmt_uint_10_digits: "list_all (in_range 48 57) (fmt_uint 10 n)"
  by (auto simp: list_all_iff in_range_digit dest!: fmt_uint_digits [rotated])

lemma fmt_uint_10_head:
  "0 < n \<Longrightarrow> in_range 49 57 (hd (fmt_uint 10 n))"
proof (induction n rule: less_induct)
  case (less n)
  show ?case
  proof (cases "n < 10")
    case True
    with less.prems show ?thesis
      by (subst fmt_uint.simps) (simp add: in_range_digit)
  next
    case False
    then have "in_range 49 57 (hd (fmt_uint 10 (n div 10)))"
      by (intro less.IH) auto
    with False show ?thesis
      by (subst fmt_uint.simps) (simp add: hd_append)
  qed
qed

lemma skip_digits_all: "list_all (in_range 48 57) s \<Longrightarrow> skip_digits s = []"
  by (induction s) auto

lemma valid_number_fmt: "valid_number (fmt_uint 10 n)"
proof (cases "n = 0")
  case True
  then show ?thesis
    by (subst fmt_uint.simps) (simp add: valid_number_def digit_char_def char_of_eq_iff)
next
  case False
  obtain c cs where C: "fmt_uint 10 n = c # cs"
    by (cases "fmt_uint 10 n") auto
  then have "in_range 49 57 c" "list_all (in_range 48 57) cs"
    using fmt_uint_10_head [of n] fmt_uint_10_digits [of n] False by auto
  moreover from this have "c \<noteq> CHR ''-''" "c \<noteq> CHR ''0''"
    by (auto simp: in_range_def)
  ultimately show ?thesis
    by (simp add: C valid_number_def skip_digits_all)
qed

lemma num_char_fmt: "list_all num_char (fmt_uint 10 n)"
  using fmt_uint_10_digits [of n] by (auto simp: list_all_iff num_char_def)

end
