(* ===== verification/RelayTypes.thy ===== *)
theory RelayTypes
  imports Json
begin

text \<open>
  \<^verbatim>\<open>relayer/types/types.go\<close> and \<^verbatim>\<open>relayer/events/eventTypes.go\<close>: the messages the relayer
  moves, their keys, the wrapper that counts the attempts at delivering one, and the cache of
  messages waiting for delivery. A \<open>*RouteMessage\<close> is shared between the cache, the goroutines
  that deliver it and their callbacks, all of which mutate it, so route messages live on a heap
  (a list, an address being an index) and the cache maps keys to addresses. The last section
  is the JSON form of the structs the stores write, as their field names and tags give it.
\<close>

subsection \<open>Messages and keys\<close>

definition EmitMessage :: string where
  "EmitMessage = ''emitMessage''"

definition DefaultTxRetry :: u64 where
  "DefaultTxRetry = 3"

definition TotalMaxRetryTx :: u64 where
  "TotalMaxRetryTx = DefaultTxRetry * 5"

record Message =
  msg_Dst :: string
  msg_Src :: string
  msg_Sn :: u64
  msg_Data :: "bytes option"
  msg_MessageHeight :: u64
  msg_EventType :: string

record BlockInfo =
  bi_Height :: u64
  bi_Messages :: "Message option list"

record MessageKey =
  key_Sn :: u64
  key_Src :: string
  key_Dst :: string
  key_EventType :: string

definition NewMessageKey :: "u64 \<Rightarrow> string \<Rightarrow> string \<Rightarrow> string \<Rightarrow> MessageKey" where
  "NewMessageKey sn src dst eventType =
     \<lparr>key_Sn = sn, key_Src = src, key_Dst = dst, key_EventType = eventType\<rparr>"

definition Message_MessageKey :: "Message \<Rightarrow> MessageKey" where
  "Message_MessageKey m = NewMessageKey (msg_Sn m) (msg_Src m) (msg_Dst m) (msg_EventType m)"

lemma Message_MessageKey_sel [simp]:
  "key_Sn (Message_MessageKey m) = msg_Sn m"
  "key_Src (Message_MessageKey m) = msg_Src m"
  "key_Dst (Message_MessageKey m) = msg_Dst m"
  "key_EventType (Message_MessageKey m) = msg_EventType m"
  by (simp_all add: Message_MessageKey_def NewMessageKey_def)

text \<open>
  The embedded \<open>*Message\<close> is an option: a route message read back from a document with no
  field of the message has a nil one, and so has the wrapper of a nil message.
\<close>

record RouteMessage =
  rm_Message :: "Message option"
  rm_Retry :: u64
  rm_IsProcessing :: bool

definition NewRouteMessage :: "Message option \<Rightarrow> RouteMessage" where
  "NewRouteMessage m = \<lparr>rm_Message = m, rm_Retry = 0, rm_IsProcessing = False\<rparr>"

definition RouteMessage_GetMessage :: "RouteMessage \<Rightarrow> Message option" where
  "RouteMessage_GetMessage r = rm_Message r"

definition RouteMessage_MessageKey :: "RouteMessage \<Rightarrow> MessageKey go" where
  "RouteMessage_MessageKey r = map_option Message_MessageKey (rm_Message r)"

definition RouteMessage_IncrementRetry :: "RouteMessage \<Rightarrow> RouteMessage" where
  "RouteMessage_IncrementRetry r = r\<lparr>rm_Retry := rm_Retry r + 1\<rparr>"

definition RouteMessage_GetRetry :: "RouteMessage \<Rightarrow> u64" where
  "RouteMessage_GetRetry r = rm_Retry r"

definition RouteMessage_SetIsProcessing :: "RouteMessage \<Rightarrow> bool \<Rightarrow> RouteMessage" where
  "RouteMessage_SetIsProcessing r b = r\<lparr>rm_IsProcessing := b\<rparr>"

definition RouteMessage_GetIsProcessing :: "RouteMessage \<Rightarrow> bool" where
  "RouteMessage_GetIsProcessing r = rm_IsProcessing r"

definition RouteMessage_IsStale :: "RouteMessage \<Rightarrow> bool" where
  "RouteMessage_IsStale r \<longleftrightarrow> TotalMaxRetryTx \<le> rm_Retry r"

lemmas route_message_defs =
  NewRouteMessage_def RouteMessage_GetMessage_def RouteMessage_MessageKey_def
  RouteMessage_IncrementRetry_def RouteMessage_GetRetry_def RouteMessage_SetIsProcessing_def
  RouteMessage_GetIsProcessing_def

lemma RouteMessage_IsStale_iff: "RouteMessage_IsStale r \<longleftrightarrow> 15 \<le> unat (rm_Retry r)"
  by (simp add: RouteMessage_IsStale_def TotalMaxRetryTx_def DefaultTxRetry_def word_le_nat_alt)

subsection \<open>Responses, transaction objects, receipts, coins\<close>

type_synonym ResponseCode = u8

definition Failed :: ResponseCode where
  "Failed = 0"

definition Success :: ResponseCode where
  "Success = 1"

record TxResponse =
  tr_Height :: i64
  tr_TxHash :: string
  tr_Codespace :: string
  tr_Code :: ResponseCode
  tr_Data :: string

definition zero_TxResponse :: TxResponse where
  "zero_TxResponse =
     \<lparr>tr_Height = 0, tr_TxHash = [], tr_Codespace = [], tr_Code = Failed, tr_Data = []\<rparr>"

record MessageKeyWithMessageHeight =
  mk_Key :: MessageKey
  mk_MsgHeight :: u64

definition NewMessagekeyWithMessageHeight ::
    "MessageKey \<Rightarrow> u64 \<Rightarrow> MessageKeyWithMessageHeight" where
  "NewMessagekeyWithMessageHeight key height = \<lparr>mk_Key = key, mk_MsgHeight = height\<rparr>"

record TransactionObject =
  to_Key :: MessageKeyWithMessageHeight
  to_TxHash :: string
  to_TxHeight :: u64

definition NewTransactionObject ::
    "MessageKeyWithMessageHeight \<Rightarrow> string \<Rightarrow> u64 \<Rightarrow> TransactionObject" where
  "NewTransactionObject messageKey txHash height =
     \<lparr>to_Key = messageKey, to_TxHash = txHash, to_TxHeight = height\<rparr>"

record Receipt =
  rc_TxHash :: string
  rc_Height :: u64
  rc_Status :: bool

record Coin =
  coin_Denom :: string
  coin_Amount :: u64

definition NewCoin :: "string \<Rightarrow> u64 \<Rightarrow> Coin" where
  "NewCoin denom amount = \<lparr>coin_Denom = denom, coin_Amount = amount\<rparr>"

definition Coin_String :: "Coin \<Rightarrow> string" where
  "Coin_String c = fmt_uint 10 (unat (coin_Amount c)) @ coin_Denom c"

text \<open>\<open>fmt.Sprintf("%d", sn)\<close>.\<close>

definition sprintf_d :: "u64 \<Rightarrow> string" where
  "sprintf_d w = fmt_uint 10 (unat w)"

lemma sprintf_d_inj: "sprintf_d x = sprintf_d y \<longleftrightarrow> x = y"
  using fmt_uint_inj [of 10 "unat x" "unat y"] by (auto simp: sprintf_d_def word_unat_eq_iff)

lemma sprintf_d_no_dash: "CHR ''-'' \<notin> set (sprintf_d x)"
  by (simp add: sprintf_d_def fmt_uint_no_sign)

subsection \<open>The heap of route messages and the message cache\<close>

type_synonym addr = nat
type_synonym heap = "RouteMessage list"
type_synonym MessageCache = "(MessageKey, addr) gomap"

definition heap_get :: "heap \<Rightarrow> addr \<Rightarrow> RouteMessage go" where
  "heap_get h a = (if a < length h then Some (h ! a) else None)"

definition heap_upd :: "heap \<Rightarrow> addr \<Rightarrow> (RouteMessage \<Rightarrow> RouteMessage) \<Rightarrow> heap" where
  "heap_upd h a f = (if a < length h then h[a := f (h ! a)] else h)"

text \<open>\<open>&RouteMessage{...}\<close>: the new object and its address.\<close>

definition heap_new :: "heap \<Rightarrow> RouteMessage \<Rightarrow> addr \<times> heap" where
  "heap_new h r = (length h, h @ [r])"

lemma heap_get_upd [simp]:
  "heap_get (heap_upd h a f) b = (if b = a then map_option f (heap_get h a) else heap_get h b)"
  by (auto simp: heap_get_def heap_upd_def nth_list_update)

lemma heap_get_new [simp]:
  "heap_get (snd (heap_new h r)) a = (if a = length h then Some r else heap_get h a)"
  by (auto simp: heap_get_def heap_new_def nth_append)

lemma heap_upd_length [simp, frame]: "length (heap_upd h a f) = length h"
  by (simp add: heap_upd_def)

lemma heap_get_Some_length: "heap_get h a = Some r \<Longrightarrow> a < length h"
  by (simp add: heap_get_def split: if_splits)

definition NewMessageCache :: MessageCache where
  "NewMessageCache = []"

text \<open>\<open>Add\<close> computes the key first, so a message that is nil panics.\<close>

definition MessageCache_Add :: "heap \<Rightarrow> MessageCache \<Rightarrow> addr \<Rightarrow> MessageCache go" where
  "MessageCache_Add h c a =
     (case heap_get h a of
        None \<Rightarrow> None
      | Some r \<Rightarrow>
          (case RouteMessage_MessageKey r of
             None \<Rightarrow> None
           | Some k \<Rightarrow> Some (map_set k a c)))"

definition MessageCache_Len :: "MessageCache \<Rightarrow> u64" where
  "MessageCache_Len c = of_nat (length c)"

definition MessageCache_Remove :: "MessageCache \<Rightarrow> MessageKey \<Rightarrow> MessageCache" where
  "MessageCache_Remove c key = map_delete key c"

text \<open>
  The invariant of a cache over its heap: one entry per key, and the object an entry points to
  exists and has that key.
\<close>

definition cache_wf :: "heap \<Rightarrow> MessageCache \<Rightarrow> bool" where
  "cache_wf h c \<longleftrightarrow>
     map_wf c \<and>
     list_all (\<lambda>(k, a). map_option RouteMessage_MessageKey (heap_get h a) = Some (Some k)) c"

lemma cache_wf_empty [simp, wf_intro]: "cache_wf h NewMessageCache"
  by (simp add: cache_wf_def NewMessageCache_def)

lemma cache_wfD:
  assumes "cache_wf h c" and "map_get c k = Some a"
  obtains r m where "heap_get h a = Some r" "rm_Message r = Some m" "Message_MessageKey m = k"
proof -
  have "(k, a) \<in> set c"
    using assms(2) by (rule map_of_SomeD)
  with assms(1) have "map_option RouteMessage_MessageKey (heap_get h a) = Some (Some k)"
    by (auto simp: cache_wf_def list_all_iff)
  then show ?thesis
    by (auto simp: RouteMessage_MessageKey_def intro: that)
qed

lemma set_delete_subset: "set (map_delete k m) \<subseteq> set m"
  by (auto simp: AList.delete_eq)

lemma list_all_update:
  "list_all P m \<Longrightarrow> P (k, v) \<Longrightarrow> list_all P (map_set k v m)"
  by (induction m) auto

lemma cache_wf_Add [wf_intro]:
  "cache_wf h c \<Longrightarrow> MessageCache_Add h c a = Some c' \<Longrightarrow> cache_wf h c'"
  by (auto simp: cache_wf_def MessageCache_Add_def distinct_update list_all_update
      split: option.splits)

lemma cache_wf_Remove [wf_intro]: "cache_wf h c \<Longrightarrow> cache_wf h (MessageCache_Remove c key)"
  using distinct_delete [of c key] set_delete_subset
  by (fastforce simp: cache_wf_def MessageCache_Remove_def list_all_iff)

text \<open>What a cache contains, as a partial function: the abstract view of the component.\<close>

definition cache_view :: "heap \<Rightarrow> MessageCache \<Rightarrow> MessageKey \<Rightarrow> RouteMessage option" where
  "cache_view h c k = Option.bind (map_get c k) (heap_get h)"

text \<open>
  The cache implements a partial function from keys to messages: \<open>Add\<close> overwrites the
  message's own key, \<open>Remove\<close> deletes one key, and a mutation through a pointer is seen at
  every key whose entry is that pointer.
\<close>

lemma cache_view_Add:
  assumes "heap_get h a = Some r" and "rm_Message r = Some m"
  shows "\<exists>c'. MessageCache_Add h c a = Some c' \<and>
           cache_view h c' = (cache_view h c)(Message_MessageKey m \<mapsto> r)"
  using assms by (auto simp: MessageCache_Add_def RouteMessage_MessageKey_def cache_view_def fun_eq_iff)

lemma cache_view_Remove:
  "cache_view h (MessageCache_Remove c key) = (cache_view h c)(key := None)"
  by (auto simp: cache_view_def MessageCache_Remove_def fun_eq_iff)

lemma cache_view_upd:
  "cache_view (heap_upd h a f) c k =
     (if map_get c k = Some a then map_option f (cache_view h c k) else cache_view h c k)"
  by (cases "map_get c k") (auto simp: cache_view_def)

lemma cache_view_dom:
  assumes "cache_wf h c"
  shows "dom (cache_view h c) = fst ` set c"
proof -
  have "k \<in> dom (cache_view h c) \<longleftrightarrow> map_get c k \<noteq> None" for k
    using assms by (cases "map_get c k") (auto simp: cache_view_def elim: cache_wfD)
  then show ?thesis
    by (auto simp: map_of_eq_None_iff)
qed

subsection \<open>A message to evaluate on\<close>

definition sample_Message :: Message where
  "sample_Message =
     \<lparr>msg_Dst = ''icon'', msg_Src = ''eth'', msg_Sn = 1, msg_Data = Some ''hi'',
      msg_MessageHeight = 5, msg_EventType = EmitMessage\<rparr>"

definition sample_RouteMessage :: RouteMessage where
  "sample_RouteMessage = NewRouteMessage (Some sample_Message)"

lemma sample_sel [simp]:
  "rm_Message sample_RouteMessage = Some sample_Message"
  "rm_Retry sample_RouteMessage = 0"
  "rm_IsProcessing sample_RouteMessage = False"
  by (simp_all add: sample_RouteMessage_def NewRouteMessage_def)

subsection \<open>Properties\<close>

text \<open>The message cache implements a partial function from keys to route messages: adding a
  route message overwrites the entry of its own key, removing deletes one key, its length is the
  number of keys, and both keep the cache well formed.\<close>

lemma MessageCache_refines_map:
  assumes "cache_wf h c" and "heap_get h a = Some r" and "rm_Message r = Some m"
  shows "\<exists>c'. MessageCache_Add h c a = Some c' \<and> cache_wf h c' \<and>
           cache_view h c' = (cache_view h c)(Message_MessageKey m \<mapsto> r) \<and>
           cache_wf h (MessageCache_Remove c' key) \<and>
           cache_view h (MessageCache_Remove c' key)
             = (cache_view h c)(Message_MessageKey m \<mapsto> r, key := None) \<and>
           MessageCache_Len c' = of_nat (card (dom (cache_view h c')))"
proof -
  obtain c' where c': "MessageCache_Add h c a = Some c'"
    "cache_view h c' = (cache_view h c)(Message_MessageKey m \<mapsto> r)"
    using cache_view_Add [OF assms(2,3)] by blast
  have wf: "cache_wf h c'"
    using cache_wf_Add [OF assms(1) c'(1)] .
  then have "distinct (map fst c')"
    by (simp add: cache_wf_def)
  then have "card (dom (cache_view h c')) = length c'"
    using cache_view_dom [OF wf] by (metis distinct_card length_map set_map)
  then show ?thesis
    using c' wf by (auto simp: cache_view_Remove MessageCache_Len_def intro: cache_wf_Remove)
qed

lemma MessageCache_refines_map_instance:
  "\<exists>c'. MessageCache_Add [sample_RouteMessage] NewMessageCache 0 = Some c' \<and>
     cache_wf [sample_RouteMessage] c' \<and>
     cache_view [sample_RouteMessage] c' (Message_MessageKey sample_Message) = Some sample_RouteMessage"
  using MessageCache_refines_map [of "[sample_RouteMessage]" NewMessageCache 0 sample_RouteMessage sample_Message
    "Message_MessageKey sample_Message"]
  by (force simp: heap_get_def)

end
