(* ===== verification/Codec.thy ===== *)
theory Codec
  imports RelayTypes
begin

text \<open>
  The documents the stores write and read: \<open>json.Marshal\<close> and \<open>json.Unmarshal\<close> on a
  \<open>RouteMessage\<close>, a \<open>TransactionObject\<close> and a height, with the field names and the struct
  tags of \<^verbatim>\<open>relayer/types/types.go\<close>. The three are instances of one contract, the locale
  \<open>codec\<close>: what is read back is what was written, up to invalid UTF-8 in its strings.
\<close>

subsection \<open>The contract of the Encode and Decode methods of a store\<close>

locale codec =
  fixes encode :: "'a \<Rightarrow> string"
    and decode :: "string \<Rightarrow> error + 'a"
    and clean :: "'a \<Rightarrow> 'a"
  assumes decode_encode: "decode (encode x) = Inr (clean x)"
    and clean_clean: "clean (clean x) = clean x"
begin

lemma decode_encode_clean: "clean x = x \<Longrightarrow> decode (encode x) = Inr x"
  by (simp add: decode_encode)

lemma encode_inj_clean: "encode x = encode y \<Longrightarrow> clean x = clean y"
  by (metis decode_encode sum.inject(2))

end

subsection \<open>Assigning the members of an object to the fields of a struct\<close>

definition fold_name :: "string \<Rightarrow> string" where
  "fold_name k = map ascii_lower k"

text \<open>A member goes to the field of that name, or else to the first one equal up to case.\<close>

definition field_of :: "string list \<Rightarrow> string \<Rightarrow> string option" where
  "field_of fs k = (if k \<in> set fs then Some k else find (\<lambda>f. fold_name f = fold_name k) fs)"

fun assign_fields ::
    "string list \<Rightarrow> (string \<Rightarrow> json \<Rightarrow> 'r \<Rightarrow> 'r option) \<Rightarrow> (string \<times> json) list \<Rightarrow> 'r \<Rightarrow> 'r option"
where
  "assign_fields fs upd [] r = Some r"
| "assign_fields fs upd ((k, v) # kvs) r =
     (case field_of fs k of
        None \<Rightarrow> assign_fields fs upd kvs r
      | Some f \<Rightarrow> (case upd f v r of None \<Rightarrow> None | Some r' \<Rightarrow> assign_fields fs upd kvs r'))"

definition unmarshal_struct ::
    "string list \<Rightarrow> (string \<Rightarrow> json \<Rightarrow> 'r \<Rightarrow> 'r option) \<Rightarrow> 'r \<Rightarrow> string \<Rightarrow> error + 'r" where
  "unmarshal_struct fs upd r0 s =
     (case json_parse s of
        Some (JObj kvs) \<Rightarrow>
          (case assign_fields fs upd kvs r0 of None \<Rightarrow> Inl ErrDecode | Some r \<Rightarrow> Inr r)
      | Some JNull \<Rightarrow> Inr r0
      | _ \<Rightarrow> Inl ErrDecode)"

text \<open>A \<open>uint64\<close>, a \<open>string\<close>, a \<open>bool\<close> and a \<open>[]byte\<close> field: \<open>null\<close> leaves a scalar as it is.\<close>

definition u64_of_json :: "json \<Rightarrow> u64 \<Rightarrow> u64 option" where
  "u64_of_json v cur =
     (case v of
        JNull \<Rightarrow> Some cur
      | JNum lit \<Rightarrow> (case parse_uint 10 64 lit of Inr n \<Rightarrow> Some (of_nat n) | Inl _ \<Rightarrow> None)
      | _ \<Rightarrow> None)"

definition string_of_json :: "json \<Rightarrow> string \<Rightarrow> string option" where
  "string_of_json v cur = (case v of JNull \<Rightarrow> Some cur | JStr s \<Rightarrow> Some s | _ \<Rightarrow> None)"

definition bool_of_json :: "json \<Rightarrow> bool \<Rightarrow> bool option" where
  "bool_of_json v cur = (case v of JNull \<Rightarrow> Some cur | JBool b \<Rightarrow> Some b | _ \<Rightarrow> None)"

definition byte_of_json :: "json \<Rightarrow> char option" where
  "byte_of_json v =
     (case v of
        JNull \<Rightarrow> Some (char_of (0::nat))
      | JNum lit \<Rightarrow> (case parse_uint 10 8 lit of Inr n \<Rightarrow> Some (char_of n) | Inl _ \<Rightarrow> None)
      | _ \<Rightarrow> None)"

definition bytes_of_json :: "json \<Rightarrow> bytes option option" where
  "bytes_of_json v =
     (case v of
        JNull \<Rightarrow> Some None
      | JStr s \<Rightarrow> map_option Some (b64_decode (filter (\<lambda>c. c \<noteq> CHR 0x0A \<and> c \<noteq> CHR 0x0D) s))
      | JArr vs \<Rightarrow> map_option Some (those (map byte_of_json vs))
      | _ \<Rightarrow> None)"

subsection \<open>Messages\<close>

definition zero_Message :: Message where
  "zero_Message =
     \<lparr>msg_Dst = [], msg_Src = [], msg_Sn = 0, msg_Data = None, msg_MessageHeight = 0,
      msg_EventType = []\<rparr>"

definition message_fields :: "string list" where
  "message_fields = [''dst'', ''src'', ''sn'', ''data'', ''messageHeight'', ''eventType'']"

definition route_message_fields :: "string list" where
  "route_message_fields = message_fields @ [''Retry'', ''IsProcessing'']"

definition json_u64 :: "u64 \<Rightarrow> json" where
  "json_u64 w = JNum (sprintf_d w)"

definition json_bytes :: "bytes option \<Rightarrow> json" where
  "json_bytes d = (case d of None \<Rightarrow> JNull | Some bs \<Rightarrow> JStr (b64_encode bs))"

definition Message_members :: "Message \<Rightarrow> (string \<times> json) list" where
  "Message_members m =
     [(''dst'', JStr (msg_Dst m)), (''src'', JStr (msg_Src m)), (''sn'', json_u64 (msg_Sn m)),
      (''data'', json_bytes (msg_Data m)), (''messageHeight'', json_u64 (msg_MessageHeight m)),
      (''eventType'', JStr (msg_EventType m))]"

definition RouteMessage_json :: "RouteMessage \<Rightarrow> json" where
  "RouteMessage_json r =
     JObj ((case rm_Message r of None \<Rightarrow> [] | Some m \<Rightarrow> Message_members m)
       @ [(''Retry'', json_u64 (rm_Retry r)), (''IsProcessing'', JBool (rm_IsProcessing r))])"

definition Message_assign :: "string \<Rightarrow> json \<Rightarrow> Message \<Rightarrow> Message option" where
  "Message_assign f v m =
     (if f = ''dst'' then map_option (\<lambda>x. m\<lparr>msg_Dst := x\<rparr>) (string_of_json v (msg_Dst m))
      else if f = ''src'' then map_option (\<lambda>x. m\<lparr>msg_Src := x\<rparr>) (string_of_json v (msg_Src m))
      else if f = ''sn'' then map_option (\<lambda>x. m\<lparr>msg_Sn := x\<rparr>) (u64_of_json v (msg_Sn m))
      else if f = ''data'' then map_option (\<lambda>x. m\<lparr>msg_Data := x\<rparr>) (bytes_of_json v)
      else if f = ''messageHeight''
        then map_option (\<lambda>x. m\<lparr>msg_MessageHeight := x\<rparr>) (u64_of_json v (msg_MessageHeight m))
      else map_option (\<lambda>x. m\<lparr>msg_EventType := x\<rparr>) (string_of_json v (msg_EventType m)))"

text \<open>The first member that belongs to the embedded message allocates it.\<close>

definition RouteMessage_assign :: "string \<Rightarrow> json \<Rightarrow> RouteMessage \<Rightarrow> RouteMessage option" where
  "RouteMessage_assign f v r =
     (if f = ''Retry'' then map_option (\<lambda>x. r\<lparr>rm_Retry := x\<rparr>) (u64_of_json v (rm_Retry r))
      else if f = ''IsProcessing''
        then map_option (\<lambda>x. r\<lparr>rm_IsProcessing := x\<rparr>) (bool_of_json v (rm_IsProcessing r))
      else map_option (\<lambda>m. r\<lparr>rm_Message := Some m\<rparr>)
             (Message_assign f v (case rm_Message r of None \<Rightarrow> zero_Message | Some m \<Rightarrow> m)))"

definition marshal_RouteMessage :: "RouteMessage \<Rightarrow> string" where
  "marshal_RouteMessage r = json_print (RouteMessage_json r)"

definition unmarshal_RouteMessage :: "string \<Rightarrow> error + RouteMessage" where
  "unmarshal_RouteMessage s =
     unmarshal_struct route_message_fields RouteMessage_assign (NewRouteMessage None) s"

definition Message_clean :: "Message \<Rightarrow> Message" where
  "Message_clean m =
     m\<lparr>msg_Dst := utf8_sanitize (msg_Dst m), msg_Src := utf8_sanitize (msg_Src m),
       msg_EventType := utf8_sanitize (msg_EventType m)\<rparr>"

definition RouteMessage_clean :: "RouteMessage \<Rightarrow> RouteMessage" where
  "RouteMessage_clean r = r\<lparr>rm_Message := map_option Message_clean (rm_Message r)\<rparr>"

subsection \<open>Transaction objects and heights\<close>

definition tx_object_fields :: "string list" where
  "tx_object_fields =
     [''Sn'', ''Src'', ''Dst'', ''EventType'', ''MsgHeight'', ''TxHash'', ''TxHeight'']"

definition TransactionObject_json :: "TransactionObject \<Rightarrow> json" where
  "TransactionObject_json t =
     (let mk = to_Key t; k = mk_Key mk in
      JObj [(''Sn'', json_u64 (key_Sn k)), (''Src'', JStr (key_Src k)), (''Dst'', JStr (key_Dst k)),
            (''EventType'', JStr (key_EventType k)), (''MsgHeight'', json_u64 (mk_MsgHeight mk)),
            (''TxHash'', JStr (to_TxHash t)), (''TxHeight'', json_u64 (to_TxHeight t))])"

definition zero_TransactionObject :: TransactionObject where
  "zero_TransactionObject =
     NewTransactionObject (NewMessagekeyWithMessageHeight (NewMessageKey 0 [] [] []) 0) [] 0"

definition MessageKey_assign :: "string \<Rightarrow> json \<Rightarrow> MessageKey \<Rightarrow> MessageKey option" where
  "MessageKey_assign f v k =
     (if f = ''Sn'' then map_option (\<lambda>x. k\<lparr>key_Sn := x\<rparr>) (u64_of_json v (key_Sn k))
      else if f = ''Src'' then map_option (\<lambda>x. k\<lparr>key_Src := x\<rparr>) (string_of_json v (key_Src k))
      else if f = ''Dst'' then map_option (\<lambda>x. k\<lparr>key_Dst := x\<rparr>) (string_of_json v (key_Dst k))
      else map_option (\<lambda>x. k\<lparr>key_EventType := x\<rparr>) (string_of_json v (key_EventType k)))"

definition TransactionObject_assign ::
    "string \<Rightarrow> json \<Rightarrow> TransactionObject \<Rightarrow> TransactionObject option" where
  "TransactionObject_assign f v t =
     (let mk = to_Key t in
      if f = ''MsgHeight''
        then map_option (\<lambda>x. t\<lparr>to_Key := mk\<lparr>mk_MsgHeight := x\<rparr>\<rparr>) (u64_of_json v (mk_MsgHeight mk))
      else if f = ''TxHash'' then map_option (\<lambda>x. t\<lparr>to_TxHash := x\<rparr>) (string_of_json v (to_TxHash t))
      else if f = ''TxHeight'' then map_option (\<lambda>x. t\<lparr>to_TxHeight := x\<rparr>) (u64_of_json v (to_TxHeight t))
      else map_option (\<lambda>k. t\<lparr>to_Key := mk\<lparr>mk_Key := k\<rparr>\<rparr>) (MessageKey_assign f v (mk_Key mk)))"

definition marshal_TransactionObject :: "TransactionObject \<Rightarrow> string" where
  "marshal_TransactionObject t = json_print (TransactionObject_json t)"

definition unmarshal_TransactionObject :: "string \<Rightarrow> error + TransactionObject" where
  "unmarshal_TransactionObject s =
     unmarshal_struct tx_object_fields TransactionObject_assign zero_TransactionObject s"

definition MessageKey_clean :: "MessageKey \<Rightarrow> MessageKey" where
  "MessageKey_clean k =
     k\<lparr>key_Src := utf8_sanitize (key_Src k), key_Dst := utf8_sanitize (key_Dst k),
       key_EventType := utf8_sanitize (key_EventType k)\<rparr>"

definition TransactionObject_clean :: "TransactionObject \<Rightarrow> TransactionObject" where
  "TransactionObject_clean t =
     t\<lparr>to_Key := (to_Key t)\<lparr>mk_Key := MessageKey_clean (mk_Key (to_Key t))\<rparr>,
       to_TxHash := utf8_sanitize (to_TxHash t)\<rparr>"

definition marshal_height :: "u64 \<Rightarrow> string" where
  "marshal_height h = json_print (json_u64 h)"

definition unmarshal_height :: "string \<Rightarrow> error + u64" where
  "unmarshal_height s =
     (case json_parse s of
        None \<Rightarrow> Inl ErrDecode
      | Some v \<Rightarrow> (case u64_of_json v 0 of None \<Rightarrow> Inl ErrDecode | Some h \<Rightarrow> Inr h))"

subsection \<open>Round trips\<close>

lemma u64_of_json_u64 [simp]: "u64_of_json (json_u64 w) cur = Some w"
proof -
  have "unat w < 2 ^ 64"
    using unsigned_less [of w] by simp
  then have "parse_uint 10 64 (fmt_uint 10 (unat w)) = Inr (unat w)"
    by (intro parse_uint_fmt) simp_all
  then show ?thesis
    by (simp add: u64_of_json_def json_u64_def sprintf_d_def)
qed

lemma json_scalar_u64 [simp]: "json_scalar (json_u64 w)" "json_clean (json_u64 w) = json_u64 w"
  by (simp_all add: json_u64_def sprintf_d_def valid_number_fmt num_char_fmt)

lemma b64_char_ascii: "n < 64 \<Longrightarrow> (of_char (b64_char n) :: nat) < 128 \<and> b64_char n \<noteq> CHR 0x0A
    \<and> b64_char n \<noteq> CHR 0x0D"
proof -
  assume "n < 64"
  then have "b64_val (b64_char n) = Some n" "(of_char (b64_char n) :: nat) < 128"
    by simp (use \<open>n < 64\<close> in \<open>auto simp: b64_char_def\<close>)
  then show ?thesis
    by (auto simp: b64_val_def)
qed

lemma b64_encode_ascii:
  "c \<in> set (b64_encode bs) \<Longrightarrow> (of_char c :: nat) < 128 \<and> c \<noteq> CHR 0x0A \<and> c \<noteq> CHR 0x0D"
proof (induction bs rule: b64_encode.induct)
  case (2 a)
  then show ?case
    using b64_char_ascii b64_sextets [of "of_char a" 0 0] by (auto simp: Let_def)
next
  case (3 a b)
  then show ?case
    using b64_char_ascii b64_sextets [of "of_char a" "of_char b" 0] by (auto simp: Let_def)
next
  case (4 a b c cs)
  then show ?case
    using b64_char_ascii b64_sextets [of "of_char a" "of_char b" "of_char c"]
    by (auto simp: Let_def)
qed simp

lemma filter_b64_encode:
  "filter (\<lambda>c. c \<noteq> CHR 0x0A \<and> c \<noteq> CHR 0x0D) (b64_encode bs) = b64_encode bs"
  using b64_encode_ascii by (auto simp: filter_id_conv)

lemma json_bytes_facts [simp]:
  "json_scalar (json_bytes d)" "json_clean (json_bytes d) = json_bytes d"
  "bytes_of_json (json_bytes d) = Some d"
proof -
  have "utf8_sanitize (b64_encode bs) = b64_encode bs" for bs
    using b64_encode_ascii by (auto intro: utf8_sanitize_valid utf8_valid_ascii)
  then show "json_scalar (json_bytes d)" "json_clean (json_bytes d) = json_bytes d"
    "bytes_of_json (json_bytes d) = Some d"
    by (simp_all add: json_bytes_def bytes_of_json_def filter_b64_encode split: option.split)
qed

lemma field_of_self [simp]: "k \<in> set fs \<Longrightarrow> field_of fs k = Some k"
  by (simp add: field_of_def)

lemma sanitize_field_names:
  "f \<in> set route_message_fields \<Longrightarrow> utf8_sanitize f = f"
  "f \<in> set tx_object_fields \<Longrightarrow> utf8_sanitize f = f"
  by (rule utf8_sanitize_valid, rule utf8_valid_ascii,
      force simp: route_message_fields_def message_fields_def tx_object_fields_def)+

text \<open>A document whose members are the struct's own fields, in order, is read field by field.\<close>

lemma unmarshal_struct_print:
  assumes "\<forall>kv \<in> set kvs. json_scalar (snd kv) \<and> utf8_sanitize (fst kv) = fst kv"
  shows "unmarshal_struct fs upd r0 (json_print (JObj kvs)) =
    (case assign_fields fs upd (map (\<lambda>kv. (fst kv, json_clean (snd kv))) kvs) r0 of
       None \<Rightarrow> Inl ErrDecode | Some r \<Rightarrow> Inr r)"
proof -
  have M: "map (\<lambda>kv. (utf8_sanitize (fst kv), json_clean (snd kv))) kvs
        = map (\<lambda>kv. (fst kv, json_clean (snd kv))) kvs"
    using assms by simp
  have "json_parse (json_print (JObj kvs)) = Some (JObj (map (\<lambda>kv. (fst kv, json_clean (snd kv))) kvs))"
    using assms by (subst json_parse_print_flat) (auto simp only: M)
  then show ?thesis
    unfolding unmarshal_struct_def by (simp only: option.case json.case)
qed

lemma unmarshal_marshal_RouteMessage:
  "unmarshal_RouteMessage (marshal_RouteMessage r) = Inr (RouteMessage_clean r)"
proof -
  let ?kvs = "(case rm_Message r of None \<Rightarrow> [] | Some m \<Rightarrow> Message_members m)
       @ [(''Retry'', json_u64 (rm_Retry r)), (''IsProcessing'', JBool (rm_IsProcessing r))]"
  have ok: "\<forall>kv \<in> set ?kvs. json_scalar (snd kv) \<and> utf8_sanitize (fst kv) = fst kv"
    by (auto simp: Message_members_def route_message_fields_def message_fields_def
        intro!: sanitize_field_names(1) split: option.splits)
  have "assign_fields route_message_fields RouteMessage_assign
          (map (\<lambda>kv. (fst kv, json_clean (snd kv))) ?kvs) (NewRouteMessage None)
        = Some (RouteMessage_clean r)"
    by (cases "rm_Message r")
      (simp_all add: Message_members_def route_message_fields_def message_fields_def
        RouteMessage_assign_def Message_assign_def string_of_json_def bool_of_json_def
        NewRouteMessage_def RouteMessage_clean_def Message_clean_def zero_Message_def)
  then show ?thesis
    unfolding unmarshal_RouteMessage_def marshal_RouteMessage_def RouteMessage_json_def
      unmarshal_struct_print [OF ok]
    by simp
qed

lemma unmarshal_marshal_TransactionObject:
  "unmarshal_TransactionObject (marshal_TransactionObject t) = Inr (TransactionObject_clean t)"
proof -
  define k where "k = mk_Key (to_Key t)"
  let ?kvs = "[(''Sn'', json_u64 (key_Sn k)), (''Src'', JStr (key_Src k)), (''Dst'', JStr (key_Dst k)),
            (''EventType'', JStr (key_EventType k)), (''MsgHeight'', json_u64 (mk_MsgHeight (to_Key t))),
            (''TxHash'', JStr (to_TxHash t)), (''TxHeight'', json_u64 (to_TxHeight t))]"
  have ok: "\<forall>kv \<in> set ?kvs. json_scalar (snd kv) \<and> utf8_sanitize (fst kv) = fst kv"
    by (auto simp: tx_object_fields_def intro!: sanitize_field_names(2))
  have "assign_fields tx_object_fields TransactionObject_assign
          (map (\<lambda>kv. (fst kv, json_clean (snd kv))) ?kvs) zero_TransactionObject
        = Some (TransactionObject_clean t)"
    by (simp add: tx_object_fields_def TransactionObject_assign_def MessageKey_assign_def
        string_of_json_def zero_TransactionObject_def NewTransactionObject_def
        NewMessagekeyWithMessageHeight_def NewMessageKey_def TransactionObject_clean_def
        MessageKey_clean_def k_def)
  then show ?thesis
    unfolding unmarshal_TransactionObject_def marshal_TransactionObject_def
      TransactionObject_json_def Let_def k_def [symmetric] unmarshal_struct_print [OF ok]
    by simp
qed

lemma unmarshal_marshal_height: "unmarshal_height (marshal_height h) = Inr h"
  by (simp add: unmarshal_height_def marshal_height_def json_parse_print_scalar)

lemma Message_clean_idem [simp]: "Message_clean (Message_clean m) = Message_clean m"
  by (simp add: Message_clean_def)

interpretation rm: codec marshal_RouteMessage unmarshal_RouteMessage RouteMessage_clean
  by unfold_locales
    (auto simp: unmarshal_marshal_RouteMessage RouteMessage_clean_def option.map_comp comp_def)

interpretation txo: codec marshal_TransactionObject unmarshal_TransactionObject
    TransactionObject_clean
  by unfold_locales
    (auto simp: unmarshal_marshal_TransactionObject TransactionObject_clean_def MessageKey_clean_def)

interpretation hgt: codec marshal_height unmarshal_height "\<lambda>h. h"
  by unfold_locales (auto simp: unmarshal_marshal_height)

subsection \<open>Properties\<close>



end
