(* ===== verification/Store.thy ===== *)
theory Store
  imports Prelude "HOL-Library.Char_ord" "HOL-Library.List_Lexorder"
begin

text \<open>
  \<^verbatim>\<open>relayer/store/store.go\<close>: the key-value interface \<open>Store\<close>, as the record of its methods
  over an arbitrary state \<open>'d\<close> of the database, and its contract. An iterator is what its
  \<open>Next\<close> delivers, in order, and what \<open>Error\<close> says at the end. Every method may fail with an
  I/O error, and then the contract says nothing; \<open>kv_reliable\<close> is the contract of a database
  whose I/O does not fail.
\<close>

type_synonym kvs = "(string \<times> string) list"

record 'd Store =
  GetByKey :: "'d \<Rightarrow> string \<Rightarrow> error + string"
  SetByKey :: "'d \<Rightarrow> string \<Rightarrow> string \<Rightarrow> error option \<times> 'd"
  NewIterator :: "'d \<Rightarrow> string \<Rightarrow> kvs \<times> error option"
  ClearStore :: "'d \<Rightarrow> error option \<times> 'd"
  DeleteByKey :: "'d \<Rightarrow> string \<Rightarrow> error option \<times> 'd"

locale kv_store =
  fixes S :: "'d Store"
    and view :: "'d \<Rightarrow> string \<Rightarrow> string option"
  assumes get_found: "GetByKey S d k = Inr v \<Longrightarrow> view d k = Some v"
    and get_missing: "GetByKey S d k = Inl ErrNotFound \<Longrightarrow> view d k = None"
    and set_ok: "SetByKey S d k v = (None, d') \<Longrightarrow> view d' = (view d)(k \<mapsto> v)"
    and delete_ok: "DeleteByKey S d k = (None, d') \<Longrightarrow> view d' = (view d)(k := None)"
    and iter_ok: "NewIterator S d p = (kvs, None) \<Longrightarrow>
      sorted (map fst kvs) \<and> map_wf kvs \<and> (\<forall>k v. (k, v) \<in> set kvs \<longleftrightarrow> prefix p k \<and> view d k = Some v)"
begin

lemma iter_member:
  "NewIterator S d p = (kvs, None) \<Longrightarrow> (k, v) \<in> set kvs \<longleftrightarrow> prefix p k \<and> view d k = Some v"
  using iter_ok by blast

lemma iter_map_of:
  "NewIterator S d p = (kvs, None) \<Longrightarrow> map_of kvs k = (if prefix p k then view d k else None)"
proof -
  assume it: "NewIterator S d p = (kvs, None)"
  then have "map_wf kvs"
    using iter_ok by blast
  then have "map_of kvs k = Some v \<longleftrightarrow> prefix p k \<and> view d k = Some v" for v
    using iter_member [OF it] by simp
  then show ?thesis
    by (metis not_Some_eq)
qed

text \<open>Two iterations over the same entries deliver the same list: the order is that of the keys.\<close>

lemma iter_unique:
  assumes "NewIterator S d p = (kvs, None)" and "NewIterator S d' p = (kvs', None)"
    and "\<And>k. prefix p k \<Longrightarrow> view d k = view d' k"
  shows "kvs = kvs'"
proof -
  have eq: "set kvs = set kvs'"
    using assms by (auto simp: iter_member)
  have wf: "sorted (map fst kvs)" "map_wf kvs" "sorted (map fst kvs')" "map_wf kvs'"
    using assms(1,2) iter_ok by blast+
  have "inj_on fst (set kvs \<union> set kvs')"
    using wf(2) by (simp add: eq [symmetric] distinct_map)
  with eq wf show ?thesis
    by (intro map_sorted_distinct_set_unique) auto
qed

end

locale kv_reliable = kv_store +
  assumes get_total: "GetByKey S d k = (case view d k of None \<Rightarrow> Inl ErrNotFound | Some v \<Rightarrow> Inr v)"
    and set_total: "fst (SetByKey S d k v) = None"
    and delete_total: "fst (DeleteByKey S d k) = None"
    and iter_total: "snd (NewIterator S d p) = None"
    and clear_total: "fst (ClearStore S d) = None"
    and clear_empty: "view (snd (ClearStore S d)) = Map.empty"
begin

lemma set_view: "view (snd (SetByKey S d k v)) = (view d)(k \<mapsto> v)"
  by (metis prod.collapse set_ok set_total)

lemma delete_view: "view (snd (DeleteByKey S d k)) = (view d)(k := None)"
  by (metis delete_ok delete_total prod.collapse)

lemma iter_pair: "NewIterator S d p = (fst (NewIterator S d p), None)"
  by (metis iter_total prod.collapse)

lemmas reliable_simps = get_total set_total delete_total iter_total clear_total clear_empty
  set_view delete_view

end

end
