(* ===== verification/Lvldb.thy ===== *)
theory Lvldb
  imports Store
begin

text \<open>
  \<^verbatim>\<open>relayer/lvldb/lvldb.go\<close>: the \<open>Store\<close> implemented over goleveldb. The third-party
  database is a parameter, the record \<open>goleveldb\<close> of the calls the code makes; what the code
  relies on is the locale \<open>leveldb\<close>, the documented behaviour of those calls. \<open>LVLDB_store\<close>
  puts the methods of \<open>LVLDB\<close> into the interface, and the sublocale proves the contract of
  \<open>Store\<close> for it. \<open>mem_leveldb\<close> is an executable database that satisfies the laws, on which
  the witnesses run. The mutex of \<open>LVLDB\<close> makes each call atomic, as each is here.
\<close>

record 'd goleveldb =
  ldb_Get :: "'d \<Rightarrow> string \<Rightarrow> error + string"
  ldb_Put :: "'d \<Rightarrow> string \<Rightarrow> string \<Rightarrow> error option \<times> 'd"
  ldb_Delete :: "'d \<Rightarrow> string \<Rightarrow> error option \<times> 'd"
  ldb_IterPrefix :: "'d \<Rightarrow> string \<Rightarrow> kvs \<times> error option"
  ldb_IterAll :: "'d \<Rightarrow> kvs \<times> error option"
  ldb_WriteDeletes :: "'d \<Rightarrow> string list \<Rightarrow> error option \<times> 'd"

definition LVLDB_GetByKey :: "'d goleveldb \<Rightarrow> 'd \<Rightarrow> string \<Rightarrow> error + string" where
  "LVLDB_GetByKey L d key = ldb_Get L d key"

definition LVLDB_SetByKey :: "'d goleveldb \<Rightarrow> 'd \<Rightarrow> string \<Rightarrow> string \<Rightarrow> error option \<times> 'd" where
  "LVLDB_SetByKey L d key value = ldb_Put L d key value"

definition LVLDB_DeleteByKey :: "'d goleveldb \<Rightarrow> 'd \<Rightarrow> string \<Rightarrow> error option \<times> 'd" where
  "LVLDB_DeleteByKey L d key = ldb_Delete L d key"

definition LVLDB_NewIterator :: "'d goleveldb \<Rightarrow> 'd \<Rightarrow> string \<Rightarrow> kvs \<times> error option" where
  "LVLDB_NewIterator L d pre = ldb_IterPrefix L d pre"

text \<open>An error of the iteration is dropped: \<open>ClearStore\<close> then returns \<open>nil\<close>.\<close>

definition LVLDB_ClearStore :: "'d goleveldb \<Rightarrow> 'd \<Rightarrow> error option \<times> 'd" where
  "LVLDB_ClearStore L d =
     (case ldb_IterAll L d of
        (kvs, Some e) \<Rightarrow> (None, d)
      | (kvs, None) \<Rightarrow> ldb_WriteDeletes L d (map fst kvs))"

definition LVLDB_store :: "'d goleveldb \<Rightarrow> 'd Store" where
  "LVLDB_store L =
     \<lparr>GetByKey = LVLDB_GetByKey L, SetByKey = LVLDB_SetByKey L, NewIterator = LVLDB_NewIterator L,
      ClearStore = LVLDB_ClearStore L, DeleteByKey = LVLDB_DeleteByKey L\<rparr>"

lemma LVLDB_store_sel [simp]:
  "GetByKey (LVLDB_store L) = ldb_Get L"
  "SetByKey (LVLDB_store L) = ldb_Put L"
  "DeleteByKey (LVLDB_store L) = ldb_Delete L"
  "NewIterator (LVLDB_store L) = ldb_IterPrefix L"
  "ClearStore (LVLDB_store L) = LVLDB_ClearStore L"
  by (simp_all add: LVLDB_store_def LVLDB_GetByKey_def LVLDB_SetByKey_def LVLDB_DeleteByKey_def
      LVLDB_NewIterator_def fun_eq_iff)

subsection \<open>What the code relies on\<close>

locale leveldb =
  fixes L :: "'d goleveldb"
    and view :: "'d \<Rightarrow> string \<Rightarrow> string option"
  assumes Get_found: "ldb_Get L d k = Inr v \<Longrightarrow> view d k = Some v"
    and Get_missing: "ldb_Get L d k = Inl ErrNotFound \<Longrightarrow> view d k = None"
    and Put_ok: "ldb_Put L d k v = (None, d') \<Longrightarrow> view d' = (view d)(k \<mapsto> v)"
    and Delete_ok: "ldb_Delete L d k = (None, d') \<Longrightarrow> view d' = (view d)(k := None)"
    and IterPrefix_ok: "ldb_IterPrefix L d p = (kvs, None) \<Longrightarrow>
      sorted (map fst kvs) \<and> map_wf kvs \<and> (\<forall>k v. (k, v) \<in> set kvs \<longleftrightarrow> prefix p k \<and> view d k = Some v)"
    and IterAll_ok: "ldb_IterAll L d = (kvs, None) \<Longrightarrow> fst ` set kvs = dom (view d)"
    and WriteDeletes_ok: "ldb_WriteDeletes L d ks = (None, d') \<Longrightarrow> view d' = (view d) |` (- set ks)"
begin

text \<open>When the iteration succeeds, \<open>ClearStore\<close> empties the database or reports why not.\<close>

lemma ClearStore_empties:
  assumes "snd (ldb_IterAll L d) = None" and "LVLDB_ClearStore L d = (None, d')"
  shows "view d' = Map.empty"
proof -
  obtain kvs where it: "ldb_IterAll L d = (kvs, None)"
    using assms(1) by (metis prod.collapse)
  then have "view d' = (view d) |` (- (fst ` set kvs))"
    using assms(2) WriteDeletes_ok by (simp add: LVLDB_ClearStore_def)
  also have "\<dots> = (view d) |` (- dom (view d))"
    using IterAll_ok [OF it] by simp
  finally show ?thesis
    by (auto simp: restrict_map_def fun_eq_iff domIff)
qed

end

sublocale leveldb \<subseteq> kv_store "LVLDB_store L" view
  by unfold_locales (use Get_found Get_missing Put_ok Delete_ok IterPrefix_ok in \<open>auto; blast\<close>)+

locale leveldb_reliable = leveldb +
  assumes Get_total: "ldb_Get L d k = (case view d k of None \<Rightarrow> Inl ErrNotFound | Some v \<Rightarrow> Inr v)"
    and Put_total: "fst (ldb_Put L d k v) = None"
    and Delete_total: "fst (ldb_Delete L d k) = None"
    and IterPrefix_total: "snd (ldb_IterPrefix L d p) = None"
    and IterAll_total: "snd (ldb_IterAll L d) = None"
    and WriteDeletes_total: "fst (ldb_WriteDeletes L d ks) = None"

sublocale leveldb_reliable \<subseteq> kv_reliable "LVLDB_store L" view
proof unfold_locales
  fix d
  show clear: "fst (ClearStore (LVLDB_store L) d) = None"
    using IterAll_total [of d] WriteDeletes_total by (auto simp: LVLDB_ClearStore_def split: prod.splits)
  then show "view (snd (ClearStore (LVLDB_store L) d)) = Map.empty"
    using ClearStore_empties [OF IterAll_total] by (metis LVLDB_store_sel(5) prod.collapse)
qed (simp_all add: Get_total Put_total Delete_total IterPrefix_total)

context leveldb_reliable
begin

lemma store_reliable: "kv_reliable (LVLDB_store L) view"
  by (rule kv_reliable_axioms)

end

subsection \<open>A database in memory\<close>

definition mem_iter :: "kvs \<Rightarrow> string \<Rightarrow> kvs" where
  "mem_iter d p = map (\<lambda>k. (k, the (map_of d k))) (filter (prefix p) (sort (remdups (map fst d))))"

definition mem_leveldb :: "kvs goleveldb" where
  "mem_leveldb =
     \<lparr>ldb_Get = (\<lambda>d k. case map_of d k of None \<Rightarrow> Inl ErrNotFound | Some v \<Rightarrow> Inr v),
      ldb_Put = (\<lambda>d k v. (None, map_set k v d)),
      ldb_Delete = (\<lambda>d k. (None, map_delete k d)),
      ldb_IterPrefix = (\<lambda>d p. (mem_iter d p, None)),
      ldb_IterAll = (\<lambda>d. (mem_iter d [], None)),
      ldb_WriteDeletes = (\<lambda>d ks. (None, filter (\<lambda>kv. fst kv \<notin> set ks) d))\<rparr>"

lemma mem_iter_ok:
  "sorted (map fst (mem_iter d p)) \<and> map_wf (mem_iter d p) \<and>
   (\<forall>k v. (k, v) \<in> set (mem_iter d p) \<longleftrightarrow> prefix p k \<and> map_of d k = Some v)"
proof -
  have keys: "map fst (mem_iter d p) = filter (prefix p) (sort (remdups (map fst d)))"
    by (simp add: mem_iter_def comp_def)
  have "(k, v) \<in> set (mem_iter d p) \<longleftrightarrow> prefix p k \<and> map_of d k = Some v" for k v
    by (auto simp: mem_iter_def dom_map_of_conv_image_fst [symmetric] domIff image_iff)
  moreover have "sorted (filter (prefix p) (sort (remdups (map fst d))))"
    by (rule sorted_filter [of id, simplified]) simp
  ultimately show ?thesis
    unfolding keys by simp
qed

lemma map_of_filter_keys:
  "map_of (filter (\<lambda>kv. fst kv \<notin> A) d) = (map_of d) |` (- A)"
  by (induction d) (auto simp: restrict_map_def fun_eq_iff)

interpretation mem: leveldb_reliable mem_leveldb map_of
proof unfold_locales
  fix d :: kvs and p kvs
  assume "ldb_IterPrefix mem_leveldb d p = (kvs, None)"
  then show "sorted (map fst kvs) \<and> map_wf kvs
      \<and> (\<forall>k v. (k, v) \<in> set kvs \<longleftrightarrow> prefix p k \<and> map_of d k = Some v)"
    using mem_iter_ok [of d p] by (simp add: mem_leveldb_def)
next
  fix d :: kvs and kvs
  assume "ldb_IterAll mem_leveldb d = (kvs, None)"
  then have kvs: "kvs = mem_iter d []"
    by (simp add: mem_leveldb_def)
  then have "(k, v) \<in> set kvs \<longleftrightarrow> map_of d k = Some v" for k v
    using mem_iter_ok [of d "[]"] by simp
  then show "fst ` set kvs = dom (map_of d)"
    by force
qed (auto simp: mem_leveldb_def update_conv' delete_conv' map_of_filter_keys split: option.splits)

subsection \<open>Properties\<close>



end
