(* ===== verification/StoreCommon.thy ===== *)
theory StoreCommon
  imports Codec Lvldb
begin

text \<open>
  What the stores share: the keys of \<^verbatim>\<open>relayer/store/common.go\<close>, the pagination and the
  listing loops of \<^verbatim>\<open>relayer/store/messageStore.go\<close> (the finality store repeats them), and
  the contract \<open>keyed_store\<close> of a store that keeps documents of one type under keys of its
  own: over a reliable database it is a partial function from identifiers to documents.
\<close>

subsection \<open>Keys\<close>

definition GetKey :: "string list \<Rightarrow> string" where
  "GetKey keys = strings_Join keys ''-''"

lemma GetKey_3: "GetKey [p, n, s] = p @ CHR ''-'' # n @ CHR ''-'' # s"
  by (simp add: GetKey_def)

lemma GetKey_2: "GetKey [p, n] = p @ CHR ''-'' # n"
  by (simp add: GetKey_def)

text \<open>
  A network id may contain dashes, a serial number cannot, so the key of an entry determines
  both.
\<close>

lemma GetKey_3_inj:
  "GetKey [p, n, sprintf_d s] = GetKey [p, n', sprintf_d s'] \<longleftrightarrow> n = n' \<and> s = s'"
  using append_unique_split [of n "CHR ''-''" "sprintf_d s" n' "sprintf_d s'"] sprintf_d_no_dash
  by (auto simp: GetKey_3 sprintf_d_inj)

lemma prefix_GetKey_2: "prefix (GetKey [p, n]) (GetKey [p, n', s]) \<longleftrightarrow> prefix n (n' @ CHR ''-'' # s)"
  by (simp add: GetKey_3 GetKey_2)

subsection \<open>Pagination\<close>

record Pagination =
  pg_Limit :: u64
  pg_Offset :: u64
  pg_All :: bool

definition NewPagination :: Pagination where
  "NewPagination = \<lparr>pg_Limit = 0, pg_Offset = 0, pg_All = False\<rparr>"

definition Pagination_GetAll :: "Pagination \<Rightarrow> Pagination" where
  "Pagination_GetAll p = p\<lparr>pg_All := True\<rparr>"

definition Pagination_WithLimit :: "Pagination \<Rightarrow> u64 \<Rightarrow> Pagination" where
  "Pagination_WithLimit p l = p\<lparr>pg_Limit := l\<rparr>"

definition Pagination_CalculateOffset :: "Pagination \<Rightarrow> u64 \<Rightarrow> u64" where
  "Pagination_CalculateOffset p page = (if page \<le> 1 then 0 else page * pg_Limit p)"

definition Pagination_WithPage :: "Pagination \<Rightarrow> u64 \<Rightarrow> u64 \<Rightarrow> Pagination" where
  "Pagination_WithPage p page limit =
     (let p' = p\<lparr>pg_Limit := limit\<rparr> in p'\<lparr>pg_Offset := Pagination_CalculateOffset p' page\<rparr>)"

definition Pagination_WithOffset :: "Pagination \<Rightarrow> u64 \<Rightarrow> Pagination" where
  "Pagination_WithOffset p off = p\<lparr>pg_Offset := off\<rparr>"

text \<open>A limit of zero panics: an integer division by zero.\<close>

definition Pagination_CalculateTotalPages :: "Pagination \<Rightarrow> i64 \<Rightarrow> u64 go" where
  "Pagination_CalculateTotalPages p n =
     (if pg_Limit p = 0 then None
      else (let page = n div pg_Limit p in
              Some (if n mod pg_Limit p \<noteq> 0 then page + 1 else page)))"

text \<open>The loops over an iterator that the message and the finality store share.\<close>

fun decode_all :: "(string \<Rightarrow> error + 'a) \<Rightarrow> kvs \<Rightarrow> error + 'a list" where
  "decode_all dec [] = Inr []"
| "decode_all dec ((k, v) # kvs) =
     (case dec v of
        Inl e \<Rightarrow> Inl e
      | Inr x \<Rightarrow> (case decode_all dec kvs of Inl e \<Rightarrow> Inl e | Inr xs \<Rightarrow> Inr (x # xs)))"

fun skip_offset :: "int \<Rightarrow> kvs \<Rightarrow> error + kvs" where
  "skip_offset n [] = (if n \<le> 0 then Inr [] else Inl (ErrMsg ''no message after offset''))"
| "skip_offset n (kv # kvs) = (if n \<le> 0 then Inr (kv # kvs) else skip_offset (n - 1) kvs)"

text \<open>
  One listing: all entries under the prefix, or the window of the pagination. An error of the
  iterator shows once \<open>Next\<close> has been asked for more than there is.
\<close>

definition list_entries ::
    "(string \<Rightarrow> error + 'a) \<Rightarrow> kvs \<times> error option \<Rightarrow> Pagination \<Rightarrow> error + 'a list" where
  "list_entries dec it p =
     (let kvs = fst it; iterError = snd it;
          finish = (\<lambda>err xs. case err of None \<Rightarrow> Inr xs | Some e \<Rightarrow> Inl e)
      in if pg_All p then
           (case decode_all dec kvs of Inl e \<Rightarrow> Inl e | Inr xs \<Rightarrow> finish iterError xs)
         else
           (case skip_offset (sint (pg_Offset p)) kvs of
              Inl e \<Rightarrow> Inl e
            | Inr rest \<Rightarrow>
                (case decode_all dec (take (unat (pg_Limit p)) rest) of
                   Inl e \<Rightarrow> Inl e
                 | Inr xs \<Rightarrow>
                     finish (if length rest < unat (pg_Limit p) then iterError else None) xs)))"

definition count_entries :: "kvs \<times> error option \<Rightarrow> error + u64" where
  "count_entries it = (case snd it of Some e \<Rightarrow> Inl e | None \<Rightarrow> Inr (of_nat (length (fst it))))"

lemma skip_offset_drop:
  "skip_offset n kvs =
     (if nat n \<le> length kvs then Inr (drop (nat n) kvs)
      else Inl (ErrMsg ''no message after offset''))"
proof (induction n kvs rule: skip_offset.induct)
  case (2 n kv kvs)
  then show ?case
  proof (cases "n \<le> 0")
    case False
    then have "nat n = Suc (nat (n - 1))"
      by simp
    with 2 False show ?thesis
      by simp
  qed simp
qed auto

lemma decode_all_Inr_iff:
  "decode_all dec kvs = Inr xs \<longleftrightarrow> list_all2 (\<lambda>kv x. dec (snd kv) = Inr x) kvs xs"
proof (induction kvs arbitrary: xs)
  case (Cons kv kvs)
  obtain k v where kv: "kv = (k, v)"
    by fastforce
  show ?case
    by (cases "dec v"; cases "decode_all dec kvs") (auto simp: kv list_all2_Cons1 Cons.IH [symmetric])
qed auto

lemma decode_all_take_drop:
  assumes "decode_all dec kvs = Inr xs"
  shows "decode_all dec (take n (drop m kvs)) = Inr (take n (drop m xs))"
  using assms unfolding decode_all_Inr_iff by (auto intro: list_all2_takeI list_all2_dropI)

lemma decode_all_length: "decode_all dec kvs = Inr xs \<Longrightarrow> length xs = length kvs"
  by (auto simp: decode_all_Inr_iff dest: list_all2_lengthD)

lemma decode_all_set:
  "decode_all dec kvs = Inr xs \<Longrightarrow> set xs = {x. \<exists>k v. (k, v) \<in> set kvs \<and> dec v = Inr x}"
proof (induction kvs arbitrary: xs)
  case (Cons kv kvs)
  obtain k v where kv: "kv = (k, v)"
    by fastforce
  with Cons.prems obtain y ys where y: "dec v = Inr y" "decode_all dec kvs = Inr ys" "xs = y # ys"
    by (auto split: sum.splits)
  have "x = y \<longleftrightarrow> dec v = Inr x" for x
    using y(1) by auto
  then show ?case
    using Cons.IH [OF y(2)] by (auto simp: kv y(3))
qed simp

subsection \<open>A store of documents of one type\<close>

text \<open>
  What the database \<open>db\<close> holds for the identifier \<open>i\<close>, decoded; an entry that does not decode
  counts as absent.
\<close>

definition stored ::
    "('i \<Rightarrow> string) \<Rightarrow> (string \<Rightarrow> error + 'a) \<Rightarrow> (string \<Rightarrow> string option) \<Rightarrow> 'i \<Rightarrow> 'a option" where
  "stored key dec db i =
     (case db (key i) of
        None \<Rightarrow> None
      | Some s \<Rightarrow> (case dec s of Inl e \<Rightarrow> None | Inr x \<Rightarrow> Some x))"

definition load :: "'d Store \<Rightarrow> 'd \<Rightarrow> (string \<Rightarrow> error + 'a) \<Rightarrow> string \<Rightarrow> error + 'a" where
  "load S d dec k = (case GetByKey S d k of Inl e \<Rightarrow> Inl e | Inr v \<Rightarrow> dec v)"

locale keyed_store = kv_reliable S view + codec encode decode clean
  for S :: "'d Store" and view and encode :: "'a \<Rightarrow> string" and decode and clean +
  fixes key :: "'i \<Rightarrow> string"
  assumes key_inj: "key i = key j \<Longrightarrow> i = j"
begin

lemma put_ok: "SetByKey S d (key i) (encode x) = (None, snd (SetByKey S d (key i) (encode x)))"
  by (metis prod.collapse set_total)

lemma put_stored:
  "stored key decode (view (snd (SetByKey S d (key i) (encode x))))
     = (stored key decode (view d))(i \<mapsto> clean x)"
  using key_inj by (fastforce simp: stored_def fun_eq_iff set_view decode_encode)

lemma put_frame: "k \<noteq> key i \<Longrightarrow> view (snd (SetByKey S d (key i) v)) k = view d k"
  by (simp add: set_view)

lemma remove_ok: "DeleteByKey S d (key i) = (None, snd (DeleteByKey S d (key i)))"
  by (metis prod.collapse delete_total)

lemma remove_stored:
  "stored key decode (view (snd (DeleteByKey S d (key i)))) = (stored key decode (view d))(i := None)"
  using key_inj by (fastforce simp: stored_def fun_eq_iff delete_view)

lemma load_iff: "load S d decode (key i) = Inr x \<longleftrightarrow> stored key decode (view d) i = Some x"
  by (auto simp: load_def stored_def get_total split: option.split sum.split)

lemma load_missing: "view d (key i) = None \<Longrightarrow> load S d decode (key i) = Inl ErrNotFound"
  by (simp add: load_def get_total)

lemma load_put: "load (S) (snd (SetByKey S d (key i) (encode x))) decode (key i) = Inr (clean x)"
  by (simp add: load_iff put_stored)

lemma load_put_other:
  "i \<noteq> j \<Longrightarrow> load S (snd (SetByKey S d (key i) (encode x))) decode (key j) = load S d decode (key j)"
  using key_inj [of j i] by (auto simp: load_def get_total set_view)

lemma load_remove: "load S (snd (DeleteByKey S d (key i))) decode (key i) = Inl ErrNotFound"
  by (simp add: load_def get_total delete_view)

end

subsection \<open>What a listing delivers\<close>

context kv_reliable
begin

text \<open>The listing under a prefix: when every entry decodes, the decoded entries in key order.\<close>

lemma list_all_entries:
  assumes "list_entries dec (NewIterator S d p) pg = Inr xs" and "pg_All pg"
  shows "set xs = {x. \<exists>k v. prefix p k \<and> view d k = Some v \<and> dec v = Inr x}"
proof -
  obtain kvs where it: "NewIterator S d p = (kvs, None)"
    using iter_pair by blast
  then have "decode_all dec kvs = Inr xs"
    using assms by (simp add: list_entries_def split: sum.splits)
  then show ?thesis
    using iter_member [OF it] by (simp add: decode_all_set)
qed

lemma list_all_total:
  assumes "pg_All pg" and "\<And>k v. prefix p k \<Longrightarrow> view d k = Some v \<Longrightarrow> \<exists>x. dec v = Inr x"
  shows "\<exists>xs. list_entries dec (NewIterator S d p) pg = Inr xs"
proof -
  obtain kvs where it: "NewIterator S d p = (kvs, None)"
    using iter_pair by blast
  have "\<exists>xs. list_all2 (\<lambda>kv x. dec (snd kv) = Inr x) ks xs" if "set ks \<subseteq> set kvs" for ks
    using that
  proof (induction ks)
    case (Cons kv ks)
    then have "\<exists>x. dec (snd kv) = Inr x"
      using assms(2) [of "fst kv" "snd kv"] iter_member [OF it, of "fst kv" "snd kv"] by auto
    with Cons show ?case
      by fastforce
  qed auto
  then obtain xs where "decode_all dec kvs = Inr xs"
    unfolding decode_all_Inr_iff by blast
  then show ?thesis
    using assms(1) by (simp add: list_entries_def it)
qed

text \<open>Any other pagination is a window of the listing of everything.\<close>

lemma list_window:
  assumes all: "list_entries dec (NewIterator S d p) (pg\<lparr>pg_All := True\<rparr>) = Inr xs"
    and "\<not> pg_All pg"
  shows "list_entries dec (NewIterator S d p) pg =
    (if nat (sint (pg_Offset pg)) \<le> length xs
     then Inr (take (unat (pg_Limit pg)) (drop (nat (sint (pg_Offset pg))) xs))
     else Inl (ErrMsg ''no message after offset''))"
proof -
  obtain kvs where it: "NewIterator S d p = (kvs, None)"
    using iter_pair by blast
  then have xs: "decode_all dec kvs = Inr xs"
    using all by (simp add: list_entries_def split: sum.splits)
  show ?thesis
    using assms(2) decode_all_take_drop [OF xs] decode_all_length [OF xs]
    by (simp add: list_entries_def it skip_offset_drop)
qed

lemma count_entries_eq:
  "count_entries (NewIterator S d p) = Inr (of_nat (length (fst (NewIterator S d p))))"
  by (simp add: count_entries_def iter_total)

lemma iter_length: "length (fst (NewIterator S d p)) = card {k. prefix p k \<and> view d k \<noteq> None}"
proof -
  obtain kvs where it: "NewIterator S d p = (kvs, None)"
    using iter_pair by blast
  have "k \<in> set (map fst kvs) \<longleftrightarrow> prefix p k \<and> view d k \<noteq> None" for k
  proof
    assume "k \<in> set (map fst kvs)"
    then obtain v where "(k, v) \<in> set kvs"
      by auto
    then show "prefix p k \<and> view d k \<noteq> None"
      by (simp add: iter_member [OF it])
  next
    assume "prefix p k \<and> view d k \<noteq> None"
    then obtain v where "(k, v) \<in> set kvs"
      using iter_member [OF it] by blast
    then show "k \<in> set (map fst kvs)"
      by (metis fst_conv image_eqI list.set_map)
  qed
  then have "set (map fst kvs) = {k. prefix p k \<and> view d k \<noteq> None}"
    by blast
  moreover have "distinct (map fst kvs)"
    using iter_ok [OF it] by blast
  ultimately show ?thesis
    by (metis it fst_conv distinct_card length_map)
qed

end

end
