(* ===== verification/MessageStore.thy ===== *)
theory MessageStore
  imports StoreCommon
begin

text \<open>
  \<^verbatim>\<open>relayer/store/messageStore.go\<close>: the store of the messages whose delivery failed, keyed by
  the source network and the serial number. A store is its prefix; the database it writes is
  the interface \<open>S\<close> and the state \<open>d\<close>. Over a reliable database it is a partial function from
  (source, serial number) to messages.
\<close>

definition MessageStore_key :: "string \<Rightarrow> string \<Rightarrow> u64 \<Rightarrow> string" where
  "MessageStore_key pre src sn = GetKey [pre, src, sprintf_d sn]"

definition MessageStore_getCountByKey :: "'d Store \<Rightarrow> 'd \<Rightarrow> string \<Rightarrow> error + u64" where
  "MessageStore_getCountByKey S d key = count_entries (NewIterator S d key)"

definition MessageStore_TotalCount :: "'d Store \<Rightarrow> string \<Rightarrow> 'd \<Rightarrow> error + u64" where
  "MessageStore_TotalCount S pre d = MessageStore_getCountByKey S d (GetKey [pre])"

definition MessageStore_TotalCountByChain ::
    "'d Store \<Rightarrow> string \<Rightarrow> 'd \<Rightarrow> string \<Rightarrow> error + u64" where
  "MessageStore_TotalCountByChain S pre d nId = MessageStore_getCountByKey S d (GetKey [pre, nId])"

text \<open>A nil message is refused; the fields of a route message with no message inside panic.\<close>

definition MessageStore_StoreMessage ::
    "'d Store \<Rightarrow> string \<Rightarrow> 'd \<Rightarrow> RouteMessage option \<Rightarrow> (error option \<times> 'd) go" where
  "MessageStore_StoreMessage S pre d message =
     (case message of
        None \<Rightarrow> Some (Some (ErrMsg ''error while storingMessage: message cannot be nil''), d)
      | Some r \<Rightarrow>
          (case rm_Message r of
             None \<Rightarrow> None
           | Some m \<Rightarrow>
               Some (SetByKey S d (MessageStore_key pre (msg_Src m) (msg_Sn m))
                       (marshal_RouteMessage r))))"

definition MessageStore_GetMessage ::
    "'d Store \<Rightarrow> string \<Rightarrow> 'd \<Rightarrow> MessageKey \<Rightarrow> error + RouteMessage" where
  "MessageStore_GetMessage S pre d messageKey =
     load S d unmarshal_RouteMessage (MessageStore_key pre (key_Src messageKey) (key_Sn messageKey))"

definition MessageStore_GetMessages ::
    "'d Store \<Rightarrow> string \<Rightarrow> 'd \<Rightarrow> string \<Rightarrow> Pagination \<Rightarrow> error + RouteMessage list" where
  "MessageStore_GetMessages S pre d nId p =
     (let keyPrefixList = [pre] @ (if nId \<noteq> [] then [nId] else [])
      in list_entries unmarshal_RouteMessage (NewIterator S d (GetKey keyPrefixList)) p)"

definition MessageStore_DeleteMessage ::
    "'d Store \<Rightarrow> string \<Rightarrow> 'd \<Rightarrow> MessageKey \<Rightarrow> error option \<times> 'd" where
  "MessageStore_DeleteMessage S pre d messageKey =
     DeleteByKey S d (MessageStore_key pre (key_Src messageKey) (key_Sn messageKey))"

text \<open>\<open>GetMessages("", p)\<close> lists every message, \<open>GetMessages(nId, p)\<close> those whose key goes on from
  the prefix and \<open>nId\<close>.\<close>

definition MessageStore_listKey :: "string \<Rightarrow> string \<Rightarrow> string" where
  "MessageStore_listKey pre nId = GetKey ([pre] @ (if nId \<noteq> [] then [nId] else []))"

lemma MessageStore_listKey_prefix:
  "prefix (MessageStore_listKey pre nId) (MessageStore_key pre src sn)
     \<longleftrightarrow> prefix nId (src @ CHR ''-'' # sprintf_d sn)"
  by (cases nId) (simp_all add: MessageStore_listKey_def MessageStore_key_def GetKey_def)

subsection \<open>A partial function from (source, serial number) to messages\<close>

definition ms_key :: "string \<Rightarrow> string \<times> u64 \<Rightarrow> string" where
  "ms_key pre i = MessageStore_key pre (fst i) (snd i)"

definition ms_stored ::
    "string \<Rightarrow> (string \<Rightarrow> string option) \<Rightarrow> string \<times> u64 \<Rightarrow> RouteMessage option" where
  "ms_stored pre = stored (ms_key pre) unmarshal_RouteMessage"

lemma ms_key_inj: "ms_key pre i = ms_key pre j \<Longrightarrow> i = j"
  by (cases i; cases j) (simp add: ms_key_def MessageStore_key_def GetKey_3_inj)

sublocale kv_reliable \<subseteq>
  ms: keyed_store S view marshal_RouteMessage unmarshal_RouteMessage RouteMessage_clean
    "ms_key pre" for pre
  by unfold_locales (rule ms_key_inj)

context kv_reliable
begin

lemma StoreMessage_nil:
  "MessageStore_StoreMessage S pre d None
     = Some (Some (ErrMsg ''error while storingMessage: message cannot be nil''), d)"
  by (simp add: MessageStore_StoreMessage_def)

lemma StoreMessage_inner_nil:
  "rm_Message r = None \<Longrightarrow> MessageStore_StoreMessage S pre d (Some r) = None"
  by (simp add: MessageStore_StoreMessage_def)

lemma StoreMessage_eq:
  "rm_Message r = Some m \<Longrightarrow> MessageStore_StoreMessage S pre d (Some r) =
     Some (SetByKey S d (ms_key pre (msg_Src m, msg_Sn m)) (marshal_RouteMessage r))"
  by (simp add: MessageStore_StoreMessage_def ms_key_def)

lemma StoreMessage_ok:
  assumes "rm_Message r = Some m"
  obtains d' where "MessageStore_StoreMessage S pre d (Some r) = Some (None, d')"
    "ms_stored pre (view d') = (ms_stored pre (view d))((msg_Src m, msg_Sn m) \<mapsto> RouteMessage_clean r)"
    "\<And>k. k \<noteq> MessageStore_key pre (msg_Src m) (msg_Sn m) \<Longrightarrow> view d' k = view d k"
proof (rule that)
  let ?d' = "snd (SetByKey S d (ms_key pre (msg_Src m, msg_Sn m)) (marshal_RouteMessage r))"
  show "MessageStore_StoreMessage S pre d (Some r) = Some (None, ?d')"
    using ms.put_ok by (simp add: StoreMessage_eq [OF assms])
  show "ms_stored pre (view ?d')
      = (ms_stored pre (view d))((msg_Src m, msg_Sn m) \<mapsto> RouteMessage_clean r)"
    unfolding ms_stored_def by (rule ms.put_stored)
  show "view ?d' k = view d k" if "k \<noteq> MessageStore_key pre (msg_Src m) (msg_Sn m)" for k
    using that by (intro ms.put_frame) (simp add: ms_key_def)
qed

lemma GetMessage_iff:
  "MessageStore_GetMessage S pre d k = Inr r
     \<longleftrightarrow> ms_stored pre (view d) (key_Src k, key_Sn k) = Some r"
  using ms.load_iff [of d pre "(key_Src k, key_Sn k)" r]
  by (simp add: MessageStore_GetMessage_def ms_stored_def ms_key_def)

lemma GetMessage_missing:
  "view d (MessageStore_key pre (key_Src k) (key_Sn k)) = None
     \<Longrightarrow> MessageStore_GetMessage S pre d k = Inl ErrNotFound"
  by (simp add: MessageStore_GetMessage_def load_def get_total)

lemma DeleteMessage_ok:
  obtains d' where "MessageStore_DeleteMessage S pre d k = (None, d')"
    "ms_stored pre (view d') = (ms_stored pre (view d))((key_Src k, key_Sn k) := None)"
    "view d' = (view d)(MessageStore_key pre (key_Src k) (key_Sn k) := None)"
proof (rule that)
  let ?d' = "snd (DeleteByKey S d (ms_key pre (key_Src k, key_Sn k)))"
  show "MessageStore_DeleteMessage S pre d k = (None, ?d')"
    using ms.remove_ok [of d pre "(key_Src k, key_Sn k)"]
    by (simp add: MessageStore_DeleteMessage_def ms_key_def)
  show "ms_stored pre (view ?d') = (ms_stored pre (view d))((key_Src k, key_Sn k) := None)"
    unfolding ms_stored_def by (rule ms.remove_stored)
  show "view ?d' = (view d)(MessageStore_key pre (key_Src k) (key_Sn k) := None)"
    by (simp add: delete_view ms_key_def)
qed

end

text \<open>
  A database all of whose entries under a prefix were written by the message store: what
  \<open>GetMessages\<close> relies on to decode every one of them.
\<close>

definition ms_clean :: "string \<Rightarrow> (string \<Rightarrow> string option) \<Rightarrow> bool" where
  "ms_clean pre db \<longleftrightarrow>
     (\<forall>k v. prefix pre k \<longrightarrow> db k = Some v \<longrightarrow>
        (\<exists>r m. rm_Message r = Some m \<and> k = MessageStore_key pre (msg_Src m) (msg_Sn m)
          \<and> v = marshal_RouteMessage r))"

lemma ms_clean_empty [simp]: "ms_clean pre Map.empty"
  by (simp add: ms_clean_def)

lemma MessageStore_key_prefix [simp]: "prefix pre (MessageStore_key pre src sn)"
  by (simp add: MessageStore_key_def GetKey_3)

lemma ms_clean_upd:
  "ms_clean pre db \<Longrightarrow> rm_Message r = Some m \<Longrightarrow>
     ms_clean pre (db(MessageStore_key pre (msg_Src m) (msg_Sn m) \<mapsto> marshal_RouteMessage r))"
  by (auto simp: ms_clean_def)

lemma ms_clean_del: "ms_clean pre db \<Longrightarrow> ms_clean pre (db(k := None))"
  by (auto simp: ms_clean_def)

lemma ms_clean_other: "ms_clean pre db \<Longrightarrow> \<not> prefix pre k \<Longrightarrow> ms_clean pre (db(k := v))"
  by (auto simp: ms_clean_def)

lemma ms_clean_entry:
  assumes "ms_clean pre db" and "prefix pre k" and "db k = Some v"
  obtains r m where "rm_Message r = Some m" "k = ms_key pre (msg_Src m, msg_Sn m)"
    "v = marshal_RouteMessage r" "ms_stored pre db (msg_Src m, msg_Sn m) = Some (RouteMessage_clean r)"
proof -
  obtain r m where r: "rm_Message r = Some m" "k = ms_key pre (msg_Src m, msg_Sn m)"
    "v = marshal_RouteMessage r"
    using assms unfolding ms_clean_def ms_key_def fst_conv snd_conv by blast
  then have "ms_stored pre db (msg_Src m, msg_Sn m) = Some (RouteMessage_clean r)"
    using assms(3) by (simp add: ms_stored_def stored_def unmarshal_marshal_RouteMessage)
  with r show ?thesis
    by (rule that)
qed

lemma ms_storedE:
  assumes "ms_stored pre db i = Some x"
  obtains v where "db (ms_key pre i) = Some v" "unmarshal_RouteMessage v = Inr x"
  using assms unfolding ms_stored_def stored_def by (auto split: option.splits sum.splits)

lemma ms_clean_stored:
  assumes "ms_clean pre db" and "ms_stored pre db i = Some x"
  shows "rm_Message x \<noteq> None"
proof -
  obtain v where v: "db (ms_key pre i) = Some v" "unmarshal_RouteMessage v = Inr x"
    using assms(2) by (rule ms_storedE)
  moreover have "prefix pre (ms_key pre i)"
    by (simp add: ms_key_def)
  ultimately obtain r m where "rm_Message r = Some m" "v = marshal_RouteMessage r"
    using assms(1) by (auto elim: ms_clean_entry)
  then show ?thesis
    using v(2) by (auto simp: unmarshal_marshal_RouteMessage RouteMessage_clean_def)
qed

context kv_reliable
begin

lemma GetMessages_eq:
  "MessageStore_GetMessages S pre d nId p
     = list_entries unmarshal_RouteMessage (NewIterator S d (MessageStore_listKey pre nId)) p"
  by (simp add: MessageStore_GetMessages_def MessageStore_listKey_def)

lemma listKey_prefix: "prefix pre (MessageStore_listKey pre nId)"
  by (simp add: MessageStore_listKey_def GetKey_def)

lemma GetMessage_after_store:
  assumes "rm_Message r = Some m" and "MessageStore_StoreMessage S pre d (Some r) = Some (None, d')"
  shows "MessageStore_GetMessage S pre d' k =
    (if key_Src k = msg_Src m \<and> key_Sn k = msg_Sn m then Inr (RouteMessage_clean r)
     else MessageStore_GetMessage S pre d k)"
proof -
  have d': "d' = snd (SetByKey S d (ms_key pre (msg_Src m, msg_Sn m)) (marshal_RouteMessage r))"
    using assms(2) by (simp add: StoreMessage_eq [OF assms(1)] prod_eq_iff)
  show ?thesis
    using ms.load_put [of d pre "(msg_Src m, msg_Sn m)" r]
      ms.load_put_other [of "(msg_Src m, msg_Sn m)" "(key_Src k, key_Sn k)" d pre r]
    by (auto simp: MessageStore_GetMessage_def d' ms_key_def)
qed

lemma GetMessage_after_delete:
  "MessageStore_DeleteMessage S pre d k = (err, d')
     \<Longrightarrow> err = None \<and> MessageStore_GetMessage S pre d' k = Inl ErrNotFound"
  using ms.load_remove [of d pre "(key_Src k, key_Sn k)"]
    delete_total [of d "MessageStore_key pre (key_Src k) (key_Sn k)"]
  by (simp add: MessageStore_DeleteMessage_def MessageStore_GetMessage_def ms_key_def)

text \<open>On such a database a listing succeeds, and delivers what the store holds for the prefix.\<close>

lemma GetMessages_all:
  assumes clean: "ms_clean pre (view d)" and "pg_All p"
  obtains xs where "MessageStore_GetMessages S pre d nId p = Inr xs"
    and "set xs = {x. \<exists>src sn. ms_stored pre (view d) (src, sn) = Some x
                        \<and> prefix nId (src @ CHR ''-'' # sprintf_d sn)}"
proof -
  let ?L = "MessageStore_listKey pre nId"
  have entry: "\<exists>i. k = ms_key pre i \<and> (\<exists>x. unmarshal_RouteMessage v = Inr x \<and> ms_stored pre (view d) i = Some x)"
    if "prefix ?L k" "view d k = Some v" for k v
  proof -
    have "prefix pre k"
      using that(1) listKey_prefix prefix_order.trans by blast
    from clean this that(2) show ?thesis
      by (rule ms_clean_entry) (auto simp: unmarshal_marshal_RouteMessage)
  qed
  obtain xs where xs: "MessageStore_GetMessages S pre d nId p = Inr xs"
    unfolding GetMessages_eq using list_all_total [OF assms(2), of ?L d unmarshal_RouteMessage] entry by blast
  have "x \<in> set xs \<longleftrightarrow> (\<exists>k v. prefix ?L k \<and> view d k = Some v \<and> unmarshal_RouteMessage v = Inr x)" for x
    using list_all_entries [OF xs [unfolded GetMessages_eq] assms(2)] by blast
  also have "\<dots> x \<longleftrightarrow> (\<exists>i. prefix ?L (ms_key pre i) \<and> ms_stored pre (view d) i = Some x)" for x
  proof
    assume "\<exists>k v. prefix ?L k \<and> view d k = Some v \<and> unmarshal_RouteMessage v = Inr x"
    then obtain k v where kv: "prefix ?L k" "view d k = Some v" "unmarshal_RouteMessage v = Inr x"
      by blast
    then show "\<exists>i. prefix ?L (ms_key pre i) \<and> ms_stored pre (view d) i = Some x"
      using entry [OF kv(1,2)] by auto
  next
    assume "\<exists>i. prefix ?L (ms_key pre i) \<and> ms_stored pre (view d) i = Some x"
    then show "\<exists>k v. prefix ?L k \<and> view d k = Some v \<and> unmarshal_RouteMessage v = Inr x"
      by (blast elim: ms_storedE)
  qed
  finally have "x \<in> set xs \<longleftrightarrow> (\<exists>src sn. ms_stored pre (view d) (src, sn) = Some x
      \<and> prefix nId (src @ CHR ''-'' # sprintf_d sn))" for x
    by (auto simp: MessageStore_listKey_prefix ms_key_def)
  then show ?thesis
    by (intro that [OF xs]) blast
qed

end

subsection \<open>Properties\<close>

lemmas mem_reliable = mem.kv_reliable_axioms



text \<open>C38: \<open>GetMessages(nId, All)\<close>, on a database whose entries under the prefix the store wrote,
  returns exactly the stored messages whose key \<open>source-serial\<close> goes on from \<open>nId\<close>: all messages
  for the empty id, and otherwise also those of any network whose id extends \<open>nId\<close>. Every
  message returned has its inner message.\<close>

theorem GetMessages_lists_prefix:
  assumes "kv_reliable S view" and "ms_clean pre (view d)"
  shows "\<exists>xs. MessageStore_GetMessages S pre d nId (Pagination_GetAll NewPagination) = Inr xs \<and>
     (\<forall>x. x \<in> set xs \<longleftrightarrow>
        (\<exists>k. MessageStore_GetMessage S pre d k = Inr x \<and>
             prefix nId (key_Src k @ CHR ''-'' # sprintf_d (key_Sn k)))) \<and>
     (\<forall>x \<in> set xs. rm_Message x \<noteq> None)"
proof -
  obtain xs where xs: "MessageStore_GetMessages S pre d nId (Pagination_GetAll NewPagination) = Inr xs"
    "set xs = {x. \<exists>src sn. ms_stored pre (view d) (src, sn) = Some x
                        \<and> prefix nId (src @ CHR ''-'' # sprintf_d sn)}"
    using kv_reliable.GetMessages_all [OF assms, of "Pagination_GetAll NewPagination" nId]
    by (auto simp: Pagination_GetAll_def)
  have "x \<in> set xs \<longleftrightarrow> (\<exists>k. MessageStore_GetMessage S pre d k = Inr x \<and>
             prefix nId (key_Src k @ CHR ''-'' # sprintf_d (key_Sn k)))" for x
    unfolding xs(2) kv_reliable.GetMessage_iff [OF assms(1)]
    by (auto intro: exI [of _ "NewMessageKey sn src [] []" for sn src] simp: NewMessageKey_def)
  then show ?thesis
    using xs ms_clean_stored [OF assms(2)] by blast
qed

theorem GetMessages_lists_prefix_witness:
  "ms_clean ''message'' (map_of [(''message-eth-1'', marshal_RouteMessage sample_RouteMessage)]) \<and>
   (\<exists>xs. MessageStore_GetMessages (LVLDB_store mem_leveldb) ''message''
       [(''message-eth-1'', marshal_RouteMessage sample_RouteMessage)] ''et''
       (Pagination_GetAll NewPagination) = Inr xs \<and> RouteMessage_clean sample_RouteMessage \<in> set xs)"
proof -
  have k: "''message-eth-1'' = MessageStore_key ''message'' (msg_Src sample_Message) (msg_Sn sample_Message)"
    by code_simp
  have clean: "ms_clean ''message'' (map_of [(''message-eth-1'', marshal_RouteMessage sample_RouteMessage)])"
    unfolding ms_clean_def using k by (auto intro: exI [of _ sample_RouteMessage])
  moreover have "MessageStore_GetMessage (LVLDB_store mem_leveldb) ''message''
      [(''message-eth-1'', marshal_RouteMessage sample_RouteMessage)] (NewMessageKey 1 ''eth'' [] [])
      = Inr (RouteMessage_clean sample_RouteMessage)"
    using k by (simp add: MessageStore_GetMessage_def load_def mem_leveldb_def NewMessageKey_def
        unmarshal_marshal_RouteMessage sample_Message_def)
  moreover have "prefix ''et'' (''eth'' @ CHR ''-'' # sprintf_d 1)"
    by simp
  ultimately show ?thesis
    using GetMessages_lists_prefix [OF mem_reliable, of "''message''"
        "[(''message-eth-1'', marshal_RouteMessage sample_RouteMessage)]" "''et''"]
    by (metis NewMessageKey_def MessageKey.select_convs(1,2))
qed

text \<open>A page of messages is a window of the full listing: with the full listing readable,
  \<open>GetMessages\<close> returns the entries from the offset on, at most limit of them, in the order of the
  keys, and an error when the offset lies beyond the end.\<close>

lemma GetMessages_window:
  assumes "kv_reliable S view"
    and "MessageStore_GetMessages S pre d nId (p\<lparr>pg_All := True\<rparr>) = Inr xs" and "\<not> pg_All p"
  shows "MessageStore_GetMessages S pre d nId p =
    (if nat (sint (pg_Offset p)) \<le> length xs
     then Inr (take (unat (pg_Limit p)) (drop (nat (sint (pg_Offset p))) xs))
     else Inl (ErrMsg ''no message after offset''))"
  using kv_reliable.list_window [OF assms(1) assms(2) [unfolded kv_reliable.GetMessages_eq [OF assms(1)]] assms(3)]
  by (simp add: kv_reliable.GetMessages_eq [OF assms(1)])

lemma GetMessages_window_instance:
  "MessageStore_GetMessages (LVLDB_store mem_leveldb) ''message''
     [(''message-eth-1'', marshal_RouteMessage sample_RouteMessage)] [] \<lparr>pg_Limit = 5, pg_Offset = 1, pg_All = False\<rparr>
   = Inr []"
proof -
  have "MessageStore_GetMessages (LVLDB_store mem_leveldb) ''message''
     [(''message-eth-1'', marshal_RouteMessage sample_RouteMessage)] []
     (\<lparr>pg_Limit = 5, pg_Offset = 1, pg_All = False\<rparr>\<lparr>pg_All := True\<rparr>) = Inr [RouteMessage_clean sample_RouteMessage]"
    by (simp add: MessageStore_GetMessages_def GetKey_def mem_leveldb_def mem_iter_def list_entries_def
        unmarshal_marshal_RouteMessage)
  from GetMessages_window [OF mem_reliable this] show ?thesis
    by simp
qed

text \<open>C39: Consecutive pages do not cover the listing: \<open>WithPage(page, limit)\<close> starts page 1 at the
  first entry and page \<open>n \<ge> 2\<close> at entry \<open>n * limit\<close>, so the entries between \<open>limit\<close> and
  \<open>2 * limit\<close> are on no page.\<close>

theorem pages_skip_second_window:
  assumes "kv_reliable S view" and "0 < limit" and "unat page * unat limit < 2 ^ 63"
    and all: "MessageStore_GetMessages S pre d nId (Pagination_GetAll NewPagination) = Inr xs"
    and pg: "MessageStore_GetMessages S pre d nId (Pagination_WithPage NewPagination page limit) = Inr ys"
  shows "ys = (if page \<le> 1 then take (unat limit) xs
               else take (unat limit) (drop (unat page * unat limit) xs))"
proof -
  let ?p = "Pagination_WithPage NewPagination page limit"
  have mul: "unat (page * limit) = unat page * unat limit"
    using assms(3) by (intro unat_mult_lem [THEN iffD1]) simp
  then have off: "nat (sint (pg_Offset ?p)) = (if page \<le> 1 then 0 else unat page * unat limit)"
    using assms(3)
    using sint_small [of "page * limit"] mul
    by (simp add: Pagination_WithPage_def Pagination_CalculateOffset_def NewPagination_def Let_def nat_mult_distrib)
  have "?p\<lparr>pg_All := True\<rparr> = \<lparr>pg_Limit = limit, pg_Offset = pg_Offset ?p, pg_All = True\<rparr>"
    by (simp add: Pagination_WithPage_def NewPagination_def Let_def)
  moreover have "MessageStore_GetMessages S pre d nId \<lparr>pg_Limit = l, pg_Offset = off, pg_All = True\<rparr> = Inr xs"
    for l off
    using all by (simp add: MessageStore_GetMessages_def list_entries_def Pagination_GetAll_def NewPagination_def)
  ultimately have "MessageStore_GetMessages S pre d nId (?p\<lparr>pg_All := True\<rparr>) = Inr xs"
    by simp
  from kv_reliable.list_window [OF assms(1) this [unfolded kv_reliable.GetMessages_eq [OF assms(1)]]]
  have "list_entries unmarshal_RouteMessage (NewIterator S d (MessageStore_listKey pre nId)) ?p =
    (if nat (sint (pg_Offset ?p)) \<le> length xs
     then Inr (take (unat (pg_Limit ?p)) (drop (nat (sint (pg_Offset ?p))) xs))
     else Inl (ErrMsg ''no message after offset''))"
    by (simp add: Pagination_WithPage_def NewPagination_def Let_def)
  then show ?thesis
    using pg unfolding kv_reliable.GetMessages_eq [OF assms(1)] off
    by (auto simp: Pagination_WithPage_def Let_def split: if_splits)
qed

theorem pages_skip_second_window_witness:
  "MessageStore_GetMessages (LVLDB_store mem_leveldb) ''message''
     [(''message-eth-1'', marshal_RouteMessage sample_RouteMessage),
      (''message-eth-2'', marshal_RouteMessage sample_RouteMessage)] []
     (Pagination_WithPage NewPagination 2 1) = Inr []"
proof -
  let ?d = "[(''message-eth-1'', marshal_RouteMessage sample_RouteMessage),
      (''message-eth-2'', marshal_RouteMessage sample_RouteMessage)]"
  let ?x = "RouteMessage_clean sample_RouteMessage"
  have two: "\<not> (2 :: u64) \<le> 1"
    by (simp add: word_le_nat_alt)
  have all: "MessageStore_GetMessages (LVLDB_store mem_leveldb) ''message'' ?d []
     (Pagination_GetAll NewPagination) = Inr [?x, ?x]"
    by (simp add: MessageStore_GetMessages_def GetKey_def mem_leveldb_def mem_iter_def list_entries_def
        unmarshal_marshal_RouteMessage Pagination_GetAll_def)
  have "MessageStore_GetMessages (LVLDB_store mem_leveldb) ''message'' ?d []
     (Pagination_WithPage NewPagination 2 1) = Inr []"
    by (simp add: MessageStore_GetMessages_def GetKey_def mem_leveldb_def mem_iter_def list_entries_def
        unmarshal_marshal_RouteMessage Pagination_WithPage_def NewPagination_def
        Pagination_CalculateOffset_def two numeral_2_eq_2)
  from pages_skip_second_window [OF mem_reliable _ _ all this] this show ?thesis
    by (simp add: word_le_nat_alt)
qed

text \<open>\<open>CalculateTotalPages\<close> is the number of pages that hold \<open>n\<close> entries: the quotient rounded
  up, with no overflow; a limit of zero panics.\<close>

lemma CalculateTotalPages_ceiling:
  "Pagination_CalculateTotalPages p n =
     (if pg_Limit p = 0 then None
      else Some (of_nat ((unat n + unat (pg_Limit p) - 1) div unat (pg_Limit p))))"
proof (cases "pg_Limit p = 0")
  case False
  let ?l = "unat (pg_Limit p)"
  have l: "0 < ?l"
    using False by (simp add: unat_gt_0)
  have "(unat n + ?l - 1) div ?l = unat n div ?l + (if unat n mod ?l = 0 then 0 else 1)"
  proof -
    have "unat n + ?l - 1 = ?l * (unat n div ?l) + (unat n mod ?l + ?l - 1)"
      using l by (simp add: mult.commute)
    then have "(unat n + ?l - 1) div ?l = unat n div ?l + (unat n mod ?l + ?l - 1) div ?l"
      using l by (simp only: div_mult_self4)
    moreover have "(unat n mod ?l + ?l - 1) div ?l = (if unat n mod ?l = 0 then 0 else 1)"
    proof (cases "unat n mod ?l = 0")
      case False
      then have "?l \<le> unat n mod ?l + ?l - 1" "unat n mod ?l + ?l - 1 < ?l + ?l"
        using l mod_less_divisor [OF l, of "unat n"] by linarith+
      then have "?l * 1 \<le> unat n mod ?l + ?l - 1" "unat n mod ?l + ?l - 1 < ?l * Suc 1"
        by simp_all
      then have "(unat n mod ?l + ?l - 1) div ?l = 1"
        by (rule div_nat_eqI)
      then show ?thesis
        using False by simp
    qed (use l in simp)
    ultimately show ?thesis
      by simp
  qed
  moreover have "n mod pg_Limit p = 0 \<longleftrightarrow> unat n mod ?l = 0"
    by (simp add: word_unat_eq_iff unat_mod)
  moreover have "n div pg_Limit p = of_nat (unat n div ?l)"
    by (rule word_arith_nat_div)
  ultimately show ?thesis
    using False by (simp add: Pagination_CalculateTotalPages_def add.commute)
qed (simp add: Pagination_CalculateTotalPages_def)

end
