(* ===== verification/BlockStore.thy ===== *)
theory BlockStore
  imports StoreCommon
begin

text \<open>
  \<^verbatim>\<open>relayer/store/blockStore.go\<close>: the last height of each chain that was saved, under one key
  per network id. Over a reliable database it is a partial function from network ids to
  heights.
\<close>

definition BlockStore_GetKey :: "string \<Rightarrow> string \<Rightarrow> string" where
  "BlockStore_GetKey pre nId = GetKey [pre, nId]"

definition BlockStore_StoreBlock ::
    "'d Store \<Rightarrow> string \<Rightarrow> 'd \<Rightarrow> u64 \<Rightarrow> string \<Rightarrow> error option \<times> 'd" where
  "BlockStore_StoreBlock S pre d height nId =
     SetByKey S d (BlockStore_GetKey pre nId) (marshal_height height)"

definition BlockStore_GetLastStoredBlock ::
    "'d Store \<Rightarrow> string \<Rightarrow> 'd \<Rightarrow> string \<Rightarrow> error + u64" where
  "BlockStore_GetLastStoredBlock S pre d nId =
     (case GetByKey S d (BlockStore_GetKey pre nId) of
        Inl e \<Rightarrow> Inl e
      | Inr v \<Rightarrow> unmarshal_height v)"

definition bs_stored :: "string \<Rightarrow> (string \<Rightarrow> string option) \<Rightarrow> string \<Rightarrow> u64 option" where
  "bs_stored pre = stored (BlockStore_GetKey pre) unmarshal_height"

lemma BlockStore_GetKey_inj: "BlockStore_GetKey pre n = BlockStore_GetKey pre n' \<Longrightarrow> n = n'"
  by (simp add: BlockStore_GetKey_def GetKey_2)

sublocale kv_reliable \<subseteq>
  bs: keyed_store S view marshal_height unmarshal_height "\<lambda>h. h" "BlockStore_GetKey pre" for pre
  by unfold_locales (rule BlockStore_GetKey_inj)

context kv_reliable
begin

lemma StoreBlock_ok:
  obtains d' where "BlockStore_StoreBlock S pre d h n = (None, d')"
    "bs_stored pre (view d') = (bs_stored pre (view d))(n \<mapsto> h)"
    "view d' = (view d)(BlockStore_GetKey pre n \<mapsto> marshal_height h)"
proof (rule that)
  let ?d' = "snd (SetByKey S d (BlockStore_GetKey pre n) (marshal_height h))"
  show "BlockStore_StoreBlock S pre d h n = (None, ?d')"
    using bs.put_ok by (simp add: BlockStore_StoreBlock_def)
  show "bs_stored pre (view ?d') = (bs_stored pre (view d))(n \<mapsto> h)"
    unfolding bs_stored_def by (rule bs.put_stored)
  show "view ?d' = (view d)(BlockStore_GetKey pre n \<mapsto> marshal_height h)"
    by (rule set_view)
qed

lemma GetLastStoredBlock_iff:
  "BlockStore_GetLastStoredBlock S pre d n = Inr h \<longleftrightarrow> bs_stored pre (view d) n = Some h"
  using bs.load_iff [of d pre n h] by (simp add: BlockStore_GetLastStoredBlock_def load_def bs_stored_def)

lemma GetLastStoredBlock_missing:
  "view d (BlockStore_GetKey pre n) = None
     \<Longrightarrow> BlockStore_GetLastStoredBlock S pre d n = Inl ErrNotFound"
  by (simp add: BlockStore_GetLastStoredBlock_def get_total)

end

subsection \<open>Properties\<close>

text \<open>Over a reliable database the block store is a map from network ids to heights: a stored
  height is read back exactly, the heights of other networks are unchanged, and a network whose
  height was never stored is not found.\<close>

lemma BlockStore_implements_map:
  assumes "kv_reliable S view"
  shows "\<exists>d'. BlockStore_StoreBlock S pre d h n = (None, d') \<and>
     (\<forall>n'. BlockStore_GetLastStoredBlock S pre d' n' =
        (if n' = n then Inr h else BlockStore_GetLastStoredBlock S pre d n')) \<and>
     (\<forall>k. k \<noteq> BlockStore_GetKey pre n \<longrightarrow> view d' k = view d k) \<and>
     (view d (BlockStore_GetKey pre m) = None \<longrightarrow>
        BlockStore_GetLastStoredBlock S pre d m = Inl ErrNotFound)"
proof -
  obtain d' where d': "BlockStore_StoreBlock S pre d h n = (None, d')"
    "bs_stored pre (view d') = (bs_stored pre (view d))(n \<mapsto> h)"
    "view d' = (view d)(BlockStore_GetKey pre n \<mapsto> marshal_height h)"
    by (rule kv_reliable.StoreBlock_ok [OF assms])
  have "BlockStore_GetLastStoredBlock S pre d' n = Inr h"
    by (simp add: kv_reliable.GetLastStoredBlock_iff [OF assms] d'(2))
  moreover have "BlockStore_GetLastStoredBlock S pre d' n' = BlockStore_GetLastStoredBlock S pre d n'"
    if "n' \<noteq> n" for n'
    using that BlockStore_GetKey_inj [of pre n' n]
    by (auto simp: BlockStore_GetLastStoredBlock_def kv_reliable.get_total [OF assms] d'(3))
  ultimately show ?thesis
    using d' kv_reliable.GetLastStoredBlock_missing [OF assms] by auto
qed

lemma BlockStore_implements_map_instance:
  "\<exists>d'. BlockStore_StoreBlock (LVLDB_store mem_leveldb) ''block'' [] 77 ''eth'' = (None, d') \<and>
     BlockStore_GetLastStoredBlock (LVLDB_store mem_leveldb) ''block'' d' ''eth'' = Inr 77"
  using BlockStore_implements_map [OF mem.kv_reliable_axioms, of "''block''" "[]" 77 "''eth''" "''eth''"]
  by auto

end
