(* ===== verification/FinalityStore.thy ===== *)
theory FinalityStore
  imports StoreCommon
begin

text \<open>
  \<^verbatim>\<open>relayer/store/finalityStore.go\<close>: the transactions that delivered a message and wait for
  finality, keyed by the destination network and the serial number. Over a reliable database
  it is a partial function from (destination, serial number) to transaction objects; the
  source network is not in the key.
\<close>

definition FinalityStore_key :: "string \<Rightarrow> string \<Rightarrow> u64 \<Rightarrow> string" where
  "FinalityStore_key pre dst sn = GetKey [pre, dst, sprintf_d sn]"

definition FinalityStore_getCountByKey :: "'d Store \<Rightarrow> 'd \<Rightarrow> string \<Rightarrow> error + u64" where
  "FinalityStore_getCountByKey S d key = count_entries (NewIterator S d key)"

definition FinalityStore_TotalCount :: "'d Store \<Rightarrow> string \<Rightarrow> 'd \<Rightarrow> error + u64" where
  "FinalityStore_TotalCount S pre d = FinalityStore_getCountByKey S d (GetKey [pre])"

definition FinalityStore_TotalCountByChain ::
    "'d Store \<Rightarrow> string \<Rightarrow> 'd \<Rightarrow> string \<Rightarrow> error + u64" where
  "FinalityStore_TotalCountByChain S pre d nId =
     FinalityStore_getCountByKey S d (GetKey [pre, nId])"

definition FinalityStore_StoreTxObject ::
    "'d Store \<Rightarrow> string \<Rightarrow> 'd \<Rightarrow> TransactionObject option \<Rightarrow> error option \<times> 'd" where
  "FinalityStore_StoreTxObject S pre d message =
     (case message of
        None \<Rightarrow> (Some (ErrMsg ''error while storingMessage: message cannot be nil''), d)
      | Some t \<Rightarrow>
          (let k = mk_Key (to_Key t) in
           SetByKey S d (FinalityStore_key pre (key_Dst k) (key_Sn k))
             (marshal_TransactionObject t)))"

definition FinalityStore_GetTxObject ::
    "'d Store \<Rightarrow> string \<Rightarrow> 'd \<Rightarrow> MessageKey \<Rightarrow> error + TransactionObject" where
  "FinalityStore_GetTxObject S pre d messageKey =
     load S d unmarshal_TransactionObject
       (FinalityStore_key pre (key_Dst messageKey) (key_Sn messageKey))"

definition FinalityStore_GetTxObjects ::
    "'d Store \<Rightarrow> string \<Rightarrow> 'd \<Rightarrow> string \<Rightarrow> Pagination \<Rightarrow> error + TransactionObject list" where
  "FinalityStore_GetTxObjects S pre d nId p =
     (let keyPrefixList = [pre] @ (if nId \<noteq> [] then [nId] else [])
      in list_entries unmarshal_TransactionObject (NewIterator S d (GetKey keyPrefixList)) p)"

definition FinalityStore_DeleteTxObject ::
    "'d Store \<Rightarrow> string \<Rightarrow> 'd \<Rightarrow> MessageKey \<Rightarrow> error option \<times> 'd" where
  "FinalityStore_DeleteTxObject S pre d messageKey =
     DeleteByKey S d (FinalityStore_key pre (key_Dst messageKey) (key_Sn messageKey))"

subsection \<open>A partial function from (destination, serial number) to transaction objects\<close>

definition fs_key :: "string \<Rightarrow> string \<times> u64 \<Rightarrow> string" where
  "fs_key pre i = FinalityStore_key pre (fst i) (snd i)"

definition fs_stored ::
    "string \<Rightarrow> (string \<Rightarrow> string option) \<Rightarrow> string \<times> u64 \<Rightarrow> TransactionObject option" where
  "fs_stored pre = stored (fs_key pre) unmarshal_TransactionObject"

definition tx_id :: "TransactionObject \<Rightarrow> string \<times> u64" where
  "tx_id t = (key_Dst (mk_Key (to_Key t)), key_Sn (mk_Key (to_Key t)))"

lemma fs_key_inj: "fs_key pre i = fs_key pre j \<Longrightarrow> i = j"
  by (cases i; cases j) (simp add: fs_key_def FinalityStore_key_def GetKey_3_inj)

sublocale kv_reliable \<subseteq>
  fs: keyed_store S view marshal_TransactionObject unmarshal_TransactionObject
    TransactionObject_clean "fs_key pre" for pre
  by unfold_locales (rule fs_key_inj)

context kv_reliable
begin

lemma StoreTxObject_nil:
  "FinalityStore_StoreTxObject S pre d None
     = (Some (ErrMsg ''error while storingMessage: message cannot be nil''), d)"
  by (simp add: FinalityStore_StoreTxObject_def)

lemma StoreTxObject_ok:
  obtains d' where "FinalityStore_StoreTxObject S pre d (Some t) = (None, d')"
    "fs_stored pre (view d') = (fs_stored pre (view d))(tx_id t \<mapsto> TransactionObject_clean t)"
    "view d' = (view d)(fs_key pre (tx_id t) \<mapsto> marshal_TransactionObject t)"
proof (rule that)
  let ?d' = "snd (SetByKey S d (fs_key pre (tx_id t)) (marshal_TransactionObject t))"
  show "FinalityStore_StoreTxObject S pre d (Some t) = (None, ?d')"
    using fs.put_ok [of d pre "tx_id t" t]
    by (simp add: FinalityStore_StoreTxObject_def fs_key_def tx_id_def Let_def)
  show "fs_stored pre (view ?d') = (fs_stored pre (view d))(tx_id t \<mapsto> TransactionObject_clean t)"
    unfolding fs_stored_def by (rule fs.put_stored)
  show "view ?d' = (view d)(fs_key pre (tx_id t) \<mapsto> marshal_TransactionObject t)"
    by (rule set_view)
qed

lemma GetTxObject_iff:
  "FinalityStore_GetTxObject S pre d k = Inr t
     \<longleftrightarrow> fs_stored pre (view d) (key_Dst k, key_Sn k) = Some t"
  using fs.load_iff [of d pre "(key_Dst k, key_Sn k)" t]
  by (simp add: FinalityStore_GetTxObject_def fs_stored_def fs_key_def)

lemma DeleteTxObject_ok:
  obtains d' where "FinalityStore_DeleteTxObject S pre d k = (None, d')"
    "fs_stored pre (view d') = (fs_stored pre (view d))((key_Dst k, key_Sn k) := None)"
    "view d' = (view d)(fs_key pre (key_Dst k, key_Sn k) := None)"
proof (rule that)
  let ?d' = "snd (DeleteByKey S d (fs_key pre (key_Dst k, key_Sn k)))"
  show "FinalityStore_DeleteTxObject S pre d k = (None, ?d')"
    using fs.remove_ok [of d pre "(key_Dst k, key_Sn k)"]
    by (simp add: FinalityStore_DeleteTxObject_def fs_key_def)
  show "fs_stored pre (view ?d') = (fs_stored pre (view d))((key_Dst k, key_Sn k) := None)"
    unfolding fs_stored_def by (rule fs.remove_stored)
  show "view ?d' = (view d)(fs_key pre (key_Dst k, key_Sn k) := None)"
    by (simp add: delete_view)
qed

end

subsection \<open>Properties\<close>

text \<open>Over a reliable database the finality store is a map from (destination network, serial
  number) to transaction objects: \<open>GetTxObject\<close> reads back what \<open>StoreTxObject\<close> wrote, other keys
  answer as before, a deleted key is not found and a nil object is refused.\<close>

lemma FinalityStore_implements_map:
  assumes "kv_reliable S view"
  shows "\<exists>d'. FinalityStore_StoreTxObject S pre d (Some t) = (None, d') \<and>
     (\<forall>k. FinalityStore_GetTxObject S pre d' k =
        (if (key_Dst k, key_Sn k) = tx_id t then Inr (TransactionObject_clean t)
         else FinalityStore_GetTxObject S pre d k)) \<and>
     (\<forall>k. \<exists>d''. FinalityStore_DeleteTxObject S pre d' k = (None, d'') \<and>
        FinalityStore_GetTxObject S pre d'' k = Inl ErrNotFound) \<and>
     FinalityStore_StoreTxObject S pre d None
       = (Some (ErrMsg ''error while storingMessage: message cannot be nil''), d)"
proof -
  obtain d' where d': "FinalityStore_StoreTxObject S pre d (Some t) = (None, d')"
    "fs_stored pre (view d') = (fs_stored pre (view d))(tx_id t \<mapsto> TransactionObject_clean t)"
    "view d' = (view d)(fs_key pre (tx_id t) \<mapsto> marshal_TransactionObject t)"
    by (rule kv_reliable.StoreTxObject_ok [OF assms])
  have "FinalityStore_GetTxObject S pre d' k = FinalityStore_GetTxObject S pre d k"
    if "(key_Dst k, key_Sn k) \<noteq> tx_id t" for k
    using that fs_key_inj [of pre "(key_Dst k, key_Sn k)" "tx_id t"]
    by (auto simp: FinalityStore_GetTxObject_def load_def kv_reliable.get_total [OF assms] d'(3) fs_key_def)
  moreover have "FinalityStore_GetTxObject S pre d' k = Inr (TransactionObject_clean t)"
    if "(key_Dst k, key_Sn k) = tx_id t" for k
    unfolding kv_reliable.GetTxObject_iff [OF assms] that by (simp add: d'(2))
  moreover have "\<exists>d''. FinalityStore_DeleteTxObject S pre d' k = (None, d'') \<and>
        FinalityStore_GetTxObject S pre d'' k = Inl ErrNotFound" for k
  proof -
    obtain d'' where "FinalityStore_DeleteTxObject S pre d' k = (None, d'')"
      "view d'' = (view d')(fs_key pre (key_Dst k, key_Sn k) := None)"
      by (rule kv_reliable.DeleteTxObject_ok [OF assms])
    then show ?thesis
      by (simp add: FinalityStore_GetTxObject_def load_def kv_reliable.get_total [OF assms] fs_key_def)
  qed
  ultimately show ?thesis
    using d'(1) kv_reliable.StoreTxObject_nil [OF assms] by auto
qed

definition sample_TransactionObject :: TransactionObject where
  "sample_TransactionObject =
     NewTransactionObject
       (NewMessagekeyWithMessageHeight (NewMessageKey 1 ''eth'' ''icon'' EmitMessage) 5) ''0xab'' 9"

lemma FinalityStore_implements_map_instance:
  "\<exists>d'. FinalityStore_StoreTxObject (LVLDB_store mem_leveldb) ''finality'' []
      (Some sample_TransactionObject) = (None, d') \<and>
     FinalityStore_GetTxObject (LVLDB_store mem_leveldb) ''finality'' d' (NewMessageKey 1 [] ''icon'' [])
       = Inr (TransactionObject_clean sample_TransactionObject)"
  using FinalityStore_implements_map [OF mem.kv_reliable_axioms, of "''finality''" "[]" sample_TransactionObject]
  by (auto simp: tx_id_def sample_TransactionObject_def NewTransactionObject_def
      NewMessagekeyWithMessageHeight_def NewMessageKey_def)

text \<open>The source network is not part of a finality entry: storing the transaction of a second
  message with the same destination and serial number but another source replaces the first, and
  reading the first message's key returns the second message's transaction.\<close>

lemma FinalityStore_source_collision:
  assumes "kv_reliable S view" and "tx_id t1 = tx_id t2"
    and "FinalityStore_StoreTxObject S pre d (Some t1) = (None, d1)"
    and "FinalityStore_StoreTxObject S pre d1 (Some t2) = (None, d2)"
  shows "FinalityStore_GetTxObject S pre d2 (mk_Key (to_Key t1)) = Inr (TransactionObject_clean t2)"
proof -
  have "fs_stored pre (view d2) (tx_id t2) = Some (TransactionObject_clean t2)"
    using kv_reliable.StoreTxObject_ok [OF assms(1), of pre d1 t2] assms(4)
    by (metis fun_upd_same prod.inject)
  then show ?thesis
    using assms(2) by (simp add: kv_reliable.GetTxObject_iff [OF assms(1)] tx_id_def)
qed

lemma FinalityStore_source_collision_instance:
  "FinalityStore_GetTxObject (LVLDB_store mem_leveldb) ''finality''
     (snd (FinalityStore_StoreTxObject (LVLDB_store mem_leveldb) ''finality''
       (snd (FinalityStore_StoreTxObject (LVLDB_store mem_leveldb) ''finality'' []
         (Some (sample_TransactionObject\<lparr>to_TxHash := ''0xcd''\<rparr>))))
       (Some sample_TransactionObject)))
     (mk_Key (to_Key (sample_TransactionObject\<lparr>to_TxHash := ''0xcd''\<rparr>)))
   = Inr (TransactionObject_clean sample_TransactionObject)"
proof -
  have ok: "FinalityStore_StoreTxObject (LVLDB_store mem_leveldb) ''finality'' d (Some t)
      = (None, snd (FinalityStore_StoreTxObject (LVLDB_store mem_leveldb) ''finality'' d (Some t)))" for d t
    by (simp add: FinalityStore_StoreTxObject_def Let_def mem_leveldb_def)
  have id: "tx_id (sample_TransactionObject\<lparr>to_TxHash := ''0xcd''\<rparr>) = tx_id sample_TransactionObject"
    by (simp add: tx_id_def)
  show ?thesis
    by (rule FinalityStore_source_collision [OF mem.kv_reliable_axioms id ok ok])
qed

end
