(* ===== verification/ChainRuntime.thy ===== *)
theory ChainRuntime
  imports RelayTypes
begin

text \<open>
  \<^verbatim>\<open>relayer/provider/provider.go\<close>, \<^verbatim>\<open>relayer/chain.go\<close> and \<^verbatim>\<open>relayer/chain_runtime.go\<close>: the
  interface of a chain, the collection of configured chains, and the state the relayer keeps
  for each. A provider is the record of its methods over a state \<open>'w\<close> of the outside world:
  what a method answers is whatever the chain says at that moment. \<open>Route\<close> answers with the
  calls it makes to its callback before it returns; the calls it makes later are events of the
  world. A provider that dereferences a nil message panics.
\<close>

subsection \<open>The provider of a chain\<close>

type_synonym tx_callback = "MessageKey \<times> TxResponse \<times> error option"

record 'w ChainProvider =
  NID :: string
  ChainName :: string
  FinalityBlock :: "'w \<Rightarrow> u64"
  QueryLatestHeight :: "'w \<Rightarrow> error + u64"
  QueryTransactionReceipt :: "'w \<Rightarrow> string \<Rightarrow> error + Receipt option"
  ShouldReceiveMessage :: "'w \<Rightarrow> Message \<Rightarrow> bool \<times> error option"
  ShouldSendMessage :: "'w \<Rightarrow> Message \<Rightarrow> bool \<times> error option"
  MessageReceived :: "'w \<Rightarrow> MessageKey \<Rightarrow> bool \<times> error option"
  GenerateMessage :: "'w \<Rightarrow> MessageKeyWithMessageHeight \<Rightarrow> Message option \<times> error option"
  Route :: "'w \<Rightarrow> Message option \<Rightarrow> (tx_callback list \<times> error option \<times> 'w) go"

subsection \<open>Chains\<close>

record 'w Chain =
  ChainProvider :: "'w ChainProvider"
  chain_debug :: bool

type_synonym 'w Chains = "(string, 'w Chain) gomap"

definition NewChain :: "'w ChainProvider \<Rightarrow> bool \<Rightarrow> 'w Chain" where
  "NewChain prov debug = \<lparr>ChainProvider = prov, chain_debug = debug\<rparr>"

definition Chain_NID :: "'w Chain \<Rightarrow> string" where
  "Chain_NID c = NID (ChainProvider c)"

definition Chains_Get :: "'w Chains \<Rightarrow> string \<Rightarrow> error + 'w Chain" where
  "Chains_Get cs nid =
     (case find (\<lambda>kc. nid = NID (ChainProvider (snd kc))) cs of
        Some (k, c) \<Rightarrow> Inr c
      | None \<Rightarrow> Inl (ErrMsg (''chain with NID '' @ nid @ '' is not configured'')))"

fun Chains_GetAll_from :: "'w Chains \<Rightarrow> 'w Chains \<Rightarrow> 'w Chains" where
  "Chains_GetAll_from [] out = out"
| "Chains_GetAll_from ((k, c) # cs) out = Chains_GetAll_from cs (map_set (Chain_NID c) c out)"

definition Chains_GetAll :: "'w Chains \<Rightarrow> 'w Chains" where
  "Chains_GetAll cs = Chains_GetAll_from cs []"

lemma Chains_Get_ok:
  "Chains_Get cs nid = Inr c \<Longrightarrow> (\<exists>k. (k, c) \<in> set cs) \<and> Chain_NID c = nid"
  by (auto simp: Chains_Get_def Chain_NID_def dest: find_SomeI_set split: option.splits)

lemma Chains_Get_error_iff:
  "(\<exists>e. Chains_Get cs nid = Inl e) \<longleftrightarrow> nid \<notin> (Chain_NID \<circ> snd) ` set cs"
proof (cases "find (\<lambda>kc. nid = NID (ChainProvider (snd kc))) cs")
  case None
  moreover have "nid \<notin> (Chain_NID \<circ> snd) ` set cs"
    using None by (fastforce simp: Chain_NID_def find_None_iff)
  ultimately show ?thesis
    by (simp add: Chains_Get_def)
next
  case (Some kc)
  then show ?thesis
    using find_SomeI_set [OF Some] by (cases kc) (force simp: Chains_Get_def Chain_NID_def)
qed

lemma Chains_GetAll_from_get:
  "map_get (Chains_GetAll_from cs out) n =
     (case find (\<lambda>kc. Chain_NID (snd kc) = n) (rev cs) of
        Some (k, c) \<Rightarrow> Some c
      | None \<Rightarrow> map_get out n)"
proof (induction cs out rule: Chains_GetAll_from.induct)
  case (2 k c cs out)
  then show ?case
    by (cases "find (\<lambda>kc. Chain_NID (snd kc) = n) (rev cs)") (auto simp: find_append_case split: option.splits)
qed simp

subsection \<open>The runtime of a chain\<close>

text \<open>
  The channel of the listener is not part of the record: a block the listener delivers is an
  event, in the order the listener sends them.
\<close>

record 'w ChainRuntime =
  cr_Provider :: "'w ChainProvider"
  LastBlockHeight :: u64
  LastSavedHeight :: u64
  cr_MessageCache :: MessageCache

definition NewChainRuntime :: "'w Chain option \<Rightarrow> error + 'w ChainRuntime" where
  "NewChainRuntime chain =
     (case chain of
        None \<Rightarrow> Inl (ErrMsg ''failed to construct chain runtime'')
      | Some c \<Rightarrow>
          Inr \<lparr>cr_Provider = ChainProvider c, LastBlockHeight = 0, LastSavedHeight = 0,
               cr_MessageCache = NewMessageCache\<rparr>)"

fun mergeMessages ::
    "Message option list \<Rightarrow> heap \<times> MessageCache \<Rightarrow> (heap \<times> MessageCache) go" where
  "mergeMessages [] hc = Some hc"
| "mergeMessages (m # ms) (h, c) =
     (let (a, h') = heap_new h (NewRouteMessage m) in
      case MessageCache_Add h' c a of
        None \<Rightarrow> None
      | Some c' \<Rightarrow> mergeMessages ms (h', c'))"

fun clearMessageFromCache :: "MessageKey list \<Rightarrow> MessageCache \<Rightarrow> MessageCache" where
  "clearMessageFromCache [] c = c"
| "clearMessageFromCache (k # ks) c = clearMessageFromCache ks (MessageCache_Remove c k)"

text \<open>
  The error of \<open>ShouldReceiveMessage\<close> and of \<open>ShouldSendMessage\<close> is dropped; the message
  is dereferenced before the first of them is asked.
\<close>

definition shouldSendMessage ::
    "'w \<Rightarrow> 'w ChainRuntime \<Rightarrow> RouteMessage option \<Rightarrow> 'w ChainRuntime \<Rightarrow> bool go" where
  "shouldSendMessage w dst routeMessage src =
     (case routeMessage of
        None \<Rightarrow> Some False
      | Some r \<Rightarrow>
          if RouteMessage_GetIsProcessing r then Some False
          else
            (case rm_Message r of
               None \<Rightarrow> None
             | Some m \<Rightarrow>
                 if \<not> fst (ShouldReceiveMessage (cr_Provider dst) w m) then Some False
                 else if \<not> fst (ShouldSendMessage (cr_Provider src) w m) then Some False
                 else Some True))"

lemma shouldSendMessage_True_iff:
  "shouldSendMessage w dst (Some r) src = Some True \<longleftrightarrow>
     \<not> rm_IsProcessing r \<and>
     (\<exists>m. rm_Message r = Some m \<and> fst (ShouldReceiveMessage (cr_Provider dst) w m)
        \<and> fst (ShouldSendMessage (cr_Provider src) w m))"
  by (auto simp: shouldSendMessage_def RouteMessage_GetIsProcessing_def split: option.splits)

lemma shouldSendMessage_total:
  "rm_Message r = Some m \<Longrightarrow> \<exists>b. shouldSendMessage w dst (Some r) src = Some b"
  by (auto simp: shouldSendMessage_def)

subsection \<open>Merging and clearing\<close>

lemma clearMessageFromCache_get:
  "map_get (clearMessageFromCache ks c) k = (if k \<in> set ks then None else map_get c k)"
  by (induction ks c rule: clearMessageFromCache.induct) (auto simp: MessageCache_Remove_def)

lemma clearMessageFromCache_view:
  "cache_view h (clearMessageFromCache ks c) = (cache_view h c) |` (- set ks)"
  by (auto simp: cache_view_def clearMessageFromCache_get restrict_map_def fun_eq_iff)

lemma cache_wf_clear [wf_intro]: "cache_wf h c \<Longrightarrow> cache_wf h (clearMessageFromCache ks c)"
  by (induction ks c rule: clearMessageFromCache.induct) (auto intro: wf_intro)

text \<open>A cache that is well formed stays so, and shows the same messages, when the heap grows.\<close>

lemma heap_get_append [simp]: "a < length h \<Longrightarrow> heap_get (h @ h') a = heap_get h a"
  by (simp add: heap_get_def nth_append)

lemma heap_get_append_Some: "heap_get h a = Some r \<Longrightarrow> heap_get (h @ h') a = Some r"
  by (metis heap_get_Some_length heap_get_append)

lemma cache_wf_grow [wf_intro]: "cache_wf h c \<Longrightarrow> cache_wf (h @ h') c"
proof -
  have "map_option RouteMessage_MessageKey (heap_get h a) = Some (Some k) \<Longrightarrow>
      map_option RouteMessage_MessageKey (heap_get (h @ h') a) = Some (Some k)" for a k
    by (auto dest: heap_get_append_Some)
  then show "cache_wf h c \<Longrightarrow> cache_wf (h @ h') c"
    by (auto simp: cache_wf_def list_all_iff)
qed

lemma cache_view_grow:
  assumes "cache_wf h c"
  shows "cache_view (h @ h') c = cache_view h c"
proof
  fix k
  show "cache_view (h @ h') c k = cache_view h c k"
  proof (cases "map_get c k")
    case (Some a)
    with assms obtain r where "heap_get h a = Some r"
      by (auto elim: cache_wfD)
    then show ?thesis
      using Some by (simp add: cache_view_def heap_get_append_Some)
  qed (simp add: cache_view_def)
qed

text \<open>
  \<open>mergeMessages\<close> and the flush of the relayer add route messages one by one, each a new
  object: \<open>add_all\<close> is the loop they share, and \<open>route_entries\<close> what it enters in the cache,
  each message under its own key, the last one of a key winning.
\<close>

fun add_all :: "RouteMessage list \<Rightarrow> heap \<times> MessageCache \<Rightarrow> (heap \<times> MessageCache) go" where
  "add_all [] hc = Some hc"
| "add_all (m # ms) (h, c) =
     (let (a, h') = heap_new h m in
      case MessageCache_Add h' c a of
        None \<Rightarrow> None
      | Some c' \<Rightarrow> add_all ms (h', c'))"

definition route_entries :: "RouteMessage list \<Rightarrow> (MessageKey \<times> RouteMessage) list" where
  "route_entries rs = map (\<lambda>r. (Message_MessageKey (the (rm_Message r)), r)) rs"

lemma mergeMessages_add_all: "mergeMessages ms hc = add_all (map NewRouteMessage ms) hc"
  by (induction ms hc rule: mergeMessages.induct) (auto simp: heap_new_def split: option.split)

lemma add_all_nil: "\<exists>r \<in> set rs. rm_Message r = None \<Longrightarrow> add_all rs hc = None"
proof (induction rs hc rule: add_all.induct)
  case (2 m ms h c)
  then show ?case
    by (cases "rm_Message m")
      (auto simp: heap_new_def MessageCache_Add_def heap_get_def RouteMessage_MessageKey_def
        split: option.split)
qed simp

lemma add_all_ok:
  assumes "cache_wf h c" and "\<forall>r \<in> set rs. rm_Message r \<noteq> None"
  obtains c' where "add_all rs (h, c) = Some (h @ rs, c')" and "cache_wf (h @ rs) c'"
    and "cache_view (h @ rs) c' = cache_view h c ++ map_of (rev (route_entries rs))"
  using assms
proof (induction rs arbitrary: h c thesis)
  case Nil
  then show ?case
    by (simp add: route_entries_def)
next
  case (Cons r rs)
  obtain m where m: "rm_Message r = Some m"
    using Cons.prems(3) by auto
  let ?k = "Message_MessageKey m"
  have get: "heap_get (h @ [r]) (length h) = Some r"
    by (simp add: heap_get_def)
  have add: "MessageCache_Add (h @ [r]) c (length h) = Some (map_set ?k (length h) c)"
    using get m by (simp add: MessageCache_Add_def RouteMessage_MessageKey_def)
  have wf: "cache_wf (h @ [r]) (map_set ?k (length h) c)"
    using cache_wf_Add [OF cache_wf_grow [OF Cons.prems(2)] add] .
  have view: "cache_view (h @ [r]) (map_set ?k (length h) c) = (cache_view h c)(?k \<mapsto> r)"
    using cache_view_grow [OF Cons.prems(2), of "[r]"] get
    by (auto simp: cache_view_def fun_eq_iff)
  have rest: "\<forall>r \<in> set rs. rm_Message r \<noteq> None"
    using Cons.prems(3) by simp
  obtain c' where "add_all rs (h @ [r], map_set ?k (length h) c) = Some ((h @ [r]) @ rs, c')"
    and "cache_wf ((h @ [r]) @ rs) c'"
    and "cache_view ((h @ [r]) @ rs) c'
      = cache_view (h @ [r]) (map_set ?k (length h) c) ++ map_of (rev (route_entries rs))"
    using Cons.IH [OF _ wf rest] by blast
  moreover have "map_of (rev (route_entries (r # rs))) = [?k \<mapsto> r] ++ map_of (rev (route_entries rs))"
    by (simp add: route_entries_def m)
  ultimately show ?case
    by (intro Cons.prems(1) [of c']) (simp_all add: heap_new_def add view map_add_assoc [symmetric])
qed

lemma mergeMessages_nil: "None \<in> set ms \<Longrightarrow> mergeMessages ms hc = None"
  unfolding mergeMessages_add_all by (rule add_all_nil) (auto simp: NewRouteMessage_def)

text \<open>
  Merging allocates one fresh route message per message, with no attempt counted and not being
  processed, and enters it under the key of the message, in place of what was there.
\<close>

lemma mergeMessages_ok:
  assumes "cache_wf h c" and "None \<notin> set ms"
  obtains c' where "mergeMessages ms (h, c) = Some (h @ map NewRouteMessage ms, c')"
    and "cache_wf (h @ map NewRouteMessage ms) c'"
    and "cache_view (h @ map NewRouteMessage ms) c'
      = cache_view h c ++ map_of (rev (route_entries (map NewRouteMessage ms)))"
proof -
  have "\<forall>r \<in> set (map NewRouteMessage ms). rm_Message r \<noteq> None"
    using assms(2) by (auto simp: NewRouteMessage_def) (metis not_None_eq)
  from add_all_ok [OF assms(1) this] show ?thesis
    by (metis that mergeMessages_add_all)
qed

subsection \<open>Properties\<close>

text \<open>Merging the messages of a block enters every one of them in the cache as a fresh route
  message (no attempt counted, not being processed), replacing an entry of the same key and
  leaving the other keys; a nil message panics. Messages that were in the cache under the same
  key lose their attempts and their processing mark.\<close>

lemma mergeMessages_merges:
  assumes "cache_wf h c"
  shows "(None \<notin> set ms \<longrightarrow>
      (\<exists>c'. mergeMessages ms (h, c) = Some (h @ map NewRouteMessage ms, c') \<and>
         cache_wf (h @ map NewRouteMessage ms) c' \<and>
         (\<forall>k. cache_view (h @ map NewRouteMessage ms) c' k =
            (case find (\<lambda>m. Message_MessageKey (the m) = k) (rev ms) of
               Some m \<Rightarrow> Some (NewRouteMessage m)
             | None \<Rightarrow> cache_view h c k)))) \<and>
     (None \<in> set ms \<longrightarrow> mergeMessages ms (h, c) = None)"
proof (cases "None \<in> set ms")
  case False
  obtain c' where c': "mergeMessages ms (h, c) = Some (h @ map NewRouteMessage ms, c')"
    "cache_wf (h @ map NewRouteMessage ms) c'"
    "cache_view (h @ map NewRouteMessage ms) c'
      = cache_view h c ++ map_of (rev (route_entries (map NewRouteMessage ms)))"
    using mergeMessages_ok [OF assms False] by blast
  have "rev (route_entries (map NewRouteMessage ms))
      = map (\<lambda>m. (Message_MessageKey (the m), NewRouteMessage m)) (rev ms)"
    by (simp add: route_entries_def rev_map NewRouteMessage_def)
  then have "cache_view (h @ map NewRouteMessage ms) c' k =
            (case find (\<lambda>m. Message_MessageKey (the m) = k) (rev ms) of
               Some m \<Rightarrow> Some (NewRouteMessage m)
             | None \<Rightarrow> cache_view h c k)" for k
    unfolding c'(3) by (simp add: map_add_def map_of_map_find split: option.split)
  with c' False show ?thesis
    by blast
qed (simp add: mergeMessages_nil)

lemma mergeMessages_merges_instance:
  "\<exists>c'. mergeMessages [Some sample_Message] ([], NewMessageCache)
      = Some ([sample_RouteMessage], c') \<and>
     cache_view [sample_RouteMessage] c' (Message_MessageKey sample_Message) = Some sample_RouteMessage"
  using mergeMessages_merges [of "[]" NewMessageCache "[Some sample_Message]"]
  by (auto simp: sample_RouteMessage_def)

text \<open>\<open>Chains.Get\<close> returns a configured chain with the network id asked for, and fails exactly
  when no configured chain has it; \<open>GetAll\<close> files every chain under its own network id.\<close>

lemma Chains_lookup:
  "(case Chains_Get cs nid of
      Inl e \<Rightarrow> nid \<notin> Chain_NID ` snd ` set cs
    | Inr c \<Rightarrow> c \<in> snd ` set cs \<and> Chain_NID c = nid) \<and>
   (case map_get (Chains_GetAll cs) nid of
      None \<Rightarrow> nid \<notin> Chain_NID ` snd ` set cs
    | Some c \<Rightarrow> c \<in> snd ` set cs \<and> Chain_NID c = nid)"
proof
  show "case Chains_Get cs nid of
      Inl e \<Rightarrow> nid \<notin> Chain_NID ` snd ` set cs
    | Inr c \<Rightarrow> c \<in> snd ` set cs \<and> Chain_NID c = nid"
  proof (cases "Chains_Get cs nid")
    case (Inl e)
    then show ?thesis
      using Chains_Get_error_iff [of cs nid] by (auto simp: image_comp)
  next
    case (Inr c)
    then show ?thesis
      using Chains_Get_ok [OF Inr] by force
  qed
  show "case map_get (Chains_GetAll cs) nid of
      None \<Rightarrow> nid \<notin> Chain_NID ` snd ` set cs
    | Some c \<Rightarrow> c \<in> snd ` set cs \<and> Chain_NID c = nid"
  proof (cases "find (\<lambda>kc. Chain_NID (snd kc) = nid) (rev cs)")
    case None
    then have "nid \<notin> Chain_NID ` snd ` set cs"
      unfolding find_None_iff image_image by fastforce
    with None show ?thesis
      using Chains_GetAll_from_get [of cs "[]" nid] by (simp add: Chains_GetAll_def)
  next
    case (Some kc)
    then show ?thesis
      using Chains_GetAll_from_get [of cs "[]" nid] find_SomeI_set [OF Some]
      by (cases kc) (force simp: Chains_GetAll_def)
  qed
qed

end
