(* ===== verification/Relay.thy ===== *)
theory Relay
  imports MessageStore BlockStore FinalityStore ChainRuntime
begin

text \<open>
  \<^verbatim>\<open>relayer/relay.go\<close>: the relayer. Its state is the runtimes of its chains, the heap of route
  messages they share, the database, the outside world, and the goroutines that were started
  and have not run. A pointer to a \<open>ChainRuntime\<close> is the network id it is filed under, which
  \<open>NewRelayer\<close> fixes; a pointer to a route message is its address. Every handler is a function
  of the database interface \<open>S\<close> and the state; a panic is \<open>None\<close>. Logging is left out.
\<close>

definition SaveHeightMaxAfter :: u64 where
  "SaveHeightMaxAfter = 10"

definition maxFlushMessage :: nat where
  "maxFlushMessage = 10"

definition prefixMessageStore :: string where
  "prefixMessageStore = ''message''"

definition prefixBlockStore :: string where
  "prefixBlockStore = ''block''"

definition prefixFinalityStore :: string where
  "prefixFinalityStore = ''finality''"

subsection \<open>The state\<close>

text \<open>
  \<open>GoMerge nid ms\<close> is \<open>go srcChainRuntime.mergeMessages\<close>, \<open>GoRoute a dst src\<close> is
  \<open>go r.RouteMessage\<close>.
\<close>

datatype goroutine =
    GoMerge string "Message option list"
  | GoRoute addr string string

record ('d, 'w) Relayer =
  rl_chains :: "(string, 'w ChainRuntime) gomap"
  rl_heap :: heap
  rl_db :: 'd
  rl_world :: 'w
  rl_go :: "goroutine list"

definition chain_at :: "('d, 'w) Relayer \<Rightarrow> string \<Rightarrow> 'w ChainRuntime option" where
  "chain_at r nid = map_get (rl_chains r) nid"

text \<open>An assignment through a pointer to a chain runtime.\<close>

definition upd_chain ::
    "string \<Rightarrow> ('w ChainRuntime \<Rightarrow> 'w ChainRuntime) \<Rightarrow> ('d, 'w) Relayer \<Rightarrow> ('d, 'w) Relayer" where
  "upd_chain nid f r =
     r\<lparr>rl_chains := map (\<lambda>(k, c). (k, if k = nid then f c else c)) (rl_chains r)\<rparr>"

definition spawn :: "goroutine \<Rightarrow> ('d, 'w) Relayer \<Rightarrow> ('d, 'w) Relayer" where
  "spawn g r = r\<lparr>rl_go := rl_go r @ [g]\<rparr>"

lemma map_of_map_entries:
  "map_of (map (\<lambda>(k, c). (k, f k c)) m) k = map_option (f k) (map_of m k)"
  by (induction m) auto

lemma chain_at_upd [simp]:
  "chain_at (upd_chain nid f r) n =
     (if n = nid then map_option f (chain_at r n) else chain_at r n)"
proof -
  have "chain_at (upd_chain nid f r) n
      = map_option (\<lambda>c. if n = nid then f c else c) (map_of (rl_chains r) n)"
    unfolding chain_at_def upd_chain_def
    using map_of_map_entries [of "\<lambda>k c. if k = nid then f c else c" "rl_chains r" n] by simp
  then show ?thesis
    by (simp add: chain_at_def option.map_ident)
qed

lemma upd_chain_sel [simp, frame]:
  "rl_heap (upd_chain nid f r) = rl_heap r"
  "rl_db (upd_chain nid f r) = rl_db r"
  "rl_world (upd_chain nid f r) = rl_world r"
  "rl_go (upd_chain nid f r) = rl_go r"
  "map fst (rl_chains (upd_chain nid f r)) = map fst (rl_chains r)"
  by (simp_all add: upd_chain_def comp_def case_prod_unfold)

lemma chain_at_upd_other [simp]:
  "chain_at (r\<lparr>rl_heap := h\<rparr>) n = chain_at r n"
  "chain_at (r\<lparr>rl_db := d\<rparr>) n = chain_at r n"
  "chain_at (r\<lparr>rl_world := w\<rparr>) n = chain_at r n"
  "chain_at (r\<lparr>rl_go := g\<rparr>) n = chain_at r n"
  by (simp_all add: chain_at_def)

lemma spawn_sel [simp, frame]:
  "rl_chains (spawn g r) = rl_chains r"
  "rl_heap (spawn g r) = rl_heap r"
  "rl_db (spawn g r) = rl_db r"
  "rl_world (spawn g r) = rl_world r"
  "chain_at (spawn g r) n = chain_at r n"
  "rl_go (spawn g r) = rl_go r @ [g]"
  by (simp_all add: spawn_def chain_at_def)

definition Relayer_FindChainRuntime ::
    "('d, 'w) Relayer \<Rightarrow> string \<Rightarrow> error + 'w ChainRuntime" where
  "Relayer_FindChainRuntime r nId =
     (case chain_at r nId of
        Some c \<Rightarrow> Inr c
      | None \<Rightarrow> Inl (ErrMsg (''chain runtime not found, nId:'' @ nId @ '' '')))"

subsection \<open>Starting\<close>

fun load_chains ::
    "'d Store \<Rightarrow> 'd \<Rightarrow> (string \<times> 'w Chain option) list \<Rightarrow> (string, 'w ChainRuntime) gomap
       \<Rightarrow> error + (string, 'w ChainRuntime) gomap" where
  "load_chains S d [] out = Inr out"
| "load_chains S d ((k, chain) # cs) out =
     (case NewChainRuntime chain of
        Inl e \<Rightarrow> Inl e
      | Inr c \<Rightarrow>
          (let nid = NID (cr_Provider c);
               c' = (case BlockStore_GetLastStoredBlock S prefixBlockStore d nid of
                       Inr h \<Rightarrow> c\<lparr>LastSavedHeight := h\<rparr>
                     | Inl e \<Rightarrow> c)
           in load_chains S d cs (map_set nid c' out)))"

definition NewRelayer ::
    "'d Store \<Rightarrow> 'd \<Rightarrow> 'w \<Rightarrow> (string \<times> 'w Chain option) list \<Rightarrow> bool
       \<Rightarrow> (error + ('d, 'w) Relayer) \<times> 'd" where
  "NewRelayer S db w cfg fresh =
     (let (err, d) = (if fresh then ClearStore S db else (None, db)) in
      case err of
        Some e \<Rightarrow> (Inl e, d)
      | None \<Rightarrow>
          (case load_chains S d cfg [] of
             Inl e \<Rightarrow> (Inl e, d)
           | Inr cs \<Rightarrow>
               (Inr \<lparr>rl_chains = cs, rl_heap = [], rl_db = d, rl_world = w, rl_go = []\<rparr>, d)))"

subsection \<open>Clearing messages, and failed deliveries\<close>

fun delete_messages ::
    "'d Store \<Rightarrow> MessageKey list \<Rightarrow> 'd \<Rightarrow> error option \<times> 'd" where
  "delete_messages S [] d = (None, d)"
| "delete_messages S (k # ks) d =
     (case MessageStore_DeleteMessage S prefixMessageStore d k of
        (Some e, d') \<Rightarrow> (Some e, d')
      | (None, d') \<Rightarrow> delete_messages S ks d')"

definition Relayer_ClearMessages ::
    "'d Store \<Rightarrow> MessageKey list \<Rightarrow> string \<Rightarrow> ('d, 'w) Relayer
       \<Rightarrow> error option \<times> ('d, 'w) Relayer" where
  "Relayer_ClearMessages S msgs src r =
     (let r' = upd_chain src
                 (\<lambda>c. c\<lparr>cr_MessageCache := clearMessageFromCache msgs (cr_MessageCache c)\<rparr>) r;
          (err, d) = delete_messages S msgs (rl_db r')
      in (err, r'\<lparr>rl_db := d\<rparr>))"

definition Relayer_HandleMessageFailed ::
    "'d Store \<Rightarrow> addr \<Rightarrow> string \<Rightarrow> ('d, 'w) Relayer \<Rightarrow> ('d, 'w) Relayer go" where
  "Relayer_HandleMessageFailed S a src r =
     (case heap_get (rl_heap r) a of
        None \<Rightarrow> None
      | Some m0 \<Rightarrow>
          (let m = RouteMessage_SetIsProcessing m0 False;
               r1 = r\<lparr>rl_heap := heap_upd (rl_heap r) a (\<lambda>_. m)\<rparr>
           in if RouteMessage_GetRetry m \<noteq> 0 \<and> RouteMessage_GetRetry m mod DefaultTxRetry = 0 then
                (case MessageStore_StoreMessage S prefixMessageStore (rl_db r1) (Some m) of
                   None \<Rightarrow> None
                 | Some (Some e, d) \<Rightarrow> Some (r1\<lparr>rl_db := d\<rparr>)
                 | Some (None, d) \<Rightarrow>
                     (case RouteMessage_MessageKey m of
                        None \<Rightarrow> None
                      | Some key \<Rightarrow>
                          Some (upd_chain src
                            (\<lambda>c. c\<lparr>cr_MessageCache := MessageCache_Remove (cr_MessageCache c) key\<rparr>)
                            (r1\<lparr>rl_db := d\<rparr>))))
              else Some r1))"

subsection \<open>Routing a message\<close>

text \<open>The closure \<open>RouteMessage\<close> hands to the provider of the destination.\<close>

definition Relayer_callback ::
    "'d Store \<Rightarrow> string \<Rightarrow> string \<Rightarrow> MessageKey \<Rightarrow> TxResponse \<Rightarrow> ('d, 'w) Relayer
       \<Rightarrow> ('d, 'w) Relayer go" where
  "Relayer_callback S dst src key response r =
     (case (chain_at r dst, chain_at r src) of
        (Some dstc, Some srcc) \<Rightarrow>
          if tr_Code response = Success then
            (if FinalityBlock (cr_Provider dstc) (rl_world r) > 0 then
               (case map_get (cr_MessageCache srcc) key of
                  None \<Rightarrow> Some r
                | Some a \<Rightarrow>
                    (case Option.bind (heap_get (rl_heap r) a) RouteMessage_GetMessage of
                       None \<Rightarrow> None
                     | Some m \<Rightarrow>
                         (let txObj = NewTransactionObject
                                (NewMessagekeyWithMessageHeight key (msg_MessageHeight m))
                                (tr_TxHash response) (tr_Height response)
                          in case FinalityStore_StoreTxObject S prefixFinalityStore (rl_db r)
                                    (Some txObj) of
                               (Some e, d) \<Rightarrow> Some (r\<lparr>rl_db := d\<rparr>)
                             | (None, d) \<Rightarrow>
                                 Some (snd (Relayer_ClearMessages S [key] src (r\<lparr>rl_db := d\<rparr>))))))
             else Some (snd (Relayer_ClearMessages S [key] src r)))
          else
            (case map_get (cr_MessageCache srcc) key of
               None \<Rightarrow> Some r
             | Some a \<Rightarrow> Relayer_HandleMessageFailed S a src r)
      | _ \<Rightarrow> None)"

fun run_callbacks ::
    "'d Store \<Rightarrow> string \<Rightarrow> string \<Rightarrow> tx_callback list \<Rightarrow> ('d, 'w) Relayer
       \<Rightarrow> ('d, 'w) Relayer go" where
  "run_callbacks S dst src [] r = Some r"
| "run_callbacks S dst src ((key, response, err) # cbs) r =
     (case Relayer_callback S dst src key response r of
        None \<Rightarrow> None
      | Some r' \<Rightarrow> run_callbacks S dst src cbs r')"

text \<open>
  \<open>RouteMessage\<close> in three stages: it marks the message and counts the attempt, the provider
  answers, and an error it returns is a failed delivery.
\<close>

definition mark_route :: "addr \<Rightarrow> ('d, 'w) Relayer \<Rightarrow> ('d, 'w) Relayer" where
  "mark_route a r =
     r\<lparr>rl_heap := heap_upd (rl_heap r) a
         (\<lambda>m. RouteMessage_IncrementRetry (RouteMessage_SetIsProcessing m True))\<rparr>"

definition Relayer_RouteMessage ::
    "'d Store \<Rightarrow> addr \<Rightarrow> string \<Rightarrow> string \<Rightarrow> ('d, 'w) Relayer \<Rightarrow> ('d, 'w) Relayer go" where
  "Relayer_RouteMessage S a dst src r =
     (let r1 = mark_route a r in
      case (heap_get (rl_heap r1) a, chain_at r1 dst) of
        (Some m, Some dstc) \<Rightarrow>
          (case Route (cr_Provider dstc) (rl_world r1) (RouteMessage_GetMessage m) of
             None \<Rightarrow> None
           | Some (cbs, err, w) \<Rightarrow>
               (case run_callbacks S dst src cbs (r1\<lparr>rl_world := w\<rparr>) of
                  None \<Rightarrow> None
                | Some r2 \<Rightarrow>
                    (case err of
                       None \<Rightarrow> Some r2
                     | Some e \<Rightarrow> Relayer_HandleMessageFailed S a src r2)))
      | _ \<Rightarrow> None)"

subsection \<open>Flushing the database into the caches\<close>

text \<open>The loop of \<open>getActiveMessagesFromStore\<close>: \<open>acc\<close> is what it has kept so far.\<close>

fun take_active :: "nat \<Rightarrow> RouteMessage list \<Rightarrow> RouteMessage list \<Rightarrow> RouteMessage list" where
  "take_active n acc [] = acc"
| "take_active n acc (m # ms) =
     (let acc' = (if RouteMessage_IsStale m then acc else acc @ [m])
      in if n < length acc' then acc' else take_active n acc' ms)"

definition Relayer_getActiveMessagesFromStore ::
    "'d Store \<Rightarrow> 'd \<Rightarrow> string \<Rightarrow> nat \<Rightarrow> error + RouteMessage list" where
  "Relayer_getActiveMessagesFromStore S d nId maxMessages =
     (case MessageStore_GetMessages S prefixMessageStore d nId (Pagination_GetAll NewPagination) of
        Inl e \<Rightarrow> Inl e
      | Inr msgs \<Rightarrow> Inr (take_active maxMessages [] msgs))"

fun flush_chains ::
    "'d Store \<Rightarrow> string list \<Rightarrow> ('d, 'w) Relayer \<Rightarrow> ('d, 'w) Relayer go" where
  "flush_chains S [] r = Some r"
| "flush_chains S (nid # nids) r =
     (case chain_at r nid of
        None \<Rightarrow> None
      | Some c \<Rightarrow>
          (case Relayer_getActiveMessagesFromStore S (rl_db r) (NID (cr_Provider c)) maxFlushMessage of
             Inl e \<Rightarrow> flush_chains S nids r
           | Inr messages \<Rightarrow>
               (case add_all messages (rl_heap r, cr_MessageCache c) of
                  None \<Rightarrow> None
                | Some (h, mc) \<Rightarrow>
                    flush_chains S nids
                      (upd_chain nid (\<lambda>c. c\<lparr>cr_MessageCache := mc\<rparr>) (r\<lparr>rl_heap := h\<rparr>)))))"

definition Relayer_flushMessages ::
    "'d Store \<Rightarrow> ('d, 'w) Relayer \<Rightarrow> ('d, 'w) Relayer go" where
  "Relayer_flushMessages S r =
     (let count = (case MessageStore_TotalCount S prefixMessageStore (rl_db r) of
                     Inl e \<Rightarrow> 0 | Inr n \<Rightarrow> n)
      in if count = 0 then Some r else flush_chains S (map fst (rl_chains r)) r)"

subsection \<open>Processing the caches\<close>

text \<open>The body of the inner loop of \<open>processMessages\<close>, on one route message of one chain.\<close>

definition process_message ::
    "'d Store \<Rightarrow> string \<Rightarrow> addr \<Rightarrow> ('d, 'w) Relayer \<Rightarrow> ('d, 'w) Relayer go" where
  "process_message S src a r =
     (case (heap_get (rl_heap r) a, chain_at r src) of
        (Some rm, Some srcc) \<Rightarrow>
          (case rm_Message rm of
             None \<Rightarrow> None
           | Some m \<Rightarrow>
               (case Relayer_FindChainRuntime r (msg_Dst m) of
                  Inl e \<Rightarrow> Some (snd (Relayer_ClearMessages S [Message_MessageKey m] src r))
                | Inr dstc \<Rightarrow>
                    (case shouldSendMessage (rl_world r) dstc (Some rm) srcc of
                       None \<Rightarrow> None
                     | Some False \<Rightarrow> Some r
                     | Some True \<Rightarrow>
                         (case MessageReceived (cr_Provider dstc) (rl_world r)
                                 (Message_MessageKey m) of
                            (received, Some e) \<Rightarrow> Some r
                          | (True, None) \<Rightarrow>
                              Some (snd (Relayer_ClearMessages S [Message_MessageKey m] src r))
                          | (False, None) \<Rightarrow> Some (spawn (GoRoute a (msg_Dst m) src) r)))))
      | _ \<Rightarrow> None)"

fun process_entries ::
    "'d Store \<Rightarrow> string \<Rightarrow> addr list \<Rightarrow> ('d, 'w) Relayer \<Rightarrow> ('d, 'w) Relayer go" where
  "process_entries S src [] r = Some r"
| "process_entries S src (a # as) r =
     (case process_message S src a r of
        None \<Rightarrow> None
      | Some r' \<Rightarrow> process_entries S src as r')"

fun process_chains ::
    "'d Store \<Rightarrow> string list \<Rightarrow> ('d, 'w) Relayer \<Rightarrow> ('d, 'w) Relayer go" where
  "process_chains S [] r = Some r"
| "process_chains S (nid # nids) r =
     (case chain_at r nid of
        None \<Rightarrow> None
      | Some c \<Rightarrow>
          (case process_entries S nid (map snd (cr_MessageCache c)) r of
             None \<Rightarrow> None
           | Some r' \<Rightarrow> process_chains S nids r'))"

definition Relayer_processMessages ::
    "'d Store \<Rightarrow> ('d, 'w) Relayer \<Rightarrow> ('d, 'w) Relayer go" where
  "Relayer_processMessages S r = process_chains S (map fst (rl_chains r)) r"

subsection \<open>Blocks\<close>

definition Relayer_SaveBlockHeight ::
    "'d Store \<Rightarrow> string \<Rightarrow> u64 \<Rightarrow> nat \<Rightarrow> ('d, 'w) Relayer
       \<Rightarrow> (error option \<times> ('d, 'w) Relayer) go" where
  "Relayer_SaveBlockHeight S nid height messageCount r =
     (case chain_at r nid of
        None \<Rightarrow> None
      | Some c \<Rightarrow>
          if 0 < messageCount \<or> SaveHeightMaxAfter < height - LastSavedHeight c then
            (let r1 = upd_chain nid (\<lambda>c. c\<lparr>LastSavedHeight := height\<rparr>) r;
                 (err, d) = BlockStore_StoreBlock S prefixBlockStore (rl_db r1) height
                              (NID (cr_Provider c))
             in Some ((case err of
                         None \<Rightarrow> None
                       | Some e \<Rightarrow> Some (ErrMsg (''error while saving height of chain:''
                                      @ NID (cr_Provider c)))),
                      r1\<lparr>rl_db := d\<rparr>))
          else Some (None, r))"

definition Relayer_processBlockInfo ::
    "'d Store \<Rightarrow> string \<Rightarrow> BlockInfo \<Rightarrow> ('d, 'w) Relayer \<Rightarrow> ('d, 'w) Relayer go" where
  "Relayer_processBlockInfo S nid blockInfo r =
     (let r1 = upd_chain nid (\<lambda>c. c\<lparr>LastBlockHeight := bi_Height blockInfo\<rparr>) r in
      case Relayer_SaveBlockHeight S nid (bi_Height blockInfo)
             (length (bi_Messages blockInfo)) r1 of
        None \<Rightarrow> None
      | Some (err, r2) \<Rightarrow> Some (spawn (GoMerge nid (bi_Messages blockInfo)) r2))"

definition merge_into ::
    "string \<Rightarrow> Message option list \<Rightarrow> ('d, 'w) Relayer \<Rightarrow> ('d, 'w) Relayer go" where
  "merge_into nid ms r =
     (case chain_at r nid of
        None \<Rightarrow> None
      | Some c \<Rightarrow>
          (case mergeMessages ms (rl_heap r, cr_MessageCache c) of
             None \<Rightarrow> None
           | Some (h, mc) \<Rightarrow>
               Some (upd_chain nid (\<lambda>c. c\<lparr>cr_MessageCache := mc\<rparr>) (r\<lparr>rl_heap := h\<rparr>))))"

subsection \<open>Finality\<close>

text \<open>The body of the inner loop of \<open>CheckFinality\<close>, on one transaction object of one chain.\<close>

definition check_tx ::
    "'d Store \<Rightarrow> string \<Rightarrow> u64 \<Rightarrow> u64 \<Rightarrow> TransactionObject \<Rightarrow> ('d, 'w) Relayer
       \<Rightarrow> ('d, 'w) Relayer go" where
  "check_tx S nid finalityBlock latestHeight t r =
     (case chain_at r nid of
        None \<Rightarrow> None
      | Some c \<Rightarrow>
          if to_TxHeight t = 0 then Some r
          else if to_TxHeight t + finalityBlock > latestHeight then Some r
          else
            (case QueryTransactionReceipt (cr_Provider c) (rl_world r) (to_TxHash t) of
               Inl e \<Rightarrow> Some r
             | Inr None \<Rightarrow> None
             | Inr (Some receipt) \<Rightarrow>
                 (let key = mk_Key (to_Key t);
                      delete = FinalityStore_DeleteTxObject S prefixFinalityStore (rl_db r) key
                  in if rc_Status receipt then Some (r\<lparr>rl_db := snd delete\<rparr>)
                     else
                       (case chain_at r (key_Src key) of
                          None \<Rightarrow> Some r
                        | Some srcc \<Rightarrow>
                            (case delete of
                               (Some e, d) \<Rightarrow> Some (r\<lparr>rl_db := d\<rparr>)
                             | (None, d) \<Rightarrow>
                                 (case GenerateMessage (cr_Provider srcc) (rl_world r) (to_Key t) of
                                    (message, Some e) \<Rightarrow> Some (r\<lparr>rl_db := d\<rparr>)
                                  | (message, None) \<Rightarrow>
                                      merge_into (key_Src key) [message] (r\<lparr>rl_db := d\<rparr>)))))))"

fun check_txs ::
    "'d Store \<Rightarrow> string \<Rightarrow> u64 \<Rightarrow> u64 \<Rightarrow> TransactionObject list \<Rightarrow> ('d, 'w) Relayer
       \<Rightarrow> ('d, 'w) Relayer go" where
  "check_txs S nid fb lh [] r = Some r"
| "check_txs S nid fb lh (t # ts) r =
     (case check_tx S nid fb lh t r of
        None \<Rightarrow> None
      | Some r' \<Rightarrow> check_txs S nid fb lh ts r')"

fun check_chains ::
    "'d Store \<Rightarrow> string list \<Rightarrow> ('d, 'w) Relayer \<Rightarrow> ('d, 'w) Relayer go" where
  "check_chains S [] r = Some r"
| "check_chains S (nid # nids) r =
     (case chain_at r nid of
        None \<Rightarrow> None
      | Some c \<Rightarrow>
          (let finalityBlock = FinalityBlock (cr_Provider c) (rl_world r);
               latestHeight = LastBlockHeight c
           in if 0 < finalityBlock then
                (case FinalityStore_GetTxObjects S prefixFinalityStore (rl_db r)
                        (NID (cr_Provider c)) (Pagination_GetAll NewPagination) of
                   Inl e \<Rightarrow> check_chains S nids r
                 | Inr ts \<Rightarrow>
                     (case check_txs S nid finalityBlock latestHeight ts r of
                        None \<Rightarrow> None
                      | Some r' \<Rightarrow> check_chains S nids r'))
              else check_chains S nids r))"

definition Relayer_CheckFinality ::
    "'d Store \<Rightarrow> ('d, 'w) Relayer \<Rightarrow> ('d, 'w) Relayer go" where
  "Relayer_CheckFinality S r = check_chains S (map fst (rl_chains r)) r"

text \<open>\<open>Start\<close>, up to the goroutines it starts: the relayer, flushed unless it starts afresh.\<close>

definition Relayer_Start ::
    "'d Store \<Rightarrow> 'd \<Rightarrow> 'w \<Rightarrow> (string \<times> 'w Chain option) list \<Rightarrow> bool
       \<Rightarrow> (error + ('d, 'w) Relayer) go" where
  "Relayer_Start S db w cfg fresh =
     (case NewRelayer S db w cfg fresh of
        (Inl e, d) \<Rightarrow> Some (Inl (ErrMsg ''error creating new relayer''))
      | (Inr r, d) \<Rightarrow>
          if fresh then Some (Inr r) else map_option Inr (Relayer_flushMessages S r))"

end
