(* ===== verification/RelayFacts.thy ===== *)
theory RelayFacts
  imports Relay
begin

text \<open>
  What every handler of the relayer keeps. \<open>relayer_wf\<close> is the invariant of the state:
  runtimes are filed under the network id of their provider, caches are well formed over the
  shared heap, and goroutines point to chains and messages that exist. \<open>evolves\<close> is the
  frame: a handler never changes the set of chains, their providers, or the message inside a
  route message. \<open>keeps\<close> puts the two together; it is a preorder, so a handler keeps what its
  parts keep.
\<close>

definition heap_le :: "heap \<Rightarrow> heap \<Rightarrow> bool" where
  "heap_le h h' \<longleftrightarrow>
     (\<forall>a m. heap_get h a = Some m \<longrightarrow> (\<exists>m'. heap_get h' a = Some m' \<and> rm_Message m' = rm_Message m))"

definition msg_at :: "heap \<Rightarrow> addr \<Rightarrow> Message option" where
  "msg_at h a = Option.bind (heap_get h a) rm_Message"

fun go_ok :: "('d, 'w) Relayer \<Rightarrow> goroutine \<Rightarrow> bool" where
  "go_ok r (GoMerge nid ms) \<longleftrightarrow> chain_at r nid \<noteq> None"
| "go_ok r (GoRoute a dst src) \<longleftrightarrow>
     msg_at (rl_heap r) a \<noteq> None \<and> chain_at r dst \<noteq> None \<and> chain_at r src \<noteq> None"

definition caches_wf :: "('d, 'w) Relayer \<Rightarrow> bool" where
  "caches_wf r \<longleftrightarrow>
     (\<forall>n c. chain_at r n = Some c \<longrightarrow> NID (cr_Provider c) = n \<and> cache_wf (rl_heap r) (cr_MessageCache c))"

definition relayer_wf :: "('d, 'w) Relayer \<Rightarrow> bool" where
  "relayer_wf r \<longleftrightarrow> map_wf (rl_chains r) \<and> caches_wf r \<and> (\<forall>g \<in> set (rl_go r). go_ok r g)"

definition evolves :: "('d, 'w) Relayer \<Rightarrow> ('d, 'w) Relayer \<Rightarrow> bool" where
  "evolves r r' \<longleftrightarrow>
     heap_le (rl_heap r) (rl_heap r') \<and> map fst (rl_chains r') = map fst (rl_chains r) \<and>
     (\<forall>n. map_option cr_Provider (chain_at r' n) = map_option cr_Provider (chain_at r n))"

definition keeps :: "('d, 'w) Relayer \<Rightarrow> ('d, 'w) Relayer \<Rightarrow> bool" where
  "keeps r r' \<longleftrightarrow> (relayer_wf r \<longrightarrow> relayer_wf r' \<and> evolves r r')"

subsection \<open>The preorders\<close>

lemma heap_le_refl [simp]: "heap_le h h"
  by (simp add: heap_le_def)

lemma heap_le_trans: "heap_le h1 h2 \<Longrightarrow> heap_le h2 h3 \<Longrightarrow> heap_le h1 h3"
  unfolding heap_le_def by metis

lemma heap_le_upd: "(\<And>m. rm_Message (f m) = rm_Message m) \<Longrightarrow> heap_le h (heap_upd h a f)"
  by (auto simp: heap_le_def)

lemma heap_le_append [simp]: "heap_le h (h @ h')"
  by (auto simp: heap_le_def dest: heap_get_append_Some)

lemma msg_at_mono: "heap_le h h' \<Longrightarrow> msg_at h a = Some m \<Longrightarrow> msg_at h' a = Some m"
  by (fastforce simp: heap_le_def msg_at_def bind_eq_Some_conv)

lemma cache_wf_mono: "heap_le h h' \<Longrightarrow> cache_wf h c \<Longrightarrow> cache_wf h' c"
  by (fastforce simp: heap_le_def cache_wf_def list_all_iff RouteMessage_MessageKey_def)

lemma cache_wf_msg_at:
  assumes "cache_wf h c" and "map_get c k = Some a"
  obtains m where "msg_at h a = Some m" "Message_MessageKey m = k"
  using assms by (auto elim!: cache_wfD simp: msg_at_def)

lemma cache_wf_entry:
  assumes "cache_wf h c" and "(k, a) \<in> set c"
  obtains m where "msg_at h a = Some m" "Message_MessageKey m = k"
proof -
  have "map_get c k = Some a"
    using assms by (simp add: cache_wf_def map_wf_get_iff)
  with assms(1) show ?thesis
    by (auto elim: cache_wf_msg_at intro: that)
qed

lemma evolves_refl [simp]: "evolves r r"
  by (simp add: evolves_def)

lemma evolves_trans: "evolves r1 r2 \<Longrightarrow> evolves r2 r3 \<Longrightarrow> evolves r1 r3"
  by (auto simp: evolves_def intro: heap_le_trans)

lemma evolves_chain: "evolves r r' \<Longrightarrow> chain_at r' n = None \<longleftrightarrow> chain_at r n = None"
  by (auto simp: evolves_def) (metis option.map_disc_iff)+

lemma evolves_provider:
  "evolves r r' \<Longrightarrow> chain_at r n = Some c \<Longrightarrow> \<exists>c'. chain_at r' n = Some c' \<and> cr_Provider c' = cr_Provider c"
  by (auto simp: evolves_def) (metis (no_types, lifting) map_option_eq_Some option.simps(9))

lemma evolves_go_ok: "evolves r r' \<Longrightarrow> go_ok r g \<Longrightarrow> go_ok r' g"
  by (cases g) (auto simp: evolves_chain simp del: not_None_eq, auto simp: evolves_def dest: msg_at_mono)

lemma keeps_refl [simp]: "keeps r r"
  by (simp add: keeps_def)

lemma keeps_trans: "keeps r1 r2 \<Longrightarrow> keeps r2 r3 \<Longrightarrow> keeps r1 r3"
  by (auto simp: keeps_def intro: evolves_trans)

lemma keepsI:
  assumes "relayer_wf r \<Longrightarrow> evolves r r'" and "relayer_wf r \<Longrightarrow> caches_wf r'"
    and "rl_go r' = rl_go r"
  shows "keeps r r'"
  using assms by (auto simp: keeps_def relayer_wf_def evolves_def) (metis assms(1) evolves_go_ok relayer_wf_def)

lemma keepsD: "keeps r r' \<Longrightarrow> relayer_wf r \<Longrightarrow> relayer_wf r'"
  by (simp add: keeps_def)

lemma keeps_evolves: "keeps r r' \<Longrightarrow> relayer_wf r \<Longrightarrow> evolves r r'"
  by (simp add: keeps_def)

lemma relayer_wf_caches: "relayer_wf r \<Longrightarrow> chain_at r n = Some c \<Longrightarrow> cache_wf (rl_heap r) (cr_MessageCache c)"
  by (simp add: relayer_wf_def caches_wf_def)

lemma relayer_wf_NID: "relayer_wf r \<Longrightarrow> chain_at r n = Some c \<Longrightarrow> NID (cr_Provider c) = n"
  by (simp add: relayer_wf_def caches_wf_def)

lemma chain_at_keys: "n \<in> set (map fst (rl_chains r)) \<longleftrightarrow> chain_at r n \<noteq> None"
  by (auto simp: chain_at_def map_of_eq_None_iff)

subsection \<open>The elementary mutations\<close>

lemma keeps_db [simp, wf_intro]: "keeps r (r\<lparr>rl_db := d\<rparr>)"
  by (rule keepsI) (simp_all add: evolves_def caches_wf_def relayer_wf_def)

lemma relayer_wf_db [simp]: "relayer_wf (r\<lparr>rl_db := d\<rparr>) = relayer_wf r"
proof -
  have "go_ok (r\<lparr>rl_db := d\<rparr>) g = go_ok r g" for g
    by (cases g) simp_all
  then show ?thesis
    by (simp add: relayer_wf_def caches_wf_def)
qed

lemma keeps_world [simp, wf_intro]: "keeps r (r\<lparr>rl_world := w\<rparr>)"
  by (rule keepsI) (simp_all add: evolves_def caches_wf_def relayer_wf_def)

lemma keeps_chain [wf_intro]:
  assumes "\<And>c. cr_Provider (f c) = cr_Provider c"
    and "\<And>c. relayer_wf r \<Longrightarrow> chain_at r nid = Some c \<Longrightarrow> cache_wf (rl_heap r) (cr_MessageCache (f c))"
  shows "keeps r (upd_chain nid f r)"
proof (rule keepsI)
  have "map_option cr_Provider (chain_at (upd_chain nid f r) n) = map_option cr_Provider (chain_at r n)" for n
    using assms(1) by (cases "chain_at r n") auto
  then show "evolves r (upd_chain nid f r)"
    by (simp add: evolves_def)
  show "caches_wf (upd_chain nid f r)" if "relayer_wf r"
    using that assms by (auto simp: relayer_wf_def caches_wf_def)
qed simp

lemma keeps_heap [wf_intro]:
  assumes "\<And>m. rm_Message (f m) = rm_Message m"
  shows "keeps r (r\<lparr>rl_heap := heap_upd (rl_heap r) a f\<rparr>)"
  by (intro keepsI)
    (auto simp: evolves_def relayer_wf_def caches_wf_def
      intro: heap_le_upd [OF assms] cache_wf_mono [OF heap_le_upd [OF assms]])

lemma keeps_heap_append [wf_intro]: "keeps r (r\<lparr>rl_heap := rl_heap r @ h\<rparr>)"
  by (intro keepsI) (auto simp: evolves_def relayer_wf_def caches_wf_def intro: cache_wf_grow)

lemma keeps_spawn [wf_intro]: "(relayer_wf r \<Longrightarrow> go_ok r g) \<Longrightarrow> keeps r (spawn g r)"
proof -
  assume ok: "relayer_wf r \<Longrightarrow> go_ok r g"
  have ev: "evolves r (spawn g r)"
    by (simp add: evolves_def)
  show ?thesis
    using ok ev evolves_go_ok [OF ev]
    by (auto simp: keeps_def relayer_wf_def caches_wf_def)
qed

lemma keeps_go_remove: "rl_go r = xs @ g # ys \<Longrightarrow> keeps r (r\<lparr>rl_go := xs @ ys\<rparr>)"
proof -
  assume g: "rl_go r = xs @ g # ys"
  have ev: "evolves r (r\<lparr>rl_go := xs @ ys\<rparr>)"
    by (simp add: evolves_def)
  show ?thesis
    using g ev evolves_go_ok [OF ev] by (auto simp: keeps_def relayer_wf_def caches_wf_def)
qed

subsection \<open>The handlers\<close>

lemma keeps_clear_cache:
  "keeps r (upd_chain src (\<lambda>c. c\<lparr>cr_MessageCache := clearMessageFromCache ks (cr_MessageCache c)\<rparr>) r)"
  by (rule keeps_chain) (auto intro: cache_wf_clear relayer_wf_caches)

lemma ClearMessages_eq:
  "Relayer_ClearMessages S ks src r =
     (fst (delete_messages S ks (rl_db r)),
      (upd_chain src (\<lambda>c. c\<lparr>cr_MessageCache := clearMessageFromCache ks (cr_MessageCache c)\<rparr>) r)
        \<lparr>rl_db := snd (delete_messages S ks (rl_db r))\<rparr>)"
  by (simp add: Relayer_ClearMessages_def Let_def case_prod_unfold)

lemma keeps_ClearMessages [wf_intro]: "keeps r (snd (Relayer_ClearMessages S ks src r))"
  unfolding ClearMessages_eq snd_conv by (rule keeps_trans [OF keeps_clear_cache keeps_db])

lemma keeps_HandleMessageFailed [wf_intro]:
  assumes "Relayer_HandleMessageFailed S a src r = Some r'"
  shows "keeps r r'"
proof -
  obtain m0 where a: "heap_get (rl_heap r) a = Some m0"
    using assms by (auto simp: Relayer_HandleMessageFailed_def split: option.splits)
  define r1 where "r1 = r\<lparr>rl_heap := heap_upd (rl_heap r) a (\<lambda>_. RouteMessage_SetIsProcessing m0 False)\<rparr>"
  have "r1 = r\<lparr>rl_heap := heap_upd (rl_heap r) a (\<lambda>m. RouteMessage_SetIsProcessing m False)\<rparr>"
    using a by (auto simp: r1_def heap_upd_def heap_get_def split: if_splits)
  then have 1: "keeps r r1"
    by (simp add: keeps_heap RouteMessage_SetIsProcessing_def)
  have "keeps r1 (upd_chain src (\<lambda>c. c\<lparr>cr_MessageCache := MessageCache_Remove (cr_MessageCache c) k\<rparr>) (r1\<lparr>rl_db := d\<rparr>))"
    for k d
    by (rule keeps_trans [OF keeps_db keeps_chain]) (auto intro: cache_wf_Remove relayer_wf_caches)
  then have "keeps r1 r'"
    using assms unfolding Relayer_HandleMessageFailed_def a option.case Let_def r1_def [symmetric]
    by (auto split: if_splits option.splits)
  with 1 show ?thesis
    by (rule keeps_trans)
qed

lemma keeps_callback [wf_intro]:
  assumes "Relayer_callback S dst src key response r = Some r'"
  shows "keeps r r'"
  using assms unfolding Relayer_callback_def
  by (auto simp: Let_def split: option.splits if_splits prod.splits
      intro: keeps_ClearMessages keeps_HandleMessageFailed keeps_trans [OF keeps_db keeps_ClearMessages])

lemma keeps_run_callbacks: "run_callbacks S dst src cbs r = Some r' \<Longrightarrow> keeps r r'"
proof (induction cbs arbitrary: r)
  case (Cons cb cbs)
  obtain key response err where cb: "cb = (key, response, err)"
    by (cases cb)
  with Cons.prems obtain r1 where "Relayer_callback S dst src key response r = Some r1"
    "run_callbacks S dst src cbs r1 = Some r'"
    by (auto split: option.splits)
  then show ?case
    using Cons.IH keeps_callback keeps_trans by blast
qed simp

lemma keeps_mark_route: "keeps r (mark_route a r)"
  unfolding mark_route_def
  by (rule keeps_heap) (simp add: RouteMessage_IncrementRetry_def RouteMessage_SetIsProcessing_def)

lemma keeps_RouteMessage [wf_intro]:
  assumes "Relayer_RouteMessage S a dst src r = Some r'"
  shows "keeps r r'"
proof -
  obtain cbs w r2 err where "run_callbacks S dst src cbs ((mark_route a r)\<lparr>rl_world := w\<rparr>) = Some r2"
    and "r' = r2 \<or> Relayer_HandleMessageFailed S a src r2 = Some r'"
    using assms unfolding Relayer_RouteMessage_def Let_def by (auto split: option.splits prod.splits)
  then have "keeps ((mark_route a r)\<lparr>rl_world := w\<rparr>) r'"
    by (auto intro: keeps_run_callbacks keeps_trans [OF keeps_run_callbacks keeps_HandleMessageFailed])
  then show ?thesis
    by (rule keeps_trans [OF keeps_trans [OF keeps_mark_route keeps_world]])
qed

lemma keeps_process_message [wf_intro]:
  assumes "process_message S src a r = Some r'"
  shows "keeps r r'"
proof -
  have "keeps r (spawn (GoRoute a (msg_Dst m) src) r)"
    if "heap_get (rl_heap r) a = Some rm" "rm_Message rm = Some m" "chain_at r src = Some sc"
      "Relayer_FindChainRuntime r (msg_Dst m) = Inr dc" for rm m sc dc
    using that
    by (intro keeps_spawn) (auto simp: msg_at_def Relayer_FindChainRuntime_def split: option.splits)
  then show ?thesis
    using assms unfolding process_message_def
    by (auto split: option.splits sum.splits prod.splits bool.splits intro: keeps_ClearMessages)
qed

lemma keeps_process_entries: "process_entries S src as r = Some r' \<Longrightarrow> keeps r r'"
  by (induction as arbitrary: r)
    (auto split: option.splits intro: keeps_trans [OF keeps_process_message])

lemma keeps_process_chains: "process_chains S nids r = Some r' \<Longrightarrow> keeps r r'"
  by (induction nids arbitrary: r)
    (auto split: option.splits intro: keeps_trans [OF keeps_process_entries])

lemma keeps_processMessages [wf_intro]: "Relayer_processMessages S r = Some r' \<Longrightarrow> keeps r r'"
  unfolding Relayer_processMessages_def by (rule keeps_process_chains)

lemma keeps_SaveBlockHeight [wf_intro]:
  assumes "Relayer_SaveBlockHeight S nid h n r = Some (err, r')"
  shows "keeps r r'"
proof -
  have "keeps r ((upd_chain nid (\<lambda>c. c\<lparr>LastSavedHeight := h\<rparr>) r)\<lparr>rl_db := d\<rparr>)" for d
    by (rule keeps_trans [OF keeps_chain keeps_db]) (auto intro: relayer_wf_caches)
  then show ?thesis
    using assms unfolding Relayer_SaveBlockHeight_def
    by (auto simp: Let_def split: option.splits if_splits prod.splits)
qed

lemma keeps_processBlockInfo [wf_intro]:
  assumes "Relayer_processBlockInfo S nid b r = Some r'"
  shows "keeps r r'"
proof -
  define r1 where "r1 = upd_chain nid (\<lambda>c. c\<lparr>LastBlockHeight := bi_Height b\<rparr>) r"
  obtain err r2 where r2: "Relayer_SaveBlockHeight S nid (bi_Height b) (length (bi_Messages b)) r1 = Some (err, r2)"
    and r': "r' = spawn (GoMerge nid (bi_Messages b)) r2"
    using assms unfolding Relayer_processBlockInfo_def r1_def by (auto simp: Let_def split: option.splits)
  have 1: "keeps r r1"
    unfolding r1_def by (rule keeps_chain) (auto intro: relayer_wf_caches)
  have 2: "keeps r1 r2"
    using r2 by (rule keeps_SaveBlockHeight)
  have "chain_at r2 nid \<noteq> None"
    using r2 by (auto simp: Relayer_SaveBlockHeight_def Let_def split: option.splits if_splits prod.splits)
  then have "keeps r2 r'"
    unfolding r' by (intro keeps_spawn) simp
  with 1 2 show ?thesis
    by (blast intro: keeps_trans)
qed

text \<open>Adding new route messages to the cache of one chain: what merging and flushing do.\<close>

definition add_to_chain ::
    "string \<Rightarrow> RouteMessage list \<Rightarrow> ('d, 'w) Relayer \<Rightarrow> ('d, 'w) Relayer go" where
  "add_to_chain nid rs r =
     (case chain_at r nid of
        None \<Rightarrow> None
      | Some c \<Rightarrow>
          (case add_all rs (rl_heap r, cr_MessageCache c) of
             None \<Rightarrow> None
           | Some (h, mc) \<Rightarrow>
               Some (upd_chain nid (\<lambda>c. c\<lparr>cr_MessageCache := mc\<rparr>) (r\<lparr>rl_heap := h\<rparr>))))"

lemma merge_into_add: "merge_into nid ms r = add_to_chain nid (map NewRouteMessage ms) r"
  unfolding merge_into_def add_to_chain_def mergeMessages_add_all ..

lemma add_to_chain_None:
  "\<exists>x \<in> set rs. rm_Message x = None \<Longrightarrow> add_to_chain nid rs r = None"
  by (simp add: add_to_chain_def add_all_nil split: option.split)

lemma relayer_wf_heap_append [simp]:
  "relayer_wf r \<Longrightarrow> relayer_wf (r\<lparr>rl_heap := rl_heap r @ h\<rparr>)"
  using keeps_heap_append keepsD by blast

text \<open>The messages in the cache of a chain: the abstract state of one runtime.\<close>

definition cached :: "('d, 'w) Relayer \<Rightarrow> string \<Rightarrow> MessageKey \<Rightarrow> RouteMessage option" where
  "cached r nid =
     (case chain_at r nid of
        None \<Rightarrow> Map.empty
      | Some c \<Rightarrow> cache_view (rl_heap r) (cr_MessageCache c))"

lemma add_to_chain_ok:
  assumes wf: "relayer_wf r" and c: "chain_at r nid \<noteq> None" and rs: "\<forall>x \<in> set rs. rm_Message x \<noteq> None"
  obtains r' where "add_to_chain nid rs r = Some r'" and "keeps r r'"
    and "rl_heap r' = rl_heap r @ rs" and "rl_db r' = rl_db r" and "rl_world r' = rl_world r"
    and "rl_go r' = rl_go r"
    and "cached r' = (cached r)(nid := cached r nid ++ map_of (rev (route_entries rs)))"
    and "\<And>n. map_option LastSavedHeight (chain_at r' n) = map_option LastSavedHeight (chain_at r n)"
    and "\<And>n. map_option LastBlockHeight (chain_at r' n) = map_option LastBlockHeight (chain_at r n)"
proof -
  obtain c where c: "chain_at r nid = Some c"
    using c by blast
  have cwf: "cache_wf (rl_heap r) (cr_MessageCache c)"
    using wf c by (rule relayer_wf_caches)
  obtain mc where add: "add_all rs (rl_heap r, cr_MessageCache c) = Some (rl_heap r @ rs, mc)"
    and mc: "cache_wf (rl_heap r @ rs) mc"
    and view: "cache_view (rl_heap r @ rs) mc
      = cache_view (rl_heap r) (cr_MessageCache c) ++ map_of (rev (route_entries rs))"
    using add_all_ok [OF cwf rs] by blast
  define r' where
    "r' = upd_chain nid (\<lambda>c. c\<lparr>cr_MessageCache := mc\<rparr>) (r\<lparr>rl_heap := rl_heap r @ rs\<rparr>)"
  show ?thesis
  proof (rule that [of r'])
    show "add_to_chain nid rs r = Some r'"
      by (simp add: add_to_chain_def c add r'_def)
    show "keeps r r'"
      unfolding r'_def by (rule keeps_trans [OF keeps_heap_append keeps_chain]) (simp_all add: mc)
    show "rl_heap r' = rl_heap r @ rs" "rl_db r' = rl_db r" "rl_world r' = rl_world r"
      "rl_go r' = rl_go r"
      by (simp_all add: r'_def)
    have "cached r' n = ((cached r)(nid := cached r nid ++ map_of (rev (route_entries rs)))) n" for n
    proof (cases "chain_at r n")
      case (Some cn)
      then have "cache_view (rl_heap r @ rs) (cr_MessageCache cn) = cache_view (rl_heap r) (cr_MessageCache cn)"
        using wf by (intro cache_view_grow relayer_wf_caches)
      with Some c view show ?thesis
        by (simp add: cached_def r'_def)
    qed (use c in \<open>auto simp: cached_def r'_def\<close>)
    then show "cached r' = (cached r)(nid := cached r nid ++ map_of (rev (route_entries rs)))"
      by blast
    show "map_option LastSavedHeight (chain_at r' n) = map_option LastSavedHeight (chain_at r n)"
      "map_option LastBlockHeight (chain_at r' n) = map_option LastBlockHeight (chain_at r n)" for n
      using c by (auto simp: r'_def)
  qed
qed

lemma keeps_add_to_chain:
  assumes "add_to_chain nid rs r = Some r'"
  shows "keeps r r'"
proof (cases "relayer_wf r")
  case True
  have "chain_at r nid \<noteq> None"
    using assms by (auto simp: add_to_chain_def split: option.splits)
  moreover have "\<forall>x \<in> set rs. rm_Message x \<noteq> None"
    using assms add_to_chain_None [of rs nid r] by (metis option.distinct(1))
  ultimately show ?thesis
    using add_to_chain_ok [OF True] assms by (metis option.inject)
qed (simp add: keeps_def)

lemma keeps_merge_into [wf_intro]: "merge_into nid ms r = Some r' \<Longrightarrow> keeps r r'"
  unfolding merge_into_add by (rule keeps_add_to_chain)

text \<open>One chain of a flush.\<close>

lemma flush_chains_step:
  "flush_chains S (nid # nids) r =
     (case chain_at r nid of
        None \<Rightarrow> None
      | Some c \<Rightarrow>
          (case Relayer_getActiveMessagesFromStore S (rl_db r) (NID (cr_Provider c)) maxFlushMessage of
             Inl e \<Rightarrow> flush_chains S nids r
           | Inr messages \<Rightarrow>
               (case add_to_chain nid messages r of
                  None \<Rightarrow> None
                | Some r' \<Rightarrow> flush_chains S nids r')))"
  by (auto simp: add_to_chain_def split: option.split sum.split prod.split)

lemma keeps_flush_chains: "flush_chains S nids r = Some r' \<Longrightarrow> keeps r r'"
proof (induction nids arbitrary: r)
  case (Cons nid nids)
  then show ?case
    unfolding flush_chains_step
    by (auto split: option.splits sum.splits intro: keeps_trans [OF keeps_add_to_chain])
qed simp

lemma keeps_flushMessages [wf_intro]: "Relayer_flushMessages S r = Some r' \<Longrightarrow> keeps r r'"
  unfolding Relayer_flushMessages_def
  by (auto simp: Let_def keeps_flush_chains split: if_splits sum.splits)

lemma keeps_check_tx [wf_intro]:
  assumes "check_tx S nid fb lh t r = Some r'"
  shows "keeps r r'"
  using assms unfolding check_tx_def
  by (auto simp: Let_def split: option.splits sum.splits if_splits prod.splits
      intro: keeps_trans [OF keeps_db keeps_merge_into])

lemma keeps_check_txs: "check_txs S nid fb lh ts r = Some r' \<Longrightarrow> keeps r r'"
  by (induction ts arbitrary: r) (auto split: option.splits intro: keeps_trans [OF keeps_check_tx])

lemma keeps_check_chains: "check_chains S nids r = Some r' \<Longrightarrow> keeps r r'"
  by (induction nids arbitrary: r)
    (auto simp: Let_def split: option.splits sum.splits if_splits
      intro: keeps_trans [OF keeps_check_txs])

lemma keeps_CheckFinality [wf_intro]: "Relayer_CheckFinality S r = Some r' \<Longrightarrow> keeps r r'"
  unfolding Relayer_CheckFinality_def by (rule keeps_check_chains)

subsection \<open>No handler panics on a well-formed state\<close>

lemma HandleMessageFailed_total:
  assumes "msg_at (rl_heap r) a \<noteq> None"
  shows "\<exists>r'. Relayer_HandleMessageFailed S a src r = Some r'"
  using assms
  by (auto simp: Relayer_HandleMessageFailed_def msg_at_def MessageStore_StoreMessage_def Let_def
      bind_eq_Some_conv RouteMessage_SetIsProcessing_def RouteMessage_MessageKey_def
      split: option.splits prod.splits)

lemma callback_total:
  assumes wf: "relayer_wf r" and "chain_at r dst \<noteq> None" and "chain_at r src \<noteq> None"
  shows "\<exists>r'. Relayer_callback S dst src key response r = Some r'"
proof -
  obtain dstc srcc where c: "chain_at r dst = Some dstc" "chain_at r src = Some srcc"
    using assms(2,3) by blast
  show ?thesis
  proof (cases "map_get (cr_MessageCache srcc) key")
    case None
    then show ?thesis
      by (simp add: Relayer_callback_def c)
  next
    case (Some a)
    then obtain m where m: "msg_at (rl_heap r) a = Some m"
      using relayer_wf_caches [OF wf c(2)] by (auto elim: cache_wf_msg_at)
    then have "Option.bind (heap_get (rl_heap r) a) RouteMessage_GetMessage = Some m"
      by (simp add: msg_at_def RouteMessage_GetMessage_def bind_eq_Some_conv)
    moreover have "\<exists>r'. Relayer_HandleMessageFailed S a src r = Some r'"
      using m by (intro HandleMessageFailed_total) simp
    ultimately show ?thesis
      by (auto simp: Relayer_callback_def c Some Let_def split: prod.split option.split)
  qed
qed

lemma process_message_total:
  assumes "msg_at (rl_heap r) a \<noteq> None" and "chain_at r src \<noteq> None"
  shows "\<exists>r'. process_message S src a r = Some r'"
proof -
  obtain rm m srcc where rm: "heap_get (rl_heap r) a = Some rm" "rm_Message rm = Some m"
    "chain_at r src = Some srcc"
    using assms by (auto simp: msg_at_def bind_eq_Some_conv)
  have "\<exists>b. shouldSendMessage (rl_world r) dstc (Some rm) srcc = Some b" for dstc
    using rm(2) by (rule shouldSendMessage_total)
  then have send: "shouldSendMessage (rl_world r) dstc (Some rm) srcc = None \<longleftrightarrow> False" for dstc
    by (metis option.distinct(1))
  show ?thesis
  proof (cases "Relayer_FindChainRuntime r (msg_Dst m)")
    case (Inr dstc)
    then show ?thesis
      by (cases "shouldSendMessage (rl_world r) dstc (Some rm) srcc")
        (auto simp: process_message_def rm send split: prod.split option.split bool.split)
  qed (simp add: process_message_def rm)
qed

lemma processBlockInfo_total:
  "chain_at r nid \<noteq> None \<Longrightarrow> \<exists>r'. Relayer_processBlockInfo S nid b r = Some r'"
  by (auto simp: Relayer_processBlockInfo_def Relayer_SaveBlockHeight_def Let_def
      split: prod.split option.split)

lemma merge_into_total:
  assumes "relayer_wf r" and "chain_at r nid \<noteq> None" and "None \<notin> set ms"
  shows "\<exists>r'. merge_into nid ms r = Some r'"
proof -
  have "\<forall>x \<in> set (map NewRouteMessage ms). rm_Message x \<noteq> None"
    using assms(3) by (auto simp: NewRouteMessage_def) (metis not_None_eq)
  then show ?thesis
    unfolding merge_into_add by (metis add_to_chain_ok [OF assms(1,2)])
qed

end
