(* ===== verification/RelayDb.thy ===== *)
theory RelayDb
  imports RelayFacts
begin

text \<open>
  The relayer and its database, over any reliable \<open>Store\<close>. \<open>db_ok\<close> says that the three stores
  have the database to themselves, \<open>heights_ok\<close> that the height a runtime remembers as saved is
  the one in the database and that the last block is at most \<open>SaveHeightMaxAfter\<close> ahead of it.
  \<open>calm\<close> is what every handler but the one for blocks leaves alone.
\<close>

subsection \<open>The three stores share the database\<close>

abbreviation bs_heights :: "(string \<Rightarrow> string option) \<Rightarrow> string \<Rightarrow> u64 option" where
  "bs_heights \<equiv> bs_stored prefixBlockStore"

abbreviation failed_msgs :: "(string \<Rightarrow> string option) \<Rightarrow> string \<times> u64 \<Rightarrow> RouteMessage option" where
  "failed_msgs \<equiv> ms_stored prefixMessageStore"

abbreviation pending_txs :: "(string \<Rightarrow> string option) \<Rightarrow> string \<times> u64 \<Rightarrow> TransactionObject option" where
  "pending_txs \<equiv> fs_stored prefixFinalityStore"

abbreviation db_ok :: "(string \<Rightarrow> string option) \<Rightarrow> bool" where
  "db_ok \<equiv> ms_clean prefixMessageStore"

lemma store_keys_apart [simp]:
  "MessageStore_key prefixMessageStore src sn \<noteq> BlockStore_GetKey prefixBlockStore n"
  "BlockStore_GetKey prefixBlockStore n \<noteq> MessageStore_key prefixMessageStore src sn"
  "fs_key prefixFinalityStore i \<noteq> BlockStore_GetKey prefixBlockStore n"
  "BlockStore_GetKey prefixBlockStore n \<noteq> fs_key prefixFinalityStore i"
  "fs_key prefixFinalityStore i \<noteq> MessageStore_key prefixMessageStore src sn"
  "MessageStore_key prefixMessageStore src sn \<noteq> fs_key prefixFinalityStore i"
  "\<not> prefix prefixMessageStore (BlockStore_GetKey prefixBlockStore n)"
  "\<not> prefix prefixMessageStore (fs_key prefixFinalityStore i)"
  by (simp_all add: MessageStore_key_def BlockStore_GetKey_def fs_key_def FinalityStore_key_def
      GetKey_3 GetKey_2 prefixMessageStore_def prefixBlockStore_def prefixFinalityStore_def)

lemma stored_frame: "(\<And>i. v' (key i) = v (key i)) \<Longrightarrow> stored key dec v' = stored key dec v"
  by (simp add: stored_def fun_eq_iff)

definition db_quiet :: "(string \<Rightarrow> string option) \<Rightarrow> (string \<Rightarrow> string option) \<Rightarrow> bool" where
  "db_quiet v v' \<longleftrightarrow> (db_ok v \<longrightarrow> db_ok v') \<and> bs_heights v' = bs_heights v"

lemma db_quiet_refl [simp]: "db_quiet v v"
  by (simp add: db_quiet_def)

lemma db_quiet_trans: "db_quiet v1 v2 \<Longrightarrow> db_quiet v2 v3 \<Longrightarrow> db_quiet v1 v3"
  by (simp add: db_quiet_def)

lemma db_quiet_message:
  assumes "rm_Message r = Some m"
  shows "db_quiet v (v(MessageStore_key prefixMessageStore (msg_Src m) (msg_Sn m) \<mapsto> marshal_RouteMessage r))"
  unfolding db_quiet_def bs_stored_def
  by (intro conjI impI ms_clean_upd stored_frame assms) auto

lemma db_quiet_delete_message:
  "db_quiet v (v(MessageStore_key prefixMessageStore src sn := None))"
  unfolding db_quiet_def bs_stored_def by (intro conjI impI ms_clean_del stored_frame) auto

lemma db_quiet_tx: "db_quiet v (v(fs_key prefixFinalityStore i := x))"
  unfolding db_quiet_def bs_stored_def by (intro conjI impI ms_clean_other stored_frame) auto

context kv_reliable
begin

lemma quiet_StoreMessage:
  assumes "MessageStore_StoreMessage S prefixMessageStore d (Some r) = Some (err, d')"
  shows "err = None \<and> db_quiet (view d) (view d')"
proof -
  obtain m where m: "rm_Message r = Some m"
    using assms by (auto simp: MessageStore_StoreMessage_def split: option.splits)
  then have "(err, d') = SetByKey S d (ms_key prefixMessageStore (msg_Src m, msg_Sn m)) (marshal_RouteMessage r)"
    using assms by (simp add: StoreMessage_eq)
  then show ?thesis
    using set_total set_view db_quiet_message [OF m] by (metis fst_conv ms_key_def snd_conv)
qed

lemma quiet_DeleteMessage:
  "MessageStore_DeleteMessage S prefixMessageStore d k = (err, d')
     \<Longrightarrow> err = None \<and> db_quiet (view d) (view d')"
  unfolding MessageStore_DeleteMessage_def
  by (metis delete_total delete_view db_quiet_delete_message fst_conv snd_conv)

lemma quiet_StoreTxObject:
  "FinalityStore_StoreTxObject S prefixFinalityStore d (Some t) = (err, d')
     \<Longrightarrow> err = None \<and> db_quiet (view d) (view d')"
  using StoreTxObject_ok [of prefixFinalityStore d t] db_quiet_tx by (metis prod.inject)

lemma quiet_DeleteTxObject:
  "FinalityStore_DeleteTxObject S prefixFinalityStore d k = (err, d')
     \<Longrightarrow> err = None \<and> db_quiet (view d) (view d')"
  using DeleteTxObject_ok [of prefixFinalityStore d k] db_quiet_tx by (metis prod.inject)

lemma delete_messages_ok:
  "fst (delete_messages S ks d) = None \<and> db_quiet (view d) (view (snd (delete_messages S ks d)))"
proof (induction ks arbitrary: d)
  case (Cons k ks)
  obtain err d' where d': "MessageStore_DeleteMessage S prefixMessageStore d k = (err, d')"
    by fastforce
  then have "err = None" "db_quiet (view d) (view d')"
    using quiet_DeleteMessage by blast+
  with d' Cons.IH [of d'] show ?case
    by (auto intro: db_quiet_trans)
qed simp

text \<open>What clearing removes from the store of failed messages: the same keys, without their destination.\<close>

lemma delete_messages_stored:
  "failed_msgs (view (snd (delete_messages S ks d)))
     = failed_msgs (view d) |` (- (\<lambda>k. (key_Src k, key_Sn k)) ` set ks)"
proof (induction ks arbitrary: d)
  case (Cons k ks)
  obtain d' where d': "MessageStore_DeleteMessage S prefixMessageStore d k = (None, d')"
    "failed_msgs (view d') = (failed_msgs (view d))((key_Src k, key_Sn k) := None)"
    by (rule DeleteMessage_ok)
  show ?case
    by (simp add: d' Cons.IH) (auto simp: restrict_map_def fun_eq_iff)
qed (simp add: restrict_map_def)

end

subsection \<open>Heights\<close>

definition chain_heights :: "('d, 'w) Relayer \<Rightarrow> string \<Rightarrow> (u64 \<times> u64) option" where
  "chain_heights r n = map_option (\<lambda>c. (LastSavedHeight c, LastBlockHeight c)) (chain_at r n)"

definition heights_ok :: "('d \<Rightarrow> string \<Rightarrow> string option) \<Rightarrow> ('d, 'w) Relayer \<Rightarrow> bool" where
  "heights_ok view r \<longleftrightarrow>
     (\<forall>n saved last. chain_heights r n = Some (saved, last) \<longrightarrow>
        saved = (case bs_heights (view (rl_db r)) n of None \<Rightarrow> 0 | Some h \<Rightarrow> h) \<and>
        (last \<noteq> 0 \<longrightarrow> last - saved \<le> SaveHeightMaxAfter))"

definition calm ::
    "('d \<Rightarrow> string \<Rightarrow> string option) \<Rightarrow> ('d, 'w) Relayer \<Rightarrow> ('d, 'w) Relayer \<Rightarrow> bool" where
  "calm view r r' \<longleftrightarrow>
     db_quiet (view (rl_db r)) (view (rl_db r')) \<and> chain_heights r' = chain_heights r"

lemma calm_refl [simp]: "calm view r r"
  by (simp add: calm_def)

lemma calm_trans: "calm view r1 r2 \<Longrightarrow> calm view r2 r3 \<Longrightarrow> calm view r1 r3"
  by (auto simp: calm_def intro: db_quiet_trans)

lemma calm_heights: "calm view r r' \<Longrightarrow> heights_ok view r \<Longrightarrow> heights_ok view r'"
  by (simp add: calm_def heights_ok_def db_quiet_def)

lemma calm_db_ok: "calm view r r' \<Longrightarrow> db_ok (view (rl_db r)) \<Longrightarrow> db_ok (view (rl_db r'))"
  by (simp add: calm_def db_quiet_def)

lemma chain_heights_simps [simp]:
  "chain_heights (r\<lparr>rl_db := d\<rparr>) = chain_heights r"
  "chain_heights (r\<lparr>rl_heap := h\<rparr>) = chain_heights r"
  "chain_heights (r\<lparr>rl_world := w\<rparr>) = chain_heights r"
  "chain_heights (r\<lparr>rl_go := g\<rparr>) = chain_heights r"
  "chain_heights (spawn x r) = chain_heights r"
  "chain_heights (upd_chain n (\<lambda>c. c\<lparr>cr_MessageCache := f c\<rparr>) r) = chain_heights r"
  by (auto simp: chain_heights_def fun_eq_iff option.map_comp comp_def)

lemma calm_other [simp]:
  "calm view r (r\<lparr>rl_heap := h\<rparr>)"
  "calm view r (r\<lparr>rl_world := w\<rparr>)"
  "calm view r (r\<lparr>rl_go := g\<rparr>)"
  "calm view r (spawn x r)"
  "calm view r (upd_chain n (\<lambda>c. c\<lparr>cr_MessageCache := f c\<rparr>) r)"
  by (simp_all add: calm_def)

lemma calm_db: "db_quiet (view (rl_db r)) (view d) \<Longrightarrow> calm view r (r\<lparr>rl_db := d\<rparr>)"
  by (simp add: calm_def)

lemma calm_add_to_chain: "add_to_chain nid rs r = Some r' \<Longrightarrow> calm view r r'"
  by (auto simp: add_to_chain_def calm_def split: option.splits)

lemma calm_merge_into: "merge_into nid ms r = Some r' \<Longrightarrow> calm view r r'"
  unfolding merge_into_add by (rule calm_add_to_chain)

lemma calm_flush_chains: "flush_chains S nids r = Some r' \<Longrightarrow> calm view r r'"
proof (induction nids arbitrary: r)
  case (Cons nid nids)
  then show ?case
    unfolding flush_chains_step
    by (auto split: option.splits sum.splits intro: calm_trans [OF calm_add_to_chain])
qed simp

lemma calm_flushMessages: "Relayer_flushMessages S r = Some r' \<Longrightarrow> calm view r r'"
  unfolding Relayer_flushMessages_def
  by (auto simp: Let_def calm_flush_chains split: if_splits sum.splits)

context kv_reliable
begin

lemma calm_ClearMessages: "calm view r (snd (Relayer_ClearMessages S ks src r))"
  unfolding ClearMessages_eq snd_conv
  by (rule calm_trans [OF calm_other(5) calm_db]) (simp add: delete_messages_ok)

lemma ClearMessages_no_error: "fst (Relayer_ClearMessages S ks src r) = None"
  by (simp add: ClearMessages_eq delete_messages_ok)

lemma calm_HandleMessageFailed:
  assumes "Relayer_HandleMessageFailed S a src r = Some r'"
  shows "calm view r r'"
proof -
  have "calm view r (r\<lparr>rl_heap := h, rl_db := d\<rparr>)"
    if "MessageStore_StoreMessage S prefixMessageStore (rl_db r) (Some m) = Some (err, d)" for h m d err
    using quiet_StoreMessage [OF that] by (simp add: calm_def)
  moreover have "calm view r (upd_chain src (\<lambda>c. c\<lparr>cr_MessageCache := f c\<rparr>) (r\<lparr>rl_heap := h, rl_db := d\<rparr>))"
    if "MessageStore_StoreMessage S prefixMessageStore (rl_db r) (Some m) = Some (err, d)" for h m d err f
    using quiet_StoreMessage [OF that] by (simp add: calm_def)
  ultimately show ?thesis
    using assms unfolding Relayer_HandleMessageFailed_def
    by (auto simp: Let_def split: option.splits if_splits prod.splits)
qed

lemma calm_StoreTxObject:
  "FinalityStore_StoreTxObject S prefixFinalityStore (rl_db r) (Some t) = (err, d)
     \<Longrightarrow> calm view r (r\<lparr>rl_db := d\<rparr>)"
  using quiet_StoreTxObject by (blast intro: calm_db)

lemma calm_callback:
  assumes "Relayer_callback S dst src key response r = Some r'"
  shows "calm view r r'"
  using assms unfolding Relayer_callback_def
  by (auto simp: Let_def split: option.splits if_splits prod.splits
      intro: calm_ClearMessages calm_HandleMessageFailed calm_StoreTxObject
        calm_trans [OF calm_StoreTxObject calm_ClearMessages])

lemma calm_process_message:
  "process_message S src a r = Some r' \<Longrightarrow> calm view r r'"
  unfolding process_message_def
  by (auto split: option.splits sum.splits prod.splits bool.splits intro: calm_ClearMessages)

lemma calm_DeleteTxObject:
  "FinalityStore_DeleteTxObject S prefixFinalityStore (rl_db r) k = (err, d)
     \<Longrightarrow> calm view r (r\<lparr>rl_db := d\<rparr>)"
  using quiet_DeleteTxObject by (blast intro: calm_db)

lemma calm_DeleteTxObject_snd:
  "calm view r (r\<lparr>rl_db := snd (FinalityStore_DeleteTxObject S prefixFinalityStore (rl_db r) k)\<rparr>)"
  by (rule calm_DeleteTxObject) (rule prod.collapse [symmetric])

lemma calm_check_tx:
  assumes "check_tx S nid fb lh t r = Some r'"
  shows "calm view r r'"
  using assms unfolding check_tx_def
  by (auto simp: Let_def split: option.splits sum.splits if_splits prod.splits
      intro: calm_DeleteTxObject_snd calm_DeleteTxObject calm_trans [OF calm_DeleteTxObject calm_merge_into])

text \<open>The handler for blocks: the saved height follows the last block within its bound.\<close>

lemma SaveBlockHeight_ok:
  assumes "chain_at r nid = Some c"
  obtains r' where "Relayer_SaveBlockHeight S nid h n r = Some (None, r')"
    and "chain_heights r' =
      (if 0 < n \<or> SaveHeightMaxAfter < h - LastSavedHeight c
       then (chain_heights r)(nid \<mapsto> (h, LastBlockHeight c)) else chain_heights r)"
    and "bs_heights (view (rl_db r')) =
      (if 0 < n \<or> SaveHeightMaxAfter < h - LastSavedHeight c
       then (bs_heights (view (rl_db r)))(NID (cr_Provider c) \<mapsto> h) else bs_heights (view (rl_db r)))"
    and "db_ok (view (rl_db r)) \<Longrightarrow> db_ok (view (rl_db r'))"
proof (cases "0 < n \<or> SaveHeightMaxAfter < h - LastSavedHeight c")
  case True
  let ?r1 = "upd_chain nid (\<lambda>c. c\<lparr>LastSavedHeight := h\<rparr>) r"
  obtain d' where d': "BlockStore_StoreBlock S prefixBlockStore (rl_db r) h (NID (cr_Provider c)) = (None, d')"
    "bs_heights (view d') = (bs_heights (view (rl_db r)))(NID (cr_Provider c) \<mapsto> h)"
    "view d' = (view (rl_db r))(BlockStore_GetKey prefixBlockStore (NID (cr_Provider c)) \<mapsto> marshal_height h)"
    by (rule StoreBlock_ok)
  have "chain_heights (?r1\<lparr>rl_db := d'\<rparr>) = (chain_heights r)(nid \<mapsto> (h, LastBlockHeight c))"
    using assms by (auto simp: chain_heights_def fun_eq_iff)
  moreover have "db_ok (view d')" if "db_ok (view (rl_db r))"
    unfolding d'(3) using that by (rule ms_clean_other) simp
  ultimately show ?thesis
    using True d'(1,2) assms
    by (intro that [of "?r1\<lparr>rl_db := d'\<rparr>"]) (simp_all add: Relayer_SaveBlockHeight_def)
next
  case False
  with assms show ?thesis
    by (intro that [of r]) (simp_all add: Relayer_SaveBlockHeight_def)
qed

lemma processBlockInfo_ok:
  assumes wf: "relayer_wf r" and c: "chain_at r nid = Some c"
  obtains r' where "Relayer_processBlockInfo S nid b r = Some r'"
    and "chain_heights r' = (chain_heights r)(nid \<mapsto>
      (if bi_Messages b \<noteq> [] \<or> SaveHeightMaxAfter < bi_Height b - LastSavedHeight c
       then bi_Height b else LastSavedHeight c, bi_Height b))"
    and "bs_heights (view (rl_db r')) =
      (if bi_Messages b \<noteq> [] \<or> SaveHeightMaxAfter < bi_Height b - LastSavedHeight c
       then (bs_heights (view (rl_db r)))(nid \<mapsto> bi_Height b) else bs_heights (view (rl_db r)))"
    and "db_ok (view (rl_db r)) \<longrightarrow> db_ok (view (rl_db r'))"
    and "rl_go r' = rl_go r @ [GoMerge nid (bi_Messages b)]"
proof -
  define r1 where "r1 = upd_chain nid (\<lambda>c. c\<lparr>LastBlockHeight := bi_Height b\<rparr>) r"
  define c1 where "c1 = c\<lparr>LastBlockHeight := bi_Height b\<rparr>"
  have c1: "chain_at r1 nid = Some c1"
    by (simp add: r1_def c1_def c)
  have NID: "NID (cr_Provider c1) = nid"
    using relayer_wf_NID [OF wf c] by (simp add: c1_def)
  have sel: "LastSavedHeight c1 = LastSavedHeight c" "LastBlockHeight c1 = bi_Height b"
    by (simp_all add: c1_def)
  let ?save = "bi_Messages b \<noteq> [] \<or> SaveHeightMaxAfter < bi_Height b - LastSavedHeight c"
  obtain r2 where r2: "Relayer_SaveBlockHeight S nid (bi_Height b) (length (bi_Messages b)) r1 = Some (None, r2)"
    and h2: "chain_heights r2 = (if ?save then (chain_heights r1)(nid \<mapsto> (bi_Height b, bi_Height b)) else chain_heights r1)"
    and b2: "bs_heights (view (rl_db r2)) = (if ?save then (bs_heights (view (rl_db r1)))(nid \<mapsto> bi_Height b) else bs_heights (view (rl_db r1)))"
    and db2: "db_ok (view (rl_db r1)) \<Longrightarrow> db_ok (view (rl_db r2))"
    using SaveBlockHeight_ok [OF c1, of "bi_Height b" "length (bi_Messages b)"]
    unfolding NID sel length_greater_0_conv by blast
  have h1: "chain_heights r1 = (chain_heights r)(nid \<mapsto> (LastSavedHeight c, bi_Height b))"
    by (auto simp: chain_heights_def r1_def fun_eq_iff c)
  have go: "rl_go r2 = rl_go r1"
    using r2 c1 by (auto simp: Relayer_SaveBlockHeight_def Let_def split: if_splits prod.splits)
  show ?thesis
  proof (rule that [of "spawn (GoMerge nid (bi_Messages b)) r2"])
    show "Relayer_processBlockInfo S nid b r = Some (spawn (GoMerge nid (bi_Messages b)) r2)"
      using r2 by (simp add: Relayer_processBlockInfo_def r1_def)
  qed (use h2 b2 db2 h1 go in \<open>auto simp: r1_def\<close>)
qed

lemma processBlockInfo_heights:
  assumes wf: "relayer_wf r" and ok: "heights_ok view r" and db: "db_ok (view (rl_db r))"
    and run: "Relayer_processBlockInfo S nid b r = Some r'"
  shows "heights_ok view r' \<and> db_ok (view (rl_db r'))"
proof -
  obtain c where c: "chain_at r nid = Some c"
    using run
    by (cases "chain_at r nid") (auto simp: Relayer_processBlockInfo_def Relayer_SaveBlockHeight_def)
  let ?save = "bi_Messages b \<noteq> [] \<or> SaveHeightMaxAfter < bi_Height b - LastSavedHeight c"
  obtain q where q: "Relayer_processBlockInfo S nid b r = Some q"
    and h: "chain_heights q = (chain_heights r)(nid \<mapsto>
      (if ?save then bi_Height b else LastSavedHeight c, bi_Height b))"
    and s: "bs_heights (view (rl_db q)) =
      (if ?save then (bs_heights (view (rl_db r)))(nid \<mapsto> bi_Height b) else bs_heights (view (rl_db r)))"
    and d: "db_ok (view (rl_db r)) \<longrightarrow> db_ok (view (rl_db q))"
    by (rule processBlockInfo_ok [OF wf c, of b]) (rule that; assumption)
  have "heights_ok view q"
    using ok c unfolding heights_ok_def h s
    by (auto simp: chain_heights_def)
  then show ?thesis
    using d db q run by simp
qed

end

subsection \<open>The relayer at the start\<close>

definition fresh_runtime :: "(string \<Rightarrow> string option) \<Rightarrow> string \<Rightarrow> 'w ChainRuntime \<Rightarrow> bool" where
  "fresh_runtime v n c \<longleftrightarrow>
     NID (cr_Provider c) = n \<and> LastBlockHeight c = 0 \<and> cr_MessageCache c = NewMessageCache \<and>
     LastSavedHeight c = (case bs_heights v n of None \<Rightarrow> 0 | Some h \<Rightarrow> h)"

context kv_reliable
begin

lemma load_chains_total:
  "\<forall>kc \<in> set cfg. snd kc \<noteq> None \<Longrightarrow> \<exists>cs. load_chains S d cfg out = Inr cs"
  by (induction cfg arbitrary: out) (auto simp: NewChainRuntime_def Let_def)

lemma load_chains_fresh:
  assumes "load_chains S d cfg out = Inr cs"
    and "map_wf out" and "\<And>n c. map_get out n = Some c \<Longrightarrow> fresh_runtime (view d) n c"
  shows "map_wf cs \<and> (\<forall>n c. map_get cs n = Some c \<longrightarrow> fresh_runtime (view d) n c)
    \<and> dom (map_of cs) = dom (map_of out) \<union> {Chain_NID ch |ch. Some ch \<in> snd ` set cfg}"
  using assms
proof (induction cfg arbitrary: out)
  case (Cons kc cfg)
  obtain k ch where kc: "kc = (k, Some ch)"
    using Cons.prems(1) by (cases kc; cases "snd kc") (auto simp: NewChainRuntime_def)
  let ?n = "NID (ChainProvider ch)"
  define c where "c = \<lparr>cr_Provider = ChainProvider ch, LastBlockHeight = 0,
    LastSavedHeight = (case bs_heights (view d) ?n of None \<Rightarrow> 0 | Some h \<Rightarrow> h),
    cr_MessageCache = NewMessageCache\<rparr>"
  have step: "load_chains S d (kc # cfg) out = load_chains S d cfg (map_set ?n c out)"
  proof (cases "BlockStore_GetLastStoredBlock S prefixBlockStore d ?n")
    case (Inl e)
    then have "bs_heights (view d) ?n = None"
      by (metis GetLastStoredBlock_iff Inl_Inr_False not_Some_eq)
    then show ?thesis
      by (simp add: kc NewChainRuntime_def Inl c_def)
  next
    case (Inr h)
    then have "bs_heights (view d) ?n = Some h"
      by (simp add: GetLastStoredBlock_iff)
    then show ?thesis
      by (simp add: kc NewChainRuntime_def Inr c_def)
  qed
  have "fresh_runtime (view d) ?n c"
    by (simp add: fresh_runtime_def c_def)
  then have fresh: "fresh_runtime (view d) n c'" if "map_get (map_set ?n c out) n = Some c'" for n c'
    using that Cons.prems(3) by (auto split: if_splits)
  have "map_wf cs \<and> (\<forall>n c. map_get cs n = Some c \<longrightarrow> fresh_runtime (view d) n c)
    \<and> dom (map_of cs) = dom (map_of (map_set ?n c out)) \<union> {Chain_NID ch |ch. Some ch \<in> snd ` set cfg}"
    by (rule Cons.IH) (use Cons.prems(1,2) step fresh in \<open>auto simp: distinct_update\<close>)
  moreover have "dom (map_of (map_set ?n c out)) = insert ?n (dom (map_of out))"
    by (auto simp: update_conv' dom_def)
  ultimately show ?case
    by (auto simp: kc Chain_NID_def)
qed auto

lemma NewRelayer_ok:
  assumes "NewRelayer S db w cfg fresh = (Inr r, d)"
  shows "rl_db r = d" and "rl_heap r = []" and "rl_go r = []" and "rl_world r = w"
    and "view d = (if fresh then Map.empty else view db)"
    and "relayer_wf r" and "heights_ok view r"
    and "\<And>n c. chain_at r n = Some c \<Longrightarrow> fresh_runtime (view d) n c"
    and "set (map fst (rl_chains r)) = {Chain_NID ch |ch. Some ch \<in> snd ` set cfg}"
proof -
  have d: "d = (if fresh then snd (ClearStore S db) else db)" and r0: "\<exists>cs. load_chains S d cfg [] = Inr cs
      \<and> r = \<lparr>rl_chains = cs, rl_heap = [], rl_db = d, rl_world = w, rl_go = []\<rparr>"
    using assms unfolding NewRelayer_def
    by (auto simp: clear_total case_prod_unfold Let_def split: if_splits option.splits sum.splits)
  then obtain cs where cs: "load_chains S d cfg [] = Inr cs"
    and r: "r = \<lparr>rl_chains = cs, rl_heap = [], rl_db = d, rl_world = w, rl_go = []\<rparr>"
    by blast
  have load: "map_wf cs \<and> (\<forall>n c. map_get cs n = Some c \<longrightarrow> fresh_runtime (view d) n c)
    \<and> dom (map_of cs) = dom (map_of []) \<union> {Chain_NID ch |ch. Some ch \<in> snd ` set cfg}"
    using load_chains_fresh [OF cs] by simp
  then show fr: "\<And>n c. chain_at r n = Some c \<Longrightarrow> fresh_runtime (view d) n c"
    by (simp add: r chain_at_def)
  show "rl_db r = d" "rl_heap r = []" "rl_go r = []" "rl_world r = w"
    by (simp_all add: r)
  show "view d = (if fresh then Map.empty else view db)"
    using d clear_empty by simp
  show "relayer_wf r"
    using load fr by (auto simp: relayer_wf_def caches_wf_def fresh_runtime_def r)
  show "heights_ok view r"
    using fr unfolding heights_ok_def chain_heights_def
    by (auto simp: fresh_runtime_def r)
  show "set (map fst (rl_chains r)) = {Chain_NID ch |ch. Some ch \<in> snd ` set cfg}"
    using load by (auto simp: r dom_map_of_conv_image_fst)
qed

text \<open>The flush on a database whose failed messages decode: it cannot panic.\<close>

lemma getActive_filter:
  assumes "db_ok (view d)"
  obtains ms where "MessageStore_GetMessages S prefixMessageStore d nid (Pagination_GetAll NewPagination) = Inr ms"
    and "Relayer_getActiveMessagesFromStore S d nid n
      = Inr (take (Suc n) (filter (\<lambda>m. \<not> RouteMessage_IsStale m) ms))"
proof -
  have "take_active n acc ys = take (Suc n) (acc @ filter (\<lambda>m. \<not> RouteMessage_IsStale m) ys)"
    if "length acc \<le> n" for acc ys
    using that by (induction n acc ys rule: take_active.induct) (auto simp: Let_def not_less Suc_diff_le Suc_diff_Suc Suc_le_eq)
  moreover obtain ms where "MessageStore_GetMessages S prefixMessageStore d nid (Pagination_GetAll NewPagination) = Inr ms"
    by (rule GetMessages_all [OF assms, of "Pagination_GetAll NewPagination" nid])
      (simp add: Pagination_GetAll_def)
  ultimately show ?thesis
    by (intro that [of ms]) (simp_all add: Relayer_getActiveMessagesFromStore_def)
qed

lemma getActive_ok:
  assumes "db_ok (view d)"
  obtains xs where "Relayer_getActiveMessagesFromStore S d nid n = Inr xs"
    and "\<forall>x \<in> set xs. rm_Message x \<noteq> None"
    and "\<forall>x \<in> set xs. \<not> RouteMessage_IsStale x"
    and "\<forall>x \<in> set xs. \<exists>src sn. failed_msgs (view d) (src, sn) = Some x \<and> prefix nid (src @ CHR ''-'' # sprintf_d sn)"
    and "length xs \<le> Suc n"
proof -
  obtain ms where ms: "MessageStore_GetMessages S prefixMessageStore d nid (Pagination_GetAll NewPagination) = Inr ms"
    "set ms = {x. \<exists>src sn. failed_msgs (view d) (src, sn) = Some x
                        \<and> prefix nid (src @ CHR ''-'' # sprintf_d sn)}"
    using GetMessages_all [OF assms, of "Pagination_GetAll NewPagination" nid]
    by (auto simp: Pagination_GetAll_def)
  have take: "set (take_active n acc ys) \<subseteq> set acc \<union> {y \<in> set ys. \<not> RouteMessage_IsStale y}
      \<and> (length acc \<le> n \<longrightarrow> length (take_active n acc ys) \<le> Suc n)" for acc ys
    by (induction n acc ys rule: take_active.induct) (auto simp: Let_def)
  have stored: "\<exists>src sn. failed_msgs (view d) (src, sn) = Some x \<and> prefix nid (src @ CHR ''-'' # sprintf_d sn)"
    "\<not> RouteMessage_IsStale x" if "x \<in> set (take_active n [] ms)" for x
    using that take [of "[]" ms] ms(2) by auto
  show ?thesis
  proof (rule that)
    show "Relayer_getActiveMessagesFromStore S d nid n = Inr (take_active n [] ms)"
      by (simp add: Relayer_getActiveMessagesFromStore_def ms(1))
    show "\<forall>x \<in> set (take_active n [] ms). rm_Message x \<noteq> None"
      using stored(1) ms_clean_stored [OF assms] by blast
    show "length (take_active n [] ms) \<le> Suc n"
      using take [of "[]" ms] by simp
  qed (use stored in blast)+
qed

lemma flush_chains_total:
  assumes "relayer_wf r" and "db_ok (view (rl_db r))" and "\<forall>n \<in> set nids. chain_at r n \<noteq> None"
  shows "\<exists>r'. flush_chains S nids r = Some r'"
  using assms
proof (induction nids arbitrary: r)
  case (Cons nid nids)
  obtain c where c: "chain_at r nid = Some c"
    using Cons.prems(3) by auto
  obtain xs where xs: "Relayer_getActiveMessagesFromStore S (rl_db r) (NID (cr_Provider c)) maxFlushMessage = Inr xs"
    "\<forall>x \<in> set xs. rm_Message x \<noteq> None"
    using getActive_ok [OF Cons.prems(2)] by metis
  obtain r' where r': "add_to_chain nid xs r = Some r'" "keeps r r'" "rl_db r' = rl_db r"
    using add_to_chain_ok [OF Cons.prems(1) _ xs(2), of nid] c by (metis option.distinct(1))
  have "\<exists>r''. flush_chains S nids r' = Some r''"
    using Cons.prems r' keepsD [OF r'(2)] evolves_chain [OF keeps_evolves [OF r'(2)]]
    by (intro Cons.IH) auto
  then show ?case
    by (simp add: flush_chains_step c xs(1) r'(1) del: flush_chains.simps)
qed simp

lemma flushMessages_total:
  assumes "relayer_wf r" and "db_ok (view (rl_db r))"
  shows "\<exists>r'. Relayer_flushMessages S r = Some r'"
proof -
  have "\<exists>r'. flush_chains S (map fst (rl_chains r)) r = Some r'"
    using assms by (intro flush_chains_total ballI) (simp_all only: chain_at_keys [symmetric])
  then show ?thesis
    by (simp add: Relayer_flushMessages_def Let_def)
qed

text \<open>What a flush does: each cache is overwritten by the active failed messages listed for its chain.\<close>

lemma flush_chains_ok:
  assumes "relayer_wf r" and "db_ok (view (rl_db r))" and "distinct nids"
    and "\<forall>n \<in> set nids. chain_at r n \<noteq> None"
  shows "\<exists>r'. flush_chains S nids r = Some r' \<and> rl_db r' = rl_db r \<and> rl_go r' = rl_go r \<and>
    (\<forall>n. cached r' n = (if n \<in> set nids
       then cached r n ++ map_of (rev (route_entries
              (projr (Relayer_getActiveMessagesFromStore S (rl_db r) n maxFlushMessage))))
       else cached r n))"
  using assms
proof (induction nids arbitrary: r)
  case (Cons nid nids)
  obtain c where c: "chain_at r nid = Some c"
    using Cons.prems(4) by auto
  have nid: "NID (cr_Provider c) = nid"
    using Cons.prems(1) c by (rule relayer_wf_NID)
  obtain xs where xs: "Relayer_getActiveMessagesFromStore S (rl_db r) nid maxFlushMessage = Inr xs"
    "\<forall>x \<in> set xs. rm_Message x \<noteq> None"
    using getActive_ok [OF Cons.prems(2)] by metis
  obtain r1 where r1: "add_to_chain nid xs r = Some r1" "keeps r r1" "rl_db r1 = rl_db r" "rl_go r1 = rl_go r"
    "cached r1 = (cached r)(nid := cached r nid ++ map_of (rev (route_entries xs)))"
    using add_to_chain_ok [OF Cons.prems(1) _ xs(2), of nid] c by (metis option.distinct(1))
  have "relayer_wf r1"
    using r1(2) Cons.prems(1) by (rule keepsD)
  moreover have "\<forall>n \<in> set nids. chain_at r1 n \<noteq> None"
    using Cons.prems(4) evolves_chain [OF keeps_evolves [OF r1(2) Cons.prems(1)]] by auto
  ultimately obtain r2 where r2: "flush_chains S nids r1 = Some r2" "rl_db r2 = rl_db r1" "rl_go r2 = rl_go r1"
    "\<And>n. cached r2 n = (if n \<in> set nids
       then cached r1 n ++ map_of (rev (route_entries
              (projr (Relayer_getActiveMessagesFromStore S (rl_db r1) n maxFlushMessage))))
       else cached r1 n)"
    using Cons.IH [of r1] Cons.prems(2,3) by (auto simp: r1(3))
  show ?case
  proof (intro exI conjI allI)
    show "flush_chains S (nid # nids) r = Some r2"
      using c nid xs r1(1) r2(1) by (simp add: flush_chains_step del: flush_chains.simps)
    show "rl_db r2 = rl_db r" "rl_go r2 = rl_go r"
      using r1 r2 by simp_all
    show "cached r2 n = (if n \<in> set (nid # nids)
       then cached r n ++ map_of (rev (route_entries
              (projr (Relayer_getActiveMessagesFromStore S (rl_db r) n maxFlushMessage))))
       else cached r n)" for n
      using Cons.prems(3) r2(4) [of n] by (auto simp: r1(3,5) xs(1))
  qed
qed simp

end

end
