(* ===== verification/RelaySteps.thy ===== *)
theory RelaySteps
  imports RelayDb
begin

text \<open>
  The running relayer. \<^verbatim>\<open>relayer/relay.go\<close> starts one goroutine per listener, block processor,
  router and finality processor, and those start one goroutine per block to merge and one per
  message to route; a provider calls back when it likes. \<open>relay_step\<close> interleaves them: a
  handler is cut at the points where the code waits for a provider or takes the next element
  of a loop, and what is left of it is a thread. The world may change at any time, and a
  callback may come with any key and response. A panic ends the process: it is a step to
  \<open>None\<close>.
\<close>

datatype thread =
    TAwait string string
  | TFailed addr string
  | TPicked string addr
  | TFlush "string list"
  | TFlushAdd string "RouteMessage list" "string list"
  | TFinality string u64 u64 "TransactionObject list"

type_synonym ('d, 'w) config = "('d, 'w) Relayer \<times> thread list"

datatype label =
    LWorld
  | LBlock string BlockInfo
  | LMerge string "Message option"
  | LMerged string
  | LPick string addr
  | LProcess string addr
  | LRoute addr string string
  | LCallback string string MessageKey TxResponse
  | LFailed addr string
  | LFlush
  | LFlushRead string
  | LFlushAdd string RouteMessage
  | LFlushed
  | LFinality string
  | LCheck string TransactionObject
  | LChecked string

definition with_threads :: "thread list \<Rightarrow> ('d, 'w) Relayer go \<Rightarrow> ('d, 'w) config go" where
  "with_threads ts out = map_option (\<lambda>r. (r, ts)) out"

inductive relay_step ::
    "'d Store \<Rightarrow> ('d, 'w) config \<Rightarrow> label \<Rightarrow> ('d, 'w) config go \<Rightarrow> bool"
  for S :: "'d Store" where
  step_world: "relay_step S (r, ts) LWorld (Some (r\<lparr>rl_world := w\<rparr>, ts))"
| step_block: "chain_at r nid \<noteq> None \<Longrightarrow>
    relay_step S (r, ts) (LBlock nid b) (with_threads ts (Relayer_processBlockInfo S nid b r))"
| step_merge: "rl_go r = xs @ GoMerge nid (m # ms) # ys \<Longrightarrow>
    relay_step S (r, ts) (LMerge nid m)
      (with_threads ts (merge_into nid [m] (r\<lparr>rl_go := xs @ GoMerge nid ms # ys\<rparr>)))"
| step_merged: "rl_go r = xs @ GoMerge nid [] # ys \<Longrightarrow>
    relay_step S (r, ts) (LMerged nid) (Some (r\<lparr>rl_go := xs @ ys\<rparr>, ts))"
| step_pick: "chain_at r src = Some c \<Longrightarrow> (k, a) \<in> set (cr_MessageCache c) \<Longrightarrow>
    relay_step S (r, ts) (LPick src a) (Some (r, TPicked src a # ts))"
| step_process: "relay_step S (r, us @ TPicked src a # vs) (LProcess src a)
    (with_threads (us @ vs) (process_message S src a r))"
| step_route: "rl_go r = xs @ GoRoute a dst src # ys \<Longrightarrow> r1 = mark_route a (r\<lparr>rl_go := xs @ ys\<rparr>) \<Longrightarrow>
    heap_get (rl_heap r1) a = Some m \<Longrightarrow> chain_at r1 dst = Some dstc \<Longrightarrow>
    relay_step S (r, ts) (LRoute a dst src)
      (case Route (cr_Provider dstc) (rl_world r1) (RouteMessage_GetMessage m) of
         None \<Rightarrow> None
       | Some (cbs, err, w) \<Rightarrow>
           Some (r1\<lparr>rl_world := w\<rparr>,
                 TAwait dst src # (if err = None then [] else [TFailed a src]) @ ts))"
| step_callback: "TAwait dst src \<in> set ts \<Longrightarrow>
    relay_step S (r, ts) (LCallback dst src key response)
      (with_threads ts (Relayer_callback S dst src key response r))"
| step_failed: "relay_step S (r, us @ TFailed a src # vs) (LFailed a src)
    (with_threads (us @ vs) (Relayer_HandleMessageFailed S a src r))"
| step_flush: "MessageStore_TotalCount S prefixMessageStore (rl_db r) = Inr n \<Longrightarrow> n \<noteq> 0 \<Longrightarrow>
    relay_step S (r, ts) LFlush (Some (r, TFlush (map fst (rl_chains r)) # ts))"
| step_flush_read: "chain_at r nid = Some c \<Longrightarrow>
    relay_step S (r, us @ TFlush (nid # nids) # vs) (LFlushRead nid)
      (case Relayer_getActiveMessagesFromStore S (rl_db r) (NID (cr_Provider c)) maxFlushMessage of
         Inl e \<Rightarrow> Some (r, us @ TFlush nids # vs)
       | Inr ms \<Rightarrow> Some (r, us @ TFlushAdd nid ms nids # vs))"
| step_flush_add: "relay_step S (r, us @ TFlushAdd nid (m # ms) nids # vs) (LFlushAdd nid m)
    (with_threads (us @ TFlushAdd nid ms nids # vs) (add_to_chain nid [m] r))"
| step_flush_added: "relay_step S (r, us @ TFlushAdd nid [] nids # vs) LFlushed
    (Some (r, us @ TFlush nids # vs))"
| step_flushed: "relay_step S (r, us @ TFlush [] # vs) LFlushed (Some (r, us @ vs))"
| step_finality: "chain_at r nid = Some c \<Longrightarrow>
    fb = FinalityBlock (cr_Provider c) (rl_world r) \<Longrightarrow> 0 < fb \<Longrightarrow>
    FinalityStore_GetTxObjects S prefixFinalityStore (rl_db r) (NID (cr_Provider c))
      (Pagination_GetAll NewPagination) = Inr txs \<Longrightarrow>
    relay_step S (r, ts) (LFinality nid) (Some (r, TFinality nid fb (LastBlockHeight c) txs # ts))"
| step_check: "relay_step S (r, us @ TFinality nid fb lh (t # txs) # vs) (LCheck nid t)
    (with_threads (us @ TFinality nid fb lh txs # vs) (check_tx S nid fb lh t r))"
| step_checked: "relay_step S (r, us @ TFinality nid fb lh [] # vs) (LChecked nid)
    (Some (r, us @ vs))"

inductive relay_run ::
    "'d Store \<Rightarrow> ('d, 'w) config \<Rightarrow> label list \<Rightarrow> ('d, 'w) config go \<Rightarrow> bool"
  for S :: "'d Store" and g where
  run_nil: "relay_run S g [] (Some g)"
| run_step: "relay_run S g ls (Some g') \<Longrightarrow> relay_step S g' l out \<Longrightarrow> relay_run S g (ls @ [l]) out"

subsection \<open>The invariant of a running relayer\<close>

fun thread_ok :: "('d, 'w) Relayer \<Rightarrow> thread \<Rightarrow> bool" where
  "thread_ok r (TAwait dst src) \<longleftrightarrow> chain_at r dst \<noteq> None \<and> chain_at r src \<noteq> None"
| "thread_ok r (TFailed a src) \<longleftrightarrow> msg_at (rl_heap r) a \<noteq> None \<and> chain_at r src \<noteq> None"
| "thread_ok r (TPicked src a) \<longleftrightarrow> msg_at (rl_heap r) a \<noteq> None \<and> chain_at r src \<noteq> None"
| "thread_ok r (TFlush nids) \<longleftrightarrow> (\<forall>n \<in> set nids. chain_at r n \<noteq> None)"
| "thread_ok r (TFlushAdd nid ms nids) \<longleftrightarrow>
     chain_at r nid \<noteq> None \<and> (\<forall>m \<in> set ms. rm_Message m \<noteq> None) \<and>
     (\<forall>n \<in> set nids. chain_at r n \<noteq> None)"
| "thread_ok r (TFinality nid fb lh txs) \<longleftrightarrow> chain_at r nid \<noteq> None"

definition config_wf :: "('d, 'w) config \<Rightarrow> bool" where
  "config_wf g \<longleftrightarrow> relayer_wf (fst g) \<and> (\<forall>t \<in> set (snd g). thread_ok (fst g) t)"

definition config_inv :: "('d \<Rightarrow> string \<Rightarrow> string option) \<Rightarrow> ('d, 'w) config \<Rightarrow> bool" where
  "config_inv view g \<longleftrightarrow>
     config_wf g \<and> heights_ok view (fst g) \<and> db_ok (view (rl_db (fst g)))"

lemma evolves_thread_ok: "evolves r r' \<Longrightarrow> thread_ok r t \<Longrightarrow> thread_ok r' t"
  by (cases t) (auto simp: evolves_chain simp del: not_None_eq, auto simp: evolves_def dest: msg_at_mono)

lemma config_wf_step:
  assumes "keeps r r'" and "config_wf (r, ts)"
    and "\<And>t. t \<in> set ts' \<Longrightarrow> t \<in> set ts \<or> thread_ok r' t"
  shows "config_wf (r', ts')"
  using assms evolves_thread_ok [OF keeps_evolves [OF assms(1)]] keepsD [OF assms(1)]
  unfolding config_wf_def by fastforce

lemma with_threads_Some:
  "with_threads ts out = Some g \<longleftrightarrow> (\<exists>r. out = Some r \<and> g = (r, ts))"
  "Some g = with_threads ts out \<longleftrightarrow> (\<exists>r. out = Some r \<and> g = (r, ts))"
  by (cases out; auto simp: with_threads_def)+

lemma with_threads_None [simp]: "with_threads ts out = None \<longleftrightarrow> out = None"
  by (simp add: with_threads_def)

text \<open>A run of the relayer keeps the shape of its state, whatever the database does.\<close>

lemma keeps_step:
  assumes "relay_step S g l (Some g')"
  shows "keeps (fst g) (fst g')"
  using assms
proof (cases rule: relay_step.cases)
  case (step_merge r xs nid m ms ys ts)
  have go: "rl_go r = xs @ GoMerge nid (m # ms) # ys"
    by (rule step_merge)
  have ok: "go_ok r (GoMerge nid ms)" if "relayer_wf r"
    using that go by (simp add: relayer_wf_def)
  have "keeps r (r\<lparr>rl_go := xs @ GoMerge nid ms # ys\<rparr>)"
  proof -
    have ev: "evolves r (r\<lparr>rl_go := xs @ GoMerge nid ms # ys\<rparr>)"
      by (simp add: evolves_def)
    show ?thesis
      using ok ev evolves_go_ok [OF ev] go
      by (auto simp: keeps_def relayer_wf_def caches_wf_def)
  qed
  moreover have "merge_into nid [m] (r\<lparr>rl_go := xs @ GoMerge nid ms # ys\<rparr>) = Some (fst g')"
    using step_merge(3) by (auto simp: with_threads_Some)
  ultimately show ?thesis
    unfolding step_merge(1) fst_conv by (blast intro: keeps_trans keeps_merge_into)
next
  case (step_route r xs a dst src ys r1 m dstc ts)
  have go: "rl_go r = xs @ GoRoute a dst src # ys" and r1: "r1 = mark_route a (r\<lparr>rl_go := xs @ ys\<rparr>)"
    by (fact step_route)+
  have "keeps r r1"
    unfolding r1 by (rule keeps_trans [OF keeps_go_remove [OF go] keeps_mark_route])
  then show ?thesis
    using step_route by (auto split: option.splits prod.splits intro: keeps_trans [OF _ keeps_world])
qed (auto simp: with_threads_Some split: sum.splits
    intro: keeps_processBlockInfo keeps_go_remove keeps_process_message keeps_callback
      keeps_HandleMessageFailed keeps_add_to_chain keeps_check_tx)

lemma config_wf_preserved:
  assumes "relay_step S g l (Some g')" and "config_wf g"
    and act: "\<And>r nids nid c ms. g = (r, nids) \<Longrightarrow> chain_at r nid = Some c \<Longrightarrow>
      Relayer_getActiveMessagesFromStore S (rl_db r) (NID (cr_Provider c)) maxFlushMessage = Inr ms \<Longrightarrow>
      \<forall>m \<in> set ms. rm_Message m \<noteq> None"
  shows "config_wf g'"
proof -
  obtain r ts r' ts' where g: "g = (r, ts)" "g' = (r', ts')"
    by (cases g; cases g')
  have k: "keeps r r'"
    using keeps_step [OF assms(1)] by (simp add: g)
  have wf: "relayer_wf r" and ok: "\<And>t. t \<in> set ts \<Longrightarrow> thread_ok r t"
    using assms(2) by (simp_all add: config_wf_def g)
  have ev: "evolves r r'"
    using k wf by (rule keeps_evolves)
  have ok': "thread_ok r' t" if "t \<in> set ts" for t
    using evolves_thread_ok [OF ev ok [OF that]] .
  have "thread_ok r' t" if t: "t \<in> set ts'" for t
    using assms(1) unfolding g
  proof (cases rule: relay_step.cases)
    case (step_pick src c k a)
    have "chain_at r src = Some c" "(k, a) \<in> set (cr_MessageCache c)"
      by (fact step_pick)+
    then have "msg_at (rl_heap r) a \<noteq> None"
      by (metis relayer_wf_caches [OF wf] cache_wf_entry option.distinct(1))
    then show ?thesis
      using step_pick t ok' by auto
  next
    case (step_route xs a dst src ys r1 m dstc)
    have "rl_go r = xs @ GoRoute a dst src # ys"
      by (fact step_route)
    then have "go_ok r (GoRoute a dst src)"
      using wf by (simp add: relayer_wf_def)
    then have "go_ok r' (GoRoute a dst src)"
      by (rule evolves_go_ok [OF ev])
    then show ?thesis
      using step_route t ok' by (auto split: option.splits prod.splits if_splits)
  next
    case (step_flush_read nid c us nids vs)
    have "TFlush (nid # nids) \<in> set ts"
      using step_flush_read by simp
    then have "thread_ok r' (TFlush (nid # nids))"
      by (rule ok')
    moreover have "chain_at r nid = Some c"
      by (fact step_flush_read)
    ultimately show ?thesis
      using step_flush_read t ok' act [OF g(1)]
      by (auto split: sum.splits)
  next
    case (step_flush_add us nid m ms nids vs)
    have "TFlushAdd nid (m # ms) nids \<in> set ts"
      using step_flush_add by simp
    then have "thread_ok r' (TFlushAdd nid (m # ms) nids)"
      by (rule ok')
    then show ?thesis
      using step_flush_add t ok' by (auto simp: with_threads_Some)
  next
    case (step_flush_added us nid nids vs)
    have "TFlushAdd nid [] nids \<in> set ts"
      using step_flush_added by simp
    then have "thread_ok r' (TFlushAdd nid [] nids)"
      by (rule ok')
    then show ?thesis
      using step_flush_added t ok' by auto
  next
    case (step_check us nid fb lh t' txs vs)
    have "TFinality nid fb lh (t' # txs) \<in> set ts"
      using step_check by simp
    then have "thread_ok r' (TFinality nid fb lh (t' # txs))"
      by (rule ok')
    then show ?thesis
      using step_check t ok' by (auto simp: with_threads_Some)
  next
    case step_flush
    have "\<forall>n \<in> set (map fst (rl_chains r)). chain_at r n \<noteq> None"
      by (metis chain_at_keys)
    then show ?thesis
      using step_flush t ok' by auto
  qed (use t ok' in \<open>auto simp: with_threads_Some\<close>)
  then show ?thesis
    using keepsD [OF k wf] by (simp add: config_wf_def g)
qed

subsection \<open>What the handlers do to the list of goroutines\<close>

lemma go_HandleMessageFailed [frame]:
  "Relayer_HandleMessageFailed S a src r = Some r' \<Longrightarrow> rl_go r' = rl_go r"
  unfolding Relayer_HandleMessageFailed_def
  by (auto simp: Let_def split: option.splits if_splits prod.splits)

lemma go_callback [frame]:
  "Relayer_callback S dst src key response r = Some r' \<Longrightarrow> rl_go r' = rl_go r"
  unfolding Relayer_callback_def
  by (auto simp: Let_def ClearMessages_eq go_HandleMessageFailed
      split: option.splits if_splits prod.splits)

lemma go_add_to_chain [frame]: "add_to_chain nid rs r = Some r' \<Longrightarrow> rl_go r' = rl_go r"
  by (auto simp: add_to_chain_def split: option.splits)

lemma go_merge_into [frame]: "merge_into nid ms r = Some r' \<Longrightarrow> rl_go r' = rl_go r"
  unfolding merge_into_add by (rule go_add_to_chain)

lemma go_check_tx [frame]: "check_tx S nid fb lh t r = Some r' \<Longrightarrow> rl_go r' = rl_go r"
  unfolding check_tx_def
  by (auto simp: Let_def go_merge_into split: option.splits sum.splits if_splits prod.splits)

lemma go_process_message:
  "process_message S src a r = Some r' \<Longrightarrow> rl_go r' = rl_go r \<or> (\<exists>dst. rl_go r' = rl_go r @ [GoRoute a dst src])"
  unfolding process_message_def
  by (auto simp: ClearMessages_eq split: option.splits sum.splits prod.splits bool.splits)

lemma go_processBlockInfo:
  "Relayer_processBlockInfo S nid b r = Some r' \<Longrightarrow> rl_go r' = rl_go r @ [GoMerge nid (bi_Messages b)]"
  unfolding Relayer_processBlockInfo_def Relayer_SaveBlockHeight_def
  by (cases "chain_at r nid") (auto simp: Let_def split: if_splits prod.splits)

subsection \<open>Runs do not crash\<close>

text \<open>
  What the relayer needs of its surroundings: a provider does not panic on a message, answers a
  receipt or an error, a regenerated message or an error, and its listener sends no nil message.
\<close>

definition polite_provider :: "'w ChainProvider \<Rightarrow> bool" where
  "polite_provider p \<longleftrightarrow>
     (\<forall>w m. Route p w (Some m) \<noteq> None) \<and>
     (\<forall>w h. QueryTransactionReceipt p w h \<noteq> Inr None) \<and>
     (\<forall>w k. GenerateMessage p w k \<noteq> (None, None))"

definition polite :: "('d, 'w) Relayer \<Rightarrow> bool" where
  "polite r \<longleftrightarrow> (\<forall>n c. chain_at r n = Some c \<longrightarrow> polite_provider (cr_Provider c))"

fun merge_clean :: "goroutine \<Rightarrow> bool" where
  "merge_clean (GoMerge nid ms) \<longleftrightarrow> None \<notin> set ms"
| "merge_clean (GoRoute a dst src) \<longleftrightarrow> True"

definition merges_ok :: "('d, 'w) Relayer \<Rightarrow> bool" where
  "merges_ok r \<longleftrightarrow> list_all merge_clean (rl_go r)"

fun label_ok :: "label \<Rightarrow> bool" where
  "label_ok (LBlock nid b) \<longleftrightarrow> None \<notin> set (bi_Messages b)"
| "label_ok l \<longleftrightarrow> True"

lemma polite_evolves: "evolves r r' \<Longrightarrow> polite r \<Longrightarrow> polite r'"
  unfolding polite_def by (metis evolves_chain evolves_provider option.exhaust option.inject)

lemma merges_ok_step:
  assumes "relay_step S g l (Some g')" and "merges_ok (fst g)" and "label_ok l"
  shows "merges_ok (fst g')"
  using assms
  by (cases rule: relay_step.cases)
    (auto simp: merges_ok_def with_threads_Some mark_route_def go_processBlockInfo go_merge_into
      go_callback go_HandleMessageFailed go_add_to_chain go_check_tx
      dest!: go_process_message split: option.splits prod.splits sum.splits)

lemma check_tx_total:
  assumes "relayer_wf r" and "polite r" and "chain_at r nid \<noteq> None"
  shows "\<exists>r'. check_tx S nid fb lh t r = Some r'"
proof -
  obtain c where c: "chain_at r nid = Some c"
    using assms(3) by blast
  have receipt: "QueryTransactionReceipt (cr_Provider c) (rl_world r) (to_TxHash t) \<noteq> Inr None"
    using assms(2) c by (simp add: polite_def polite_provider_def)
  have gen: "\<exists>m. x = Some m"
    if "GenerateMessage (cr_Provider sc) (rl_world r) (to_Key t) = (x, None)" "chain_at r n = Some sc"
    for n sc x
    using assms(2) that by (cases x) (auto simp: polite_def polite_provider_def)
  have merge: "\<exists>r'. merge_into n [Some m] (r\<lparr>rl_db := d\<rparr>) = Some r'" if "chain_at r n \<noteq> None" for n m d
    using that assms(1) by (intro merge_into_total) simp_all
  show ?thesis
    using receipt
    by (auto simp: check_tx_def c Let_def dest!: gen intro!: merge split: sum.split option.split prod.split)
qed

text \<open>The states from which, with polite surroundings, no step is a crash.\<close>

definition safe :: "('d \<Rightarrow> string \<Rightarrow> string option) \<Rightarrow> ('d, 'w) config \<Rightarrow> bool" where
  "safe view g \<longleftrightarrow> config_inv view g \<and> polite (fst g) \<and> merges_ok (fst g)"

inductive_simps step_block_iff: "relay_step S g (LBlock nid b) out"

inductive_simps step_world_iff: "relay_step S g LWorld out"

inductive_cases step_callbackE: "relay_step S g (LCallback dst src key response) (Some g')"

inductive_cases step_processE: "relay_step S g (LProcess src a) (Some g')"

context kv_reliable
begin

lemma calm_step:
  assumes "relay_step S g l (Some g')" and "\<And>nid b. l \<noteq> LBlock nid b"
  shows "calm view (fst g) (fst g')"
  using assms
proof (cases rule: relay_step.cases)
  case (step_merge r xs nid m ms ys ts)
  then have "calm view (r\<lparr>rl_go := xs @ GoMerge nid ms # ys\<rparr>) (fst g')"
    by (auto simp: with_threads_Some intro: calm_merge_into)
  then show ?thesis
    unfolding step_merge(1) fst_conv by (rule calm_trans [OF calm_other(3)])
next
  case (step_route r xs a dst src ys r1 m dstc ts)
  then have "calm view r r1"
    by (simp add: mark_route_def calm_def)
  then show ?thesis
    using step_route by (auto split: option.splits prod.splits intro: calm_trans [OF _ calm_other(2)])
qed (auto simp: with_threads_Some split: sum.splits
    intro: calm_process_message calm_callback calm_HandleMessageFailed calm_add_to_chain
      calm_check_tx)

lemma config_inv_step:
  assumes step: "relay_step S g l (Some g')" and inv: "config_inv view g"
  shows "config_inv view g'"
proof -
  have "config_wf g'"
    using step
  proof (rule config_wf_preserved)
    show "config_wf g"
      using inv by (simp add: config_inv_def)
    show "\<forall>m \<in> set ms. rm_Message m \<noteq> None"
      if "g = (r, ts)" "Relayer_getActiveMessagesFromStore S (rl_db r) (NID (cr_Provider c)) maxFlushMessage = Inr ms"
      for r ts c ms
    proof -
      have "db_ok (view (rl_db r))"
        using inv that(1) by (simp add: config_inv_def)
      from getActive_ok [OF this, of "NID (cr_Provider c)" maxFlushMessage] that(2) show ?thesis
        by (metis sum.inject(2))
    qed
  qed
  moreover have "heights_ok view (fst g') \<and> db_ok (view (rl_db (fst g')))"
  proof (cases "\<exists>nid b. l = LBlock nid b")
    case False
    then have "calm view (fst g) (fst g')"
      by (intro calm_step [OF step]) blast
    then show ?thesis
      using inv calm_heights calm_db_ok unfolding config_inv_def by blast
  next
    case True
    then obtain nid b r ts r' where "g = (r, ts)" "g' = (r', ts)" "Relayer_processBlockInfo S nid b r = Some r'"
      using step by (auto simp: with_threads_Some step_block_iff)
    moreover from this have "relayer_wf r" "heights_ok view r" "db_ok (view (rl_db r))"
      using inv by (simp_all add: config_inv_def config_wf_def)
    ultimately show ?thesis
      using processBlockInfo_heights by (metis fst_conv)
  qed
  ultimately show ?thesis
    by (simp add: config_inv_def)
qed

lemma no_crash:
  assumes "relay_step S g l out" and safe: "safe view g"
  shows "out \<noteq> None"
proof -
  obtain r ts where g: "g = (r, ts)"
    by (cases g)
  have wf: "relayer_wf r" and t: "\<And>t. t \<in> set ts \<Longrightarrow> thread_ok r t" and go: "\<And>x. x \<in> set (rl_go r) \<Longrightarrow> go_ok r x"
    and pol: "polite r" and mc: "\<And>x. x \<in> set (rl_go r) \<Longrightarrow> merge_clean x"
    using safe by (auto simp: safe_def config_inv_def config_wf_def g relayer_wf_def merges_ok_def list_all_iff)
  show ?thesis
    using assms(1) unfolding g
  proof (cases rule: relay_step.cases)
    case (step_block nid b)
    then show ?thesis
      using processBlockInfo_total by (metis option.distinct(1) with_threads_None)
  next
    case (step_merge xs nid m ms ys)
    have g: "go_ok r (GoMerge nid (m # ms))" "merge_clean (GoMerge nid (m # ms))"
      by (rule go mc; simp add: step_merge)+
    let ?r = "r\<lparr>rl_go := xs @ GoMerge nid ms # ys\<rparr>"
    have "relayer_wf ?r"
    proof -
      have ev: "evolves r ?r"
        by (simp add: evolves_def)
      have "rl_go r = xs @ GoMerge nid (m # ms) # ys"
        by (fact step_merge)
      then show ?thesis
        using wf g(1) evolves_go_ok [OF ev] by (auto simp: relayer_wf_def caches_wf_def)
    qed
    then have "\<exists>r'. merge_into nid [m] ?r = Some r'"
      using g by (intro merge_into_total) auto
    then show ?thesis
      using step_merge by auto
  next
    case (step_process us src a vs)
    then have "thread_ok r (TPicked src a)"
      by (intro t) simp
    then show ?thesis
      using step_process process_message_total [of r a src S] by auto
  next
    case (step_route xs a dst src ys r1 m dstc)
    then have ok: "go_ok r (GoRoute a dst src)"
      by (intro go) simp
    have r1: "r1 = mark_route a (r\<lparr>rl_go := xs @ ys\<rparr>)" and m: "heap_get (rl_heap r1) a = Some m"
      and d: "chain_at r1 dst = Some dstc" and out: "out = (case Route (cr_Provider dstc) (rl_world r1) (RouteMessage_GetMessage m) of
         None \<Rightarrow> None
       | Some (cbs, err, w) \<Rightarrow>
           Some (r1\<lparr>rl_world := w\<rparr>,
                 TAwait dst src # (if err = None then [] else [TFailed a src]) @ ts))"
      by (fact step_route)+
    have "rm_Message m \<noteq> None"
      using ok m unfolding r1 mark_route_def
      by (auto simp: msg_at_def bind_eq_Some_conv RouteMessage_IncrementRetry_def RouteMessage_SetIsProcessing_def)
    moreover have "polite_provider (cr_Provider dstc)"
      using pol d unfolding r1 by (simp add: polite_def mark_route_def)
    ultimately have "Route (cr_Provider dstc) (rl_world r1) (RouteMessage_GetMessage m) \<noteq> None"
      by (auto simp: polite_provider_def RouteMessage_GetMessage_def)
    then show ?thesis
      unfolding out by (auto split: option.split)
  next
    case (step_callback dst src key response)
    then have "thread_ok r (TAwait dst src)"
      by (intro t) simp
    then show ?thesis
      using step_callback callback_total [OF wf, of dst src S key response] by auto
  next
    case (step_failed us a src vs)
    then have "thread_ok r (TFailed a src)"
      by (intro t) simp
    then show ?thesis
      using step_failed HandleMessageFailed_total [of r a S src] by auto
  next
    case (step_flush_add us nid m ms nids vs)
    then have ok: "thread_ok r (TFlushAdd nid (m # ms) nids)"
      by (intro t) simp
    then have "chain_at r nid \<noteq> None" "\<forall>x \<in> set [m]. rm_Message x \<noteq> None"
      by auto
    from add_to_chain_ok [OF wf this] obtain r' where "add_to_chain nid [m] r = Some r'"
      by metis
    then show ?thesis
      using step_flush_add by auto
  next
    case (step_check us nid fb lh tx txs vs)
    then have "thread_ok r (TFinality nid fb lh (tx # txs))"
      by (intro t) simp
    then show ?thesis
      using step_check check_tx_total [OF wf pol, of nid S fb lh tx] by auto
  qed (auto split: sum.splits)
qed

lemma safe_step:
  assumes "relay_step S g l out" and "safe view g" and "label_ok l"
  obtains g' where "out = Some g'" and "safe view g'"
proof -
  obtain g' where out: "out = Some g'"
    using no_crash [OF assms(1,2)] by blast
  have step: "relay_step S g l (Some g')"
    using assms(1) by (simp add: out)
  have "keeps (fst g) (fst g')" and "relayer_wf (fst g)"
    using keeps_step [OF step] assms(2) by (simp_all add: safe_def config_inv_def config_wf_def)
  then have "polite (fst g')"
    using assms(2) polite_evolves keeps_evolves unfolding safe_def by blast
  then have "safe view g'"
    using config_inv_step [OF step] merges_ok_step [OF step _ assms(3)] assms(2) by (simp add: safe_def)
  with out show ?thesis
    by (rule that)
qed

lemma config_inv_run:
  "relay_run S g ls out \<Longrightarrow> config_inv view g \<Longrightarrow> out = Some g' \<Longrightarrow> config_inv view g'"
  by (induction arbitrary: g' rule: relay_run.induct) (auto intro: config_inv_step)

lemma safe_run:
  "relay_run S g ls out \<Longrightarrow> safe view g \<Longrightarrow> list_all label_ok ls \<Longrightarrow> \<exists>g'. out = Some g' \<and> safe view g'"
proof (induction rule: relay_run.induct)
  case (run_step ls g' l out)
  then have "safe view g'" "label_ok l"
    by simp_all
  with run_step(2) show ?case
    by (blast elim: safe_step)
qed simp

lemma start_safe:
  assumes "NewRelayer S db w cfg fresh = (Inr r, d)" and "fresh \<or> db_ok (view db)"
  shows "config_inv view (r, [])" and "polite r \<Longrightarrow> safe view (r, [])"
proof -
  note r = NewRelayer_ok [OF assms(1)]
  show "config_inv view (r, [])"
    using r assms(2) by (auto simp: config_inv_def config_wf_def)
  then show "polite r \<Longrightarrow> safe view (r, [])"
    using r(3) by (simp add: safe_def merges_ok_def)
qed

end

end
