(* ===== verification/RelayFlow.thy ===== *)
theory RelayFlow
  imports RelaySteps
begin

text \<open>
  What the handlers do to the messages, as equations over the caches and the stores, and how
  the handlers as written are runs of the interleaved steps: \<open>processMessages\<close>,
  \<open>RouteMessage\<close>, \<open>flushMessages\<close> and \<open>CheckFinality\<close> are each one of the schedules that
  \<open>relay_run\<close> allows, so what holds of every run holds of them.
\<close>

definition in_cache :: "('d, 'w) Relayer \<Rightarrow> string \<Rightarrow> MessageKey \<Rightarrow> bool" where
  "in_cache r n k \<longleftrightarrow> (\<exists>c. chain_at r n = Some c \<and> map_get (cr_MessageCache c) k \<noteq> None)"

lemma in_cache_simps [simp]:
  "in_cache (r\<lparr>rl_db := d\<rparr>) = in_cache r"
  "in_cache (r\<lparr>rl_heap := h\<rparr>) = in_cache r"
  "in_cache (r\<lparr>rl_world := w\<rparr>) = in_cache r"
  "in_cache (r\<lparr>rl_go := g\<rparr>) = in_cache r"
  "in_cache (spawn x r) = in_cache r"
  by (simp_all add: in_cache_def fun_eq_iff)

lemma in_cache_cached:
  assumes "relayer_wf r"
  shows "in_cache r n k \<longleftrightarrow> cached r n k \<noteq> None"
proof (cases "chain_at r n")
  case (Some c)
  have "dom (cache_view (rl_heap r) (cr_MessageCache c)) = fst ` set (cr_MessageCache c)"
    using relayer_wf_caches [OF assms Some] by (rule cache_view_dom)
  then show ?thesis
    by (auto simp: in_cache_def cached_def Some map_of_eq_None_iff domIff set_eq_iff)
qed (simp add: in_cache_def cached_def)

lemma in_cache_clear:
  "in_cache (upd_chain src (\<lambda>c. c\<lparr>cr_MessageCache := clearMessageFromCache ks (cr_MessageCache c)\<rparr>) r) n k
     \<longleftrightarrow> in_cache r n k \<and> \<not> (n = src \<and> k \<in> set ks)"
  by (cases "chain_at r n") (auto simp: in_cache_def clearMessageFromCache_get split: if_splits)

lemma in_cache_remove:
  "in_cache (upd_chain src (\<lambda>c. c\<lparr>cr_MessageCache := MessageCache_Remove (cr_MessageCache c) key\<rparr>) r) n k
     \<longleftrightarrow> in_cache r n k \<and> \<not> (n = src \<and> k = key)"
  by (cases "chain_at r n") (auto simp: in_cache_def MessageCache_Remove_def split: if_splits)

lemma in_cache_ClearMessages:
  "in_cache (snd (Relayer_ClearMessages S ks src r)) n k \<longleftrightarrow> in_cache r n k \<and> \<not> (n = src \<and> k \<in> set ks)"
  by (simp add: ClearMessages_eq in_cache_clear)

lemma in_cache_add_to_chain:
  assumes "relayer_wf r" and "add_to_chain nid rs r = Some r'" and "in_cache r n k"
  shows "in_cache r' n k"
proof -
  have c: "chain_at r nid \<noteq> None"
    using assms(2) by (auto simp: add_to_chain_def split: option.splits)
  have rs: "\<forall>x \<in> set rs. rm_Message x \<noteq> None"
    using assms(2) add_to_chain_None [of rs nid r] by (metis option.distinct(1))
  have "keeps r r'" and "cached r' = (cached r)(nid := cached r nid ++ map_of (rev (route_entries rs)))"
    using add_to_chain_ok [OF assms(1) c rs] assms(2) by (metis option.inject)+
  moreover from this have "relayer_wf r'"
    using assms(1) keepsD by blast
  ultimately show ?thesis
    using assms(1,3) by (auto simp: in_cache_cached map_add_def split: option.split)
qed

lemma in_cache_merge_into:
  "relayer_wf r \<Longrightarrow> merge_into nid ms r = Some r' \<Longrightarrow> in_cache r n k \<Longrightarrow> in_cache r' n k"
  unfolding merge_into_add by (rule in_cache_add_to_chain)

lemma in_cache_check_tx:
  assumes "relayer_wf r" and "check_tx S nid fb lh t r = Some r'" and "in_cache r n k"
  shows "in_cache r' n k"
proof -
  have "in_cache r' n k" if "merge_into m ms (r\<lparr>rl_db := d\<rparr>) = Some r'" for m ms d
    using in_cache_merge_into [OF _ that] assms(1,3) by simp
  then show ?thesis
    using assms(2,3) unfolding check_tx_def
    by (auto simp: Let_def split: option.splits sum.splits if_splits prod.splits)
qed

lemma in_cache_processBlockInfo:
  assumes "Relayer_processBlockInfo S nid b r = Some r'"
  shows "in_cache r' = in_cache r"
proof -
  have upd: "in_cache (upd_chain nid (\<lambda>c. c\<lparr>LastBlockHeight := h\<rparr>) q) = in_cache q"
    "in_cache (upd_chain nid (\<lambda>c. c\<lparr>LastSavedHeight := h\<rparr>) q) = in_cache q" for h and q :: "('d, 'w) Relayer"
    by (auto simp: in_cache_def fun_eq_iff)
  show ?thesis
    using assms unfolding Relayer_processBlockInfo_def Relayer_SaveBlockHeight_def
    by (cases "chain_at r nid") (auto simp: Let_def upd split: if_splits prod.splits)
qed

text \<open>Why a message left a cache in one step.\<close>

definition delivered :: "label \<Rightarrow> string \<Rightarrow> MessageKey \<Rightarrow> bool" where
  "delivered l n k \<longleftrightarrow> (\<exists>dst resp. l = LCallback dst n k resp \<and> tr_Code resp = Success)"

definition dropped :: "('d, 'w) Relayer \<Rightarrow> label \<Rightarrow> string \<Rightarrow> MessageKey \<Rightarrow> bool" where
  "dropped r l n k \<longleftrightarrow>
     (\<exists>a. l = LProcess n a) \<and>
     (case chain_at r (key_Dst k) of
        None \<Rightarrow> True
      | Some c \<Rightarrow> MessageReceived (cr_Provider c) (rl_world r) k = (True, None))"

definition saved_failed :: "(string \<Rightarrow> string option) \<Rightarrow> MessageKey \<Rightarrow> bool" where
  "saved_failed v k \<longleftrightarrow>
     (\<exists>x. RouteMessage_MessageKey x = Some k \<and> rm_Retry x \<noteq> 0 \<and> rm_Retry x mod DefaultTxRetry = 0
        \<and> \<not> rm_IsProcessing x
        \<and> failed_msgs v (key_Src k, key_Sn k) = Some (RouteMessage_clean x))"

context kv_reliable
begin

text \<open>
  A failed delivery: every third attempt the message goes to the database, and only then out of
  the cache.
\<close>

lemma HandleMessageFailed_ok:
  assumes x: "heap_get (rl_heap r) a = Some x" and m: "rm_Message x = Some m"
  obtains r' where "Relayer_HandleMessageFailed S a src r = Some r'"
    and "rl_heap r' = heap_upd (rl_heap r) a (\<lambda>x. x\<lparr>rm_IsProcessing := False\<rparr>)"
    and "rm_Retry x \<noteq> 0 \<and> rm_Retry x mod DefaultTxRetry = 0 \<Longrightarrow>
      failed_msgs (view (rl_db r'))
        = (failed_msgs (view (rl_db r)))((msg_Src m, msg_Sn m) \<mapsto> RouteMessage_clean (x\<lparr>rm_IsProcessing := False\<rparr>))
      \<and> (\<forall>n k. in_cache r' n k \<longleftrightarrow> in_cache r n k \<and> \<not> (n = src \<and> k = Message_MessageKey m))"
    and "\<not> (rm_Retry x \<noteq> 0 \<and> rm_Retry x mod DefaultTxRetry = 0) \<Longrightarrow>
      rl_db r' = rl_db r \<and> in_cache r' = in_cache r"
proof -
  let ?x = "x\<lparr>rm_IsProcessing := False\<rparr>"
  let ?r1 = "r\<lparr>rl_heap := heap_upd (rl_heap r) a (\<lambda>_. ?x)\<rparr>"
  have h: "heap_upd (rl_heap r) a (\<lambda>_. ?x) = heap_upd (rl_heap r) a (\<lambda>x. x\<lparr>rm_IsProcessing := False\<rparr>)"
    using x by (auto simp: heap_upd_def heap_get_def split: if_splits)
  have mx: "rm_Message ?x = Some m"
    using m by simp
  obtain d' where d': "MessageStore_StoreMessage S prefixMessageStore (rl_db r) (Some ?x) = Some (None, d')"
    "failed_msgs (view d') = (failed_msgs (view (rl_db r)))((msg_Src m, msg_Sn m) \<mapsto> RouteMessage_clean ?x)"
    using StoreMessage_ok [OF mx] by metis
  show ?thesis
  proof (cases "rm_Retry x \<noteq> 0 \<and> rm_Retry x mod DefaultTxRetry = 0")
    case True
    let ?r' = "upd_chain src (\<lambda>c. c\<lparr>cr_MessageCache := MessageCache_Remove (cr_MessageCache c) (Message_MessageKey m)\<rparr>)
      (?r1\<lparr>rl_db := d'\<rparr>)"
    have "Relayer_HandleMessageFailed S a src r = Some ?r'"
      using True m by (simp add: Relayer_HandleMessageFailed_def x RouteMessage_SetIsProcessing_def
          RouteMessage_GetRetry_def RouteMessage_MessageKey_def d'(1))
    then show ?thesis
      using True d'(2) h by (intro that [of ?r']) (simp_all add: in_cache_remove)
  next
    case False
    then have "Relayer_HandleMessageFailed S a src r = Some ?r1"
      by (auto simp: Relayer_HandleMessageFailed_def x RouteMessage_SetIsProcessing_def
          RouteMessage_GetRetry_def)
    then show ?thesis
      using False h by (intro that [of ?r1]) simp_all
  qed
qed

text \<open>The message the database holds when a failed delivery has taken it out of the cache.\<close>

lemma HandleMessageFailed_removal:
  assumes "Relayer_HandleMessageFailed S a src r = Some r'"
    and "in_cache r n k" and "\<not> in_cache r' n k"
  obtains x where "RouteMessage_MessageKey x = Some k" "rm_Retry x \<noteq> 0"
    "rm_Retry x mod DefaultTxRetry = 0" "heap_get (rl_heap r) a = Some x"
    "failed_msgs (view (rl_db r')) (key_Src k, key_Sn k)
       = Some (RouteMessage_clean (x\<lparr>rm_IsProcessing := False\<rparr>))"
proof -
  obtain x where x: "heap_get (rl_heap r) a = Some x"
    using assms(1) by (auto simp: Relayer_HandleMessageFailed_def split: option.splits)
  have "rm_Message x \<noteq> None \<or> in_cache r' = in_cache r"
    using assms(1) x
    by (auto simp: Relayer_HandleMessageFailed_def MessageStore_StoreMessage_def Let_def
        RouteMessage_SetIsProcessing_def split: if_splits option.splits)
  then obtain m where m: "rm_Message x = Some m"
    using assms(2,3) by auto
  obtain q where q: "Relayer_HandleMessageFailed S a src r = Some q"
    and yes: "rm_Retry x \<noteq> 0 \<and> rm_Retry x mod DefaultTxRetry = 0 \<Longrightarrow>
      failed_msgs (view (rl_db q))
        = (failed_msgs (view (rl_db r)))((msg_Src m, msg_Sn m) \<mapsto> RouteMessage_clean (x\<lparr>rm_IsProcessing := False\<rparr>))
      \<and> (\<forall>n k. in_cache q n k \<longleftrightarrow> in_cache r n k \<and> \<not> (n = src \<and> k = Message_MessageKey m))"
    and no: "\<not> (rm_Retry x \<noteq> 0 \<and> rm_Retry x mod DefaultTxRetry = 0) \<Longrightarrow>
      rl_db q = rl_db r \<and> in_cache q = in_cache r"
    using HandleMessageFailed_ok [OF x m, of src] by metis
  have "q = r'"
    using q assms(1) by simp
  then have retry: "rm_Retry x \<noteq> 0 \<and> rm_Retry x mod DefaultTxRetry = 0"
    using no assms(2,3) by metis
  moreover from this have k: "k = Message_MessageKey m"
    using yes \<open>q = r'\<close> assms(2,3) by metis
  ultimately show ?thesis
    using yes \<open>q = r'\<close> m x by (intro that [of x]) (simp_all add: RouteMessage_MessageKey_def)
qed

lemma callback_removal:
  assumes "Relayer_callback S dst src key resp r = Some r'"
    and "in_cache r n k" and "\<not> in_cache r' n k"
  shows "(n = src \<and> k = key \<and> tr_Code resp = Success) \<or> saved_failed (view (rl_db r')) k"
proof (cases "tr_Code resp = Success")
  case True
  have "in_cache r' = in_cache r \<or> (\<exists>d. in_cache r' = in_cache (snd (Relayer_ClearMessages S [key] src (r\<lparr>rl_db := d\<rparr>))))
      \<or> in_cache r' = in_cache (snd (Relayer_ClearMessages S [key] src r))"
    using assms(1) True unfolding Relayer_callback_def
    by (auto simp: Let_def split: option.splits if_splits prod.splits)
  then show ?thesis
    using True assms(2,3) by (auto simp: in_cache_ClearMessages)
next
  case False
  then have "in_cache r' = in_cache r \<or> (\<exists>a. Relayer_HandleMessageFailed S a src r = Some r')"
    using assms(1) unfolding Relayer_callback_def by (auto split: option.splits)
  then obtain a where "Relayer_HandleMessageFailed S a src r = Some r'"
    using assms(2,3) by auto
  from HandleMessageFailed_removal [OF this assms(2,3)] show ?thesis
    unfolding saved_failed_def
    by (metis (no_types, lifting) RouteMessage.select_convs(3) RouteMessage.surjective
        RouteMessage.update_convs(3) RouteMessage_MessageKey_def RouteMessage.select_convs(1,2))
qed

lemma process_message_removal:
  assumes "process_message S src a r = Some r'" and "in_cache r n k" and "\<not> in_cache r' n k"
  shows "n = src \<and> dropped r (LProcess src a) n k"
proof -
  obtain x m c where x: "heap_get (rl_heap r) a = Some x" "rm_Message x = Some m" "chain_at r src = Some c"
    using assms(1) unfolding process_message_def by (auto split: option.splits)
  have "in_cache r' = in_cache (snd (Relayer_ClearMessages S [Message_MessageKey m] src r)) \<and>
      dropped r (LProcess src a) src (Message_MessageKey m) \<or> in_cache r' = in_cache r"
    using assms(1) x unfolding process_message_def dropped_def Relayer_FindChainRuntime_def
    by (auto split: option.splits prod.splits bool.splits)
  then show ?thesis
    using assms(2,3) by (auto simp: in_cache_ClearMessages)
qed

lemma step_removal:
  assumes step: "relay_step S g l (Some g')" and wf: "config_wf g"
    and "in_cache (fst g) n k" and "\<not> in_cache (fst g') n k"
  shows "delivered l n k \<or> dropped (fst g) l n k \<or> saved_failed (view (rl_db (fst g'))) k"
proof -
  have w: "relayer_wf (fst g)"
    using wf by (simp add: config_wf_def)
  show ?thesis
    using step assms(3,4) w
  proof (cases rule: relay_step.cases)
    case (step_block r nid ts b)
    then show ?thesis
      using assms(3,4) in_cache_processBlockInfo by (fastforce simp: with_threads_Some)
  next
    case (step_merge r xs nid m ms ys ts)
    have "keeps r (r\<lparr>rl_go := xs @ GoMerge nid ms # ys\<rparr>)"
    proof -
      have ev: "evolves r (r\<lparr>rl_go := xs @ GoMerge nid ms # ys\<rparr>)"
        by (simp add: evolves_def)
      have go: "rl_go r = xs @ GoMerge nid (m # ms) # ys"
        by (fact step_merge)
      show ?thesis
        using ev evolves_go_ok [OF ev] go by (auto simp: keeps_def relayer_wf_def caches_wf_def)
    qed
    then have "relayer_wf (r\<lparr>rl_go := xs @ GoMerge nid ms # ys\<rparr>)"
      using w step_merge(1) keepsD by simp
    from in_cache_merge_into [OF this, of nid "[m]" _ n k] show ?thesis
      using step_merge(1,3) assms(3,4) by (auto simp: with_threads_Some)
  next
    case (step_process r us src a vs)
    then have "n = src \<and> dropped r (LProcess src a) n k"
      using assms(3,4) process_message_removal [of src a r _ n k] by (auto simp: with_threads_Some)
    then show ?thesis
      unfolding step_process(1,2) fst_conv by blast
  next
    case (step_callback dst src ts r key response)
    then show ?thesis
      using assms(3,4) callback_removal [of dst src key response r _ n k]
      by (auto simp: with_threads_Some delivered_def)
  next
    case (step_failed r us a src vs)
    then obtain r' where r': "Relayer_HandleMessageFailed S a src r = Some r'" "fst g = r" "fst g' = r'"
      by (auto simp: with_threads_Some)
    show ?thesis
      using HandleMessageFailed_removal [OF r'(1), of n k] assms(3,4) unfolding r'(2,3) saved_failed_def
      by (metis (no_types, lifting) RouteMessage.select_convs(3) RouteMessage.surjective
          RouteMessage.update_convs(3) RouteMessage_MessageKey_def RouteMessage.select_convs(1,2))
  next
    case (step_flush_add r us nid m ms nids vs)
    then show ?thesis
      using assms(3,4) w in_cache_add_to_chain [of r nid "[m]" _ n k] by (auto simp: with_threads_Some)
  next
    case (step_check r us nid fb lh t txs vs)
    then show ?thesis
      using assms(3,4) w in_cache_check_tx [of r S nid fb lh t _ n k] by (auto simp: with_threads_Some)
  qed (auto simp: mark_route_def split: sum.splits option.splits prod.splits)
qed

end

subsection \<open>The handlers are schedules of the steps\<close>

lemma relay_run_append:
  "relay_run S g2 ls2 out \<Longrightarrow> relay_run S g1 ls1 (Some g2) \<Longrightarrow> relay_run S g1 (ls1 @ ls2) out"
proof (induction rule: relay_run.induct)
  case (run_step ls g' l out)
  then show ?case
    by (metis append_assoc relay_run.run_step)
qed simp

lemma relay_run_one: "relay_step S g l out \<Longrightarrow> relay_run S g [l] out"
  using relay_run.run_step [OF relay_run.run_nil] by fastforce

definition reaches :: "'d Store \<Rightarrow> ('d, 'w) config \<Rightarrow> ('d, 'w) config \<Rightarrow> bool" where
  "reaches S g g' \<longleftrightarrow> (\<exists>ls. relay_run S g ls (Some g') \<and> list_all label_ok ls)"

lemma reaches_refl [simp]: "reaches S g g"
  unfolding reaches_def using relay_run.run_nil by fastforce

lemma reaches_step: "relay_step S g l (Some g') \<Longrightarrow> label_ok l \<Longrightarrow> reaches S g g'"
  unfolding reaches_def using relay_run_one by fastforce

lemma reaches_trans: "reaches S g1 g2 \<Longrightarrow> reaches S g2 g3 \<Longrightarrow> reaches S g1 g3"
  unfolding reaches_def using relay_run_append by (metis list_all_append)

lemma reaches_pick:
  "chain_at r src = Some c \<Longrightarrow> set es \<subseteq> set (cr_MessageCache c) \<Longrightarrow>
     reaches S (r, ts) (r, map (TPicked src \<circ> snd) (rev es) @ ts)"
proof (induction es arbitrary: ts)
  case (Cons e es)
  obtain k a where e: "e = (k, a)"
    by fastforce
  have "relay_step S (r, ts) (LPick src a) (Some (r, TPicked src a # ts))"
    using Cons.prems by (intro step_pick) (auto simp: e)
  then have "reaches S (r, ts) (r, TPicked src a # ts)"
    by (rule reaches_step) simp
  moreover have "reaches S (r, TPicked src a # ts) (r, map (TPicked src \<circ> snd) (rev es) @ TPicked src a # ts)"
    using Cons.prems by (intro Cons.IH) auto
  ultimately have "reaches S (r, ts) (r, map (TPicked src \<circ> snd) (rev es) @ TPicked src a # ts)"
    by (rule reaches_trans)
  then show ?case
    by (simp add: e comp_def)
qed simp

lemma reaches_process:
  "process_entries S src as r = Some r' \<Longrightarrow> reaches S (r, map (TPicked src) (rev as) @ ts) (r', ts)"
proof (induction as arbitrary: r)
  case (Cons a as)
  then obtain r1 where r1: "process_message S src a r = Some r1" "process_entries S src as r1 = Some r'"
    by (auto split: option.splits)
  have "relay_step S (r, map (TPicked src) (rev as) @ TPicked src a # ts) (LProcess src a)
      (Some (r1, map (TPicked src) (rev as) @ ts))"
    using step_process [of S r "map (TPicked src) (rev as)" src a ts] by (simp add: r1 with_threads_def)
  then have "reaches S (r, map (TPicked src) (rev (a # as)) @ ts) (r1, map (TPicked src) (rev as) @ ts)"
    by (intro reaches_step [where l = "LProcess src a"]) simp_all
  with Cons.IH [OF r1(2)] show ?case
    by (blast intro: reaches_trans)
qed simp

lemma reaches_process_chains:
  "process_chains S nids r = Some r' \<Longrightarrow> reaches S (r, ts) (r', ts)"
proof (induction nids arbitrary: r)
  case (Cons nid nids)
  then obtain c r1 where c: "chain_at r nid = Some c"
    and r1: "process_entries S nid (map snd (cr_MessageCache c)) r = Some r1" "process_chains S nids r1 = Some r'"
    by (auto split: option.splits)
  have "reaches S (r, ts) (r, map (TPicked nid) (rev (map snd (cr_MessageCache c))) @ ts)"
    using reaches_pick [OF c subset_refl] by (simp add: rev_map comp_def)
  with reaches_process [OF r1(1)] Cons.IH [OF r1(2)] show ?case
    by (blast intro: reaches_trans)
qed simp

lemma reaches_processMessages: "Relayer_processMessages S r = Some r' \<Longrightarrow> reaches S (r, ts) (r', ts)"
  unfolding Relayer_processMessages_def by (rule reaches_process_chains)

lemma reaches_callbacks:
  "run_callbacks S dst src cbs r = Some r' \<Longrightarrow> TAwait dst src \<in> set ts \<Longrightarrow> reaches S (r, ts) (r', ts)"
proof (induction cbs arbitrary: r)
  case (Cons cb cbs)
  obtain key response err where cb: "cb = (key, response, err)"
    by (cases cb)
  then obtain r1 where r1: "Relayer_callback S dst src key response r = Some r1" "run_callbacks S dst src cbs r1 = Some r'"
    using Cons.prems(1) by (auto split: option.splits)
  have "relay_step S (r, ts) (LCallback dst src key response) (Some (r1, ts))"
    using step_callback [OF Cons.prems(2), of S r key response] by (simp add: r1 with_threads_def)
  then have "reaches S (r, ts) (r1, ts)"
    by (rule reaches_step) simp
  then show ?case
    using Cons.IH [OF r1(2) Cons.prems(2)] by (rule reaches_trans)
qed simp

text \<open>The goroutine of \<open>RouteMessage\<close>, run without interruption; its callback stays with the provider.\<close>

lemma reaches_RouteMessage:
  assumes go: "rl_go r = xs @ GoRoute a dst src # ys"
    and run: "Relayer_RouteMessage S a dst src (r\<lparr>rl_go := xs @ ys\<rparr>) = Some r'"
  shows "reaches S (r, ts) (r', TAwait dst src # ts)"
proof -
  define r1 where "r1 = mark_route a (r\<lparr>rl_go := xs @ ys\<rparr>)"
  obtain m dstc cbs err w r2 where m: "heap_get (rl_heap r1) a = Some m" "chain_at r1 dst = Some dstc"
    "Route (cr_Provider dstc) (rl_world r1) (RouteMessage_GetMessage m) = Some (cbs, err, w)"
    and cbs: "run_callbacks S dst src cbs (r1\<lparr>rl_world := w\<rparr>) = Some r2"
    and r': "case err of None \<Rightarrow> r' = r2 | Some e \<Rightarrow> Relayer_HandleMessageFailed S a src r2 = Some r'"
    using run unfolding Relayer_RouteMessage_def r1_def [symmetric] Let_def
    by (auto split: option.splits prod.splits)
  let ?f = "if err = None then [] else [TFailed a src]"
  have "relay_step S (r, ts) (LRoute a dst src) (Some (r1\<lparr>rl_world := w\<rparr>, TAwait dst src # ?f @ ts))"
    using step_route [OF go r1_def m(1,2), of S ts] by (simp add: m(3))
  then have "reaches S (r, ts) (r1\<lparr>rl_world := w\<rparr>, TAwait dst src # ?f @ ts)"
    by (rule reaches_step) simp
  moreover have "reaches S (r1\<lparr>rl_world := w\<rparr>, TAwait dst src # ?f @ ts) (r2, TAwait dst src # ?f @ ts)"
    by (rule reaches_callbacks [OF cbs]) simp
  moreover have "reaches S (r2, TAwait dst src # ?f @ ts) (r', TAwait dst src # ts)"
  proof (cases err)
    case (Some e)
    then have "relay_step S (r2, [TAwait dst src] @ TFailed a src # ts) (LFailed a src) (Some (r', [TAwait dst src] @ ts))"
      using step_failed [of S r2 "[TAwait dst src]" a src ts] r' by (simp add: with_threads_def)
    then show ?thesis
      using Some by (intro reaches_step [where l = "LFailed a src"]) simp_all
  qed (use r' in simp)
  ultimately show ?thesis
    by (blast intro: reaches_trans)
qed

text \<open>Adding one message after the other, as the loop of a flush does.\<close>

lemma upd_chain_twice:
  "upd_chain nid f ((upd_chain nid g r)\<lparr>rl_heap := h\<rparr>) = upd_chain nid (f \<circ> g) (r\<lparr>rl_heap := h\<rparr>)"
  by (simp add: upd_chain_def comp_def case_prod_unfold)

lemma add_to_chain_Nil: "chain_at r nid = Some c \<Longrightarrow> map_wf (rl_chains r) \<Longrightarrow> add_to_chain nid [] r = Some r"
proof -
  assume c: "chain_at r nid = Some c" and wf: "map_wf (rl_chains r)"
  have "map (\<lambda>(k, c'). (k, if k = nid then c'\<lparr>cr_MessageCache := cr_MessageCache c\<rparr> else c')) (rl_chains r)
      = rl_chains r"
  proof (rule map_idI)
    fix e
    assume e: "e \<in> set (rl_chains r)"
    then have "chain_at r (fst e) = Some (snd e)"
      using wf by (simp add: chain_at_def map_wf_get_iff)
    then show "(case e of (k, c') \<Rightarrow> (k, if k = nid then c'\<lparr>cr_MessageCache := cr_MessageCache c\<rparr> else c')) = e"
      using c by (auto simp: case_prod_unfold prod_eq_iff)
  qed
  then show ?thesis
    by (simp add: add_to_chain_def c upd_chain_def)
qed

lemma add_to_chain_Cons:
  "add_to_chain nid (m # ms) r = Option.bind (add_to_chain nid [m] r) (add_to_chain nid ms)"
proof (cases "chain_at r nid")
  case (Some c)
  have upd: "(\<lambda>c. c\<lparr>cr_MessageCache := x\<rparr>) \<circ> (\<lambda>c. c\<lparr>cr_MessageCache := y\<rparr>) = (\<lambda>c. c\<lparr>cr_MessageCache := x\<rparr>)"
    for x y :: MessageCache
    by (simp add: comp_def)
  show ?thesis
    by (auto simp: add_to_chain_def Some heap_new_def upd_chain_twice upd split: option.split)
qed (simp add: add_to_chain_def)

lemma add_to_chain_wf: "add_to_chain nid ms r = Some r' \<Longrightarrow> map_wf (rl_chains r) \<Longrightarrow> map_wf (rl_chains r')"
  by (auto simp: add_to_chain_def upd_chain_def comp_def case_prod_unfold split: option.splits)

lemma reaches_flush_add:
  "add_to_chain nid ms r = Some r' \<Longrightarrow> map_wf (rl_chains r) \<Longrightarrow>
     reaches S (r, TFlushAdd nid ms nids # ts) (r', TFlush nids # ts)"
proof (induction ms arbitrary: r)
  case Nil
  then obtain c where "chain_at r nid = Some c"
    by (auto simp: add_to_chain_def split: option.splits)
  then have "r' = r"
    using add_to_chain_Nil Nil by fastforce
  moreover have "relay_step S (r, [] @ TFlushAdd nid [] nids # ts) LFlushed (Some (r, [] @ TFlush nids # ts))"
    by (rule step_flush_added)
  ultimately show ?case
    using reaches_step by fastforce
next
  case (Cons m ms)
  then obtain r1 where r1: "add_to_chain nid [m] r = Some r1" "add_to_chain nid ms r1 = Some r'"
    unfolding add_to_chain_Cons [of nid m ms] by (auto simp: bind_eq_Some_conv)
  have "relay_step S (r, [] @ TFlushAdd nid (m # ms) nids # ts) (LFlushAdd nid m)
      (Some (r1, [] @ TFlushAdd nid ms nids # ts))"
    using step_flush_add [of S r "[]" nid m ms nids ts] by (simp add: r1 with_threads_def)
  then have "reaches S (r, TFlushAdd nid (m # ms) nids # ts) (r1, TFlushAdd nid ms nids # ts)"
    by (intro reaches_step [where l = "LFlushAdd nid m"]) simp_all
  moreover have "reaches S (r1, TFlushAdd nid ms nids # ts) (r', TFlush nids # ts)"
    using Cons.IH r1 add_to_chain_wf Cons.prems(2) by blast
  ultimately show ?case
    by (rule reaches_trans)
qed

lemma reaches_flush_chains:
  "flush_chains S nids r = Some r' \<Longrightarrow> map_wf (rl_chains r) \<Longrightarrow> reaches S (r, TFlush nids # ts) (r', ts)"
proof (induction nids arbitrary: r)
  case Nil
  then show ?case
    using step_flushed [of S r "[]" ts] by (auto intro: reaches_step)
next
  case (Cons nid nids)
  then obtain c where c: "chain_at r nid = Some c"
    by (auto split: option.splits)
  show ?case
  proof (cases "Relayer_getActiveMessagesFromStore S (rl_db r) (NID (cr_Provider c)) maxFlushMessage")
    case (Inl e)
    have "relay_step S (r, [] @ TFlush (nid # nids) # ts) (LFlushRead nid) (Some (r, [] @ TFlush nids # ts))"
      using step_flush_read [OF c, of S "[]" nids ts] by (simp add: Inl)
    then have "reaches S (r, TFlush (nid # nids) # ts) (r, TFlush nids # ts)"
      by (intro reaches_step [where l = "LFlushRead nid"]) simp_all
    moreover have "reaches S (r, TFlush nids # ts) (r', ts)"
      using Cons c Inl by simp
    ultimately show ?thesis
      by (rule reaches_trans)
  next
    case (Inr ms)
    obtain r1 where r1: "add_to_chain nid ms r = Some r1" "flush_chains S nids r1 = Some r'"
      using Cons.prems(1) unfolding flush_chains_step c by (auto simp: Inr split: option.splits)
    have "relay_step S (r, [] @ TFlush (nid # nids) # ts) (LFlushRead nid) (Some (r, [] @ TFlushAdd nid ms nids # ts))"
      using step_flush_read [OF c, of S "[]" nids ts] by (simp add: Inr)
    then have "reaches S (r, TFlush (nid # nids) # ts) (r, TFlushAdd nid ms nids # ts)"
      by (intro reaches_step [where l = "LFlushRead nid"]) simp_all
    moreover have "reaches S (r, TFlushAdd nid ms nids # ts) (r1, TFlush nids # ts)"
      using r1(1) Cons.prems(2) by (rule reaches_flush_add)
    moreover have "reaches S (r1, TFlush nids # ts) (r', ts)"
      using r1 Cons add_to_chain_wf by blast
    ultimately show ?thesis
      by (blast intro: reaches_trans)
  qed
qed

lemma reaches_flushMessages:
  assumes "Relayer_flushMessages S r = Some r'" and "map_wf (rl_chains r)"
  shows "reaches S (r, ts) (r', ts)"
proof (cases "MessageStore_TotalCount S prefixMessageStore (rl_db r)")
  case (Inr n)
  show ?thesis
  proof (cases "n = 0")
    case False
    have "relay_step S (r, ts) LFlush (Some (r, TFlush (map fst (rl_chains r)) # ts))"
      using Inr False by (rule step_flush)
    then have "reaches S (r, ts) (r, TFlush (map fst (rl_chains r)) # ts)"
      by (rule reaches_step) simp
    moreover have "flush_chains S (map fst (rl_chains r)) r = Some r'"
      using assms(1) False by (simp add: Relayer_flushMessages_def Inr)
    ultimately show ?thesis
      using reaches_flush_chains assms(2) reaches_trans by blast
  qed (use assms in \<open>simp add: Relayer_flushMessages_def Inr\<close>)
qed (use assms in \<open>simp add: Relayer_flushMessages_def\<close>)

lemma reaches_check_txs:
  "check_txs S nid fb lh txs r = Some r' \<Longrightarrow> reaches S (r, TFinality nid fb lh txs # ts) (r', ts)"
proof (induction txs arbitrary: r)
  case Nil
  then show ?case
    using step_checked [of S r "[]" nid fb lh ts] by (auto intro: reaches_step)
next
  case (Cons t txs)
  then obtain r1 where r1: "check_tx S nid fb lh t r = Some r1" "check_txs S nid fb lh txs r1 = Some r'"
    by (auto split: option.splits)
  have "relay_step S (r, [] @ TFinality nid fb lh (t # txs) # ts) (LCheck nid t)
      (Some (r1, [] @ TFinality nid fb lh txs # ts))"
    using step_check [of S r "[]" nid fb lh t txs ts] by (simp add: r1 with_threads_def)
  then have "reaches S (r, TFinality nid fb lh (t # txs) # ts) (r1, TFinality nid fb lh txs # ts)"
    by (intro reaches_step [where l = "LCheck nid t"]) simp_all
  then show ?case
    using Cons.IH [OF r1(2)] by (rule reaches_trans)
qed

lemma reaches_check_chains: "check_chains S nids r = Some r' \<Longrightarrow> reaches S (r, ts) (r', ts)"
proof (induction nids arbitrary: r)
  case (Cons nid nids)
  then obtain c where c: "chain_at r nid = Some c"
    by (auto split: option.splits)
  define fb where "fb = FinalityBlock (cr_Provider c) (rl_world r)"
  show ?case
  proof (cases "0 < fb \<and> (\<exists>txs. FinalityStore_GetTxObjects S prefixFinalityStore (rl_db r)
      (NID (cr_Provider c)) (Pagination_GetAll NewPagination) = Inr txs)")
    case True
    then obtain txs where fb: "0 < fb" and txs: "FinalityStore_GetTxObjects S prefixFinalityStore (rl_db r)
      (NID (cr_Provider c)) (Pagination_GetAll NewPagination) = Inr txs"
      by blast
    obtain r1 where r1: "check_txs S nid fb (LastBlockHeight c) txs r = Some r1" "check_chains S nids r1 = Some r'"
      using Cons.prems fb by (auto simp: c fb_def txs Let_def split: option.splits)
    have "relay_step S (r, ts) (LFinality nid) (Some (r, TFinality nid fb (LastBlockHeight c) txs # ts))"
      using c fb_def fb txs by (rule step_finality)
    then have "reaches S (r, ts) (r, TFinality nid fb (LastBlockHeight c) txs # ts)"
      by (rule reaches_step) simp
    then show ?thesis
      using reaches_check_txs [OF r1(1)] Cons.IH [OF r1(2)] by (blast intro: reaches_trans)
  next
    case False
    then have "check_chains S nids r = Some r'"
      using Cons.prems by (auto simp: c fb_def Let_def split: if_splits sum.splits)
    then show ?thesis
      by (rule Cons.IH)
  qed
qed simp

lemma reaches_CheckFinality: "Relayer_CheckFinality S r = Some r' \<Longrightarrow> reaches S (r, ts) (r', ts)"
  unfolding Relayer_CheckFinality_def by (rule reaches_check_chains)

subsection \<open>What a run changes, and what one tick of the router starts\<close>

lemma keeps_run: "relay_run S g ls out \<Longrightarrow> out = Some g' \<Longrightarrow> keeps (fst g) (fst g')"
proof (induction arbitrary: g' rule: relay_run.induct)
  case (run_step ls g1 l out)
  then show ?case
    using keeps_step keeps_trans by metis
qed simp

definition eligible :: "('d, 'w) Relayer \<Rightarrow> addr \<Rightarrow> string \<Rightarrow> string \<Rightarrow> bool" where
  "eligible r a dst src \<longleftrightarrow>
     (\<exists>x m dc sc. heap_get (rl_heap r) a = Some x \<and> rm_Message x = Some m \<and> dst = msg_Dst m \<and>
        chain_at r dst = Some dc \<and> chain_at r src = Some sc \<and> \<not> rm_IsProcessing x \<and>
        fst (ShouldReceiveMessage (cr_Provider dc) (rl_world r) m) \<and>
        fst (ShouldSendMessage (cr_Provider sc) (rl_world r) m) \<and>
        MessageReceived (cr_Provider dc) (rl_world r) (Message_MessageKey m) = (False, None))"

text \<open>Only clearing touches a cache during a tick, so caches shrink and nothing else changes.\<close>

definition shrinks :: "('d, 'w) Relayer \<Rightarrow> ('d, 'w) Relayer \<Rightarrow> bool" where
  "shrinks r r' \<longleftrightarrow> rl_heap r' = rl_heap r \<and> rl_world r' = rl_world r \<and>
     (\<forall>n c'. chain_at r' n = Some c' \<longrightarrow>
        (\<exists>c. chain_at r n = Some c \<and> cr_Provider c' = cr_Provider c \<and>
           set (cr_MessageCache c') \<subseteq> set (cr_MessageCache c)))"

lemma shrinks_refl [simp]: "shrinks r r"
  by (simp add: shrinks_def)

lemma shrinks_chain:
  assumes "shrinks r r'" and "chain_at r' n = Some c'"
  obtains c where "chain_at r n = Some c" "cr_Provider c' = cr_Provider c"
    "set (cr_MessageCache c') \<subseteq> set (cr_MessageCache c)"
  using assms unfolding shrinks_def by blast

lemma shrinks_trans: "shrinks r1 r2 \<Longrightarrow> shrinks r2 r3 \<Longrightarrow> shrinks r1 r3"
  unfolding shrinks_def by (fastforce dest: spec)

lemma clearMessageFromCache_subset: "set (clearMessageFromCache ks c) \<subseteq> set c"
proof (induction ks c rule: clearMessageFromCache.induct)
  case (2 k ks c)
  then show ?case
    using set_delete_subset by (fastforce simp: MessageCache_Remove_def)
qed simp

lemma shrinks_ClearMessages: "shrinks r (snd (Relayer_ClearMessages S ks src r))"
  using clearMessageFromCache_subset
  by (auto simp: shrinks_def ClearMessages_eq split: if_splits)

lemma go_ClearMessages [simp, frame]: "rl_go (snd (Relayer_ClearMessages S ks src r)) = rl_go r"
  by (simp add: ClearMessages_eq)

lemma shrinks_spawn: "shrinks r (spawn g r)"
  by (simp add: shrinks_def)

lemma eligible_shrinks:
  assumes "shrinks r r'" and "eligible r' a dst src"
  shows "eligible r a dst src"
proof -
  have w: "rl_heap r' = rl_heap r" "rl_world r' = rl_world r"
    using assms(1) by (simp_all add: shrinks_def)
  obtain x m dc sc where e: "heap_get (rl_heap r) a = Some x" "rm_Message x = Some m" "dst = msg_Dst m"
    "chain_at r' dst = Some dc" "chain_at r' src = Some sc" "\<not> rm_IsProcessing x"
    "fst (ShouldReceiveMessage (cr_Provider dc) (rl_world r) m)"
    "fst (ShouldSendMessage (cr_Provider sc) (rl_world r) m)"
    "MessageReceived (cr_Provider dc) (rl_world r) (Message_MessageKey m) = (False, None)"
    using assms(2) unfolding eligible_def w by blast
  obtain dc0 sc0 where "chain_at r dst = Some dc0" "cr_Provider dc = cr_Provider dc0"
    "chain_at r src = Some sc0" "cr_Provider sc = cr_Provider sc0"
    using assms(1) e(4,5) by (metis shrinks_chain)
  with e show ?thesis
    unfolding eligible_def by auto
qed

lemma process_message_effect:
  assumes "process_message S src a r = Some r'"
  shows "shrinks r r' \<and> (rl_go r' = rl_go r \<or>
    (\<exists>dst. rl_go r' = rl_go r @ [GoRoute a dst src] \<and> eligible r a dst src))"
proof -
  obtain x m sc where x: "heap_get (rl_heap r) a = Some x" "rm_Message x = Some m" "chain_at r src = Some sc"
    using assms unfolding process_message_def by (auto split: option.splits)
  show ?thesis
  proof (cases "chain_at r (msg_Dst m)")
    case None
    then show ?thesis
      using assms x shrinks_ClearMessages
      by (auto simp: process_message_def Relayer_FindChainRuntime_def)
  next
    case (Some dc)
    obtain b where b: "shouldSendMessage (rl_world r) dc (Some x) sc = Some b"
      by (metis shouldSendMessage_total [OF x(2)])
    obtain rec err where mr: "MessageReceived (cr_Provider dc) (rl_world r) (Message_MessageKey m) = (rec, err)"
      by fastforce
    have "eligible r a (msg_Dst m) src" if "b" "rec = False" "err = None"
      using that b x Some mr shouldSendMessage_True_iff [of "rl_world r" dc x sc] by (auto simp: eligible_def)
    then show ?thesis
      using assms x Some b mr shrinks_ClearMessages shrinks_spawn
      by (cases b; cases rec; cases err)
        (auto simp: process_message_def Relayer_FindChainRuntime_def)
  qed
qed

lemma process_entries_effect:
  "process_entries S src as r = Some r' \<Longrightarrow>
     shrinks r r' \<and> (\<exists>gs. rl_go r' = rl_go r @ gs \<and> length gs \<le> length as \<and>
       (\<forall>g \<in> set gs. \<exists>a dst. g = GoRoute a dst src \<and> a \<in> set as \<and> eligible r a dst src))"
proof (induction as arbitrary: r)
  case (Cons a as)
  then obtain r1 where r1: "process_message S src a r = Some r1" "process_entries S src as r1 = Some r'"
    by (auto split: option.splits)
  obtain gs where gs: "rl_go r' = rl_go r1 @ gs" "length gs \<le> length as"
    "\<forall>g \<in> set gs. \<exists>a dst. g = GoRoute a dst src \<and> a \<in> set as \<and> eligible r1 a dst src" "shrinks r1 r'"
    using Cons.IH [OF r1(2)] by blast
  have e: "shrinks r r1" "rl_go r1 = rl_go r \<or> (\<exists>dst. rl_go r1 = rl_go r @ [GoRoute a dst src] \<and> eligible r a dst src)"
    using process_message_effect [OF r1(1)] by blast+
  have gs': "\<forall>g \<in> set gs. \<exists>a dst. g = GoRoute a dst src \<and> a \<in> set as \<and> eligible r a dst src"
    using gs(3) eligible_shrinks [OF e(1)] by blast
  have "\<exists>gs1. rl_go r1 = rl_go r @ gs1 \<and> length gs1 \<le> 1 \<and>
      (\<forall>g \<in> set gs1. \<exists>dst. g = GoRoute a dst src \<and> eligible r a dst src)"
    using e(2) by (elim disjE exE conjE) (auto intro: exI [of _ "[]"])
  then obtain gs1 where "rl_go r1 = rl_go r @ gs1" "length gs1 \<le> 1"
      "\<forall>g \<in> set gs1. \<exists>dst. g = GoRoute a dst src \<and> eligible r a dst src"
    by blast
  then have "rl_go r' = rl_go r @ (gs1 @ gs) \<and> length (gs1 @ gs) \<le> length (a # as) \<and>
      (\<forall>g \<in> set (gs1 @ gs). \<exists>b dst. g = GoRoute b dst src \<and> b \<in> set (a # as) \<and> eligible r b dst src)"
    using gs(1,2) gs' by auto
  then show ?case
    using shrinks_trans [OF e(1) gs(4)] by blast
qed simp

lemma process_chains_effect:
  "process_chains S nids r = Some r' \<Longrightarrow>
     shrinks r r' \<and> (\<exists>gs. rl_go r' = rl_go r @ gs \<and>
       (\<forall>g \<in> set gs. \<exists>a dst src c k. g = GoRoute a dst src \<and> chain_at r src = Some c \<and>
          (k, a) \<in> set (cr_MessageCache c) \<and> eligible r a dst src))"
proof (induction nids arbitrary: r)
  case (Cons nid nids)
  then obtain c r1 where c: "chain_at r nid = Some c"
    and r1: "process_entries S nid (map snd (cr_MessageCache c)) r = Some r1" "process_chains S nids r1 = Some r'"
    by (auto split: option.splits)
  obtain gs1 where gs1: "shrinks r r1" "rl_go r1 = rl_go r @ gs1"
    "\<forall>g \<in> set gs1. \<exists>a dst. g = GoRoute a dst nid \<and> a \<in> set (map snd (cr_MessageCache c)) \<and> eligible r a dst nid"
    using process_entries_effect [OF r1(1)] by blast
  obtain gs2 where gs2: "shrinks r1 r'" "rl_go r' = rl_go r1 @ gs2"
    "\<forall>g \<in> set gs2. \<exists>a dst src c k. g = GoRoute a dst src \<and> chain_at r1 src = Some c \<and>
          (k, a) \<in> set (cr_MessageCache c) \<and> eligible r1 a dst src"
    using Cons.IH [OF r1(2)] by blast
  have "\<exists>a dst src c k. g = GoRoute a dst src \<and> chain_at r src = Some c \<and>
          (k, a) \<in> set (cr_MessageCache c) \<and> eligible r a dst src" if "g \<in> set gs2" for g
    using gs2(3) that eligible_shrinks [OF gs1(1)] shrinks_chain [OF gs1(1)] by (metis subset_iff)
  moreover have "\<exists>a dst src c k. g = GoRoute a dst src \<and> chain_at r src = Some c \<and>
          (k, a) \<in> set (cr_MessageCache c) \<and> eligible r a dst src" if "g \<in> set gs1" for g
    using gs1(3) that c by fastforce
  ultimately have "\<forall>g \<in> set (gs1 @ gs2). \<exists>a dst src c k. g = GoRoute a dst src \<and> chain_at r src = Some c \<and>
          (k, a) \<in> set (cr_MessageCache c) \<and> eligible r a dst src"
    by auto
  then show ?case
    using shrinks_trans [OF gs1(1) gs2(1)] gs1(2) gs2(2) by (metis append.assoc)
qed simp

subsection \<open>A tick always finishes\<close>

lemma process_message_keeps_heap: "process_message S src a r = Some r' \<Longrightarrow> rl_heap r' = rl_heap r"
  using process_message_effect [of S src a r r'] by (simp add: shrinks_def)

lemma process_entries_total:
  "relayer_wf r \<Longrightarrow> chain_at r src \<noteq> None \<Longrightarrow> \<forall>a \<in> set as. msg_at (rl_heap r) a \<noteq> None \<Longrightarrow>
     \<exists>r'. process_entries S src as r = Some r' \<and> relayer_wf r' \<and> evolves r r'"
proof (induction as arbitrary: r)
  case (Cons a as)
  obtain r1 where r1: "process_message S src a r = Some r1"
    using process_message_total [of r a src S] Cons.prems by auto
  then have r1': "relayer_wf r1" "evolves r r1"
    using keeps_process_message Cons.prems(1) unfolding keeps_def by blast+
  have "chain_at r1 src \<noteq> None"
    using r1'(2) Cons.prems(2) by (metis evolves_chain)
  moreover have "\<forall>a \<in> set as. msg_at (rl_heap r1) a \<noteq> None"
    using process_message_keeps_heap [OF r1] Cons.prems(3) by simp
  ultimately obtain r' where "process_entries S src as r1 = Some r'" "relayer_wf r'" "evolves r1 r'"
    using Cons.IH [OF r1'(1)] by blast
  then show ?case
    using r1 evolves_trans [OF r1'(2)] by auto
qed simp

lemma process_chains_total:
  "relayer_wf r \<Longrightarrow> \<forall>n \<in> set nids. chain_at r n \<noteq> None \<Longrightarrow>
     \<exists>r'. process_chains S nids r = Some r' \<and> relayer_wf r' \<and> evolves r r'"
proof (induction nids arbitrary: r)
  case (Cons n nids)
  obtain c where c: "chain_at r n = Some c"
    using Cons.prems(2) by auto
  have "\<forall>a \<in> set (map snd (cr_MessageCache c)). msg_at (rl_heap r) a \<noteq> None"
    using relayer_wf_caches [OF Cons.prems(1) c]
    by (auto simp: cache_wf_def list_all_iff msg_at_def RouteMessage_MessageKey_def bind_eq_None_conv
        dest!: bspec split: option.splits)
  then obtain r1 where r1: "process_entries S n (map snd (cr_MessageCache c)) r = Some r1" "relayer_wf r1" "evolves r r1"
    using process_entries_total [OF Cons.prems(1)] c by blast
  have "\<forall>n \<in> set nids. chain_at r1 n \<noteq> None"
    using r1(3) Cons.prems(2) by (metis evolves_chain list.set_intros(2))
  then obtain r' where "process_chains S nids r1 = Some r'" "relayer_wf r'" "evolves r1 r'"
    using Cons.IH [OF r1(2)] by blast
  then show ?case
    using r1 c evolves_trans [OF r1(3)] by auto
qed simp

lemma processMessages_total:
  "relayer_wf r \<Longrightarrow> \<exists>r'. Relayer_processMessages S r = Some r' \<and> relayer_wf r' \<and> evolves r r'"
  unfolding Relayer_processMessages_def by (rule process_chains_total) (simp_all add: chain_at_keys del: set_map)

end
