(* ===== verification/RelayTick.thy ===== *)
theory RelayTick
  imports RelayFlow
begin

text \<open>
  The handlers in full: which goroutines one tick of the router starts, what the callback of a
  delivery does to the caches and the stores, and what the finality check does with one pending
  transaction.
\<close>

subsection \<open>The goroutines of a tick\<close>

definition cache_of :: "('d, 'w) Relayer \<Rightarrow> string \<Rightarrow> MessageCache" where
  "cache_of r n = (case chain_at r n of None \<Rightarrow> [] | Some c \<Rightarrow> cr_MessageCache c)"

lemma cache_of_member:
  "e \<in> set (cache_of r n) \<longleftrightarrow> (\<exists>c. chain_at r n = Some c \<and> e \<in> set (cr_MessageCache c))"
  by (cases "chain_at r n") (simp_all add: cache_of_def)

definition route_of :: "('d, 'w) Relayer \<Rightarrow> string \<Rightarrow> addr \<Rightarrow> goroutine list" where
  "route_of r src a =
     (case msg_at (rl_heap r) a of
        None \<Rightarrow> []
      | Some m \<Rightarrow> if eligible r a (msg_Dst m) src then [GoRoute a (msg_Dst m) src] else [])"

lemma eligible_provider:
  "eligible r a dst src \<longleftrightarrow>
     (\<exists>x m dp sp. heap_get (rl_heap r) a = Some x \<and> rm_Message x = Some m \<and> dst = msg_Dst m \<and>
        map_option cr_Provider (chain_at r dst) = Some dp \<and> map_option cr_Provider (chain_at r src) = Some sp \<and>
        \<not> rm_IsProcessing x \<and> fst (ShouldReceiveMessage dp (rl_world r) m) \<and>
        fst (ShouldSendMessage sp (rl_world r) m) \<and>
        MessageReceived dp (rl_world r) (Message_MessageKey m) = (False, None))"
  unfolding eligible_def by auto

lemma route_of_same:
  assumes "evolves r r'" and "rl_heap r' = rl_heap r" and "rl_world r' = rl_world r"
  shows "route_of r' = route_of r"
proof -
  have "map_option cr_Provider (chain_at r' n) = map_option cr_Provider (chain_at r n)" for n
    using assms(1) by (simp add: evolves_def)
  then have "eligible r' = eligible r"
    unfolding fun_eq_iff eligible_provider assms(2,3) by simp
  then show ?thesis
    by (intro ext) (simp only: route_of_def assms(2))
qed

lemma process_message_route:
  assumes "process_message S src a r = Some r'"
  shows "rl_go r' = rl_go r @ route_of r src a"
proof -
  obtain x m sc where x: "heap_get (rl_heap r) a = Some x" "rm_Message x = Some m" "chain_at r src = Some sc"
    using assms unfolding process_message_def by (auto split: option.splits)
  have ro: "route_of r src a = (if eligible r a (msg_Dst m) src then [GoRoute a (msg_Dst m) src] else [])"
    by (simp add: route_of_def msg_at_def x)
  show ?thesis
  proof (cases "chain_at r (msg_Dst m)")
    case None
    then have "\<not> eligible r a (msg_Dst m) src"
      by (simp add: eligible_def)
    with None show ?thesis
      using assms x ro by (auto simp: process_message_def Relayer_FindChainRuntime_def)
  next
    case (Some dc)
    obtain b where b: "shouldSendMessage (rl_world r) dc (Some x) sc = Some b"
      by (metis shouldSendMessage_total [OF x(2)])
    obtain rec err where mr: "MessageReceived (cr_Provider dc) (rl_world r) (Message_MessageKey m) = (rec, err)"
      by fastforce
    have "eligible r a (msg_Dst m) src \<longleftrightarrow> b \<and> rec = False \<and> err = None"
      using b x Some mr shouldSendMessage_True_iff [of "rl_world r" dc x sc] by (auto simp: eligible_def)
    then show ?thesis
      using assms x Some b mr ro
      by (cases b; cases rec; cases err)
        (auto simp: process_message_def Relayer_FindChainRuntime_def)
  qed
qed

lemma process_message_other:
  assumes "process_message S src a r = Some r'" and "n \<noteq> src"
  shows "chain_at r' n = chain_at r n"
  using assms unfolding process_message_def ClearMessages_eq
  by (auto split: option.splits sum.splits prod.splits bool.splits if_splits)

lemma process_message_same:
  assumes "relayer_wf r" and "process_message S src a r = Some r'"
  shows "relayer_wf r'" and "route_of r' = route_of r"
proof -
  have k: "keeps r r'"
    using assms(2) by (rule keeps_process_message)
  show "relayer_wf r'"
    using k assms(1) by (rule keepsD)
  show "route_of r' = route_of r"
    using process_message_effect [OF assms(2)]
    by (intro route_of_same keeps_evolves [OF k assms(1)]) (simp_all add: shrinks_def)
qed

lemma process_entries_route:
  "relayer_wf r \<Longrightarrow> process_entries S src as r = Some r' \<Longrightarrow>
     relayer_wf r' \<and> route_of r' = route_of r \<and> (\<forall>n. n \<noteq> src \<longrightarrow> chain_at r' n = chain_at r n) \<and>
     rl_go r' = rl_go r @ concat (map (route_of r src) as)"
proof (induction as arbitrary: r)
  case (Cons a as)
  then obtain r1 where r1: "process_message S src a r = Some r1" "process_entries S src as r1 = Some r'"
    by (auto split: option.splits)
  show ?case
    using Cons.IH [OF process_message_same(1) [OF Cons.prems(1) r1(1)] r1(2)]
      process_message_same(2) [OF Cons.prems(1) r1(1)] process_message_other [OF r1(1)]
      process_message_route [OF r1(1)]
    by simp
qed simp

lemma process_chains_route:
  "relayer_wf r \<Longrightarrow> distinct nids \<Longrightarrow> process_chains S nids r = Some r' \<Longrightarrow>
     rl_go r' = rl_go r @ concat (map (\<lambda>n. concat (map (route_of r n \<circ> snd) (cache_of r n))) nids)"
proof (induction nids arbitrary: r)
  case (Cons n nids)
  then obtain c r1 where c: "chain_at r n = Some c"
    and r1: "process_entries S n (map snd (cr_MessageCache c)) r = Some r1" "process_chains S nids r1 = Some r'"
    by (auto split: option.splits)
  have e: "relayer_wf r1" "route_of r1 = route_of r" "\<forall>m. m \<noteq> n \<longrightarrow> chain_at r1 m = chain_at r m"
    "rl_go r1 = rl_go r @ concat (map (route_of r n) (map snd (cr_MessageCache c)))"
    using process_entries_route [OF Cons.prems(1) r1(1)] by blast+
  have same: "map (\<lambda>n. concat (map (route_of r1 n \<circ> snd) (cache_of r1 n))) nids
      = map (\<lambda>n. concat (map (route_of r n \<circ> snd) (cache_of r n))) nids"
    using e(2,3) Cons.prems(2) by (intro map_cong) (auto simp: cache_of_def)
  have "distinct nids"
    using Cons.prems(2) by simp
  from Cons.IH [OF e(1) this r1(2)] show ?case
    unfolding same e(4) by (simp add: cache_of_def c comp_def)
qed simp

subsection \<open>The callback of a delivery\<close>

lemma view_delete_frame:
  "pending_txs (v(MessageStore_key prefixMessageStore src sn := x)) = pending_txs v"
  "failed_msgs (v(fs_key prefixFinalityStore i := y)) = failed_msgs v"
  unfolding fs_stored_def ms_stored_def
  by (rule stored_frame; simp add: ms_key_def)+

context kv_reliable
begin

lemma delete_messages_pending:
  "pending_txs (view (snd (delete_messages S ks d))) = pending_txs (view d)"
proof (induction ks arbitrary: d)
  case (Cons k ks)
  obtain d' where d': "MessageStore_DeleteMessage S prefixMessageStore d k = (None, d')"
    "view d' = (view d)(MessageStore_key prefixMessageStore (key_Src k) (key_Sn k) := None)"
    by (rule DeleteMessage_ok)
  have "pending_txs (view d') = pending_txs (view d)"
    unfolding d'(2) by (rule view_delete_frame)
  then show ?case
    by (simp add: d'(1) Cons.IH)
qed simp

text \<open>Clearing one key: out of the cache and out of the store of failed messages.\<close>

lemma clear_one:
  assumes r': "r' = snd (Relayer_ClearMessages S [key] src r)"
  shows "in_cache r' n k \<longleftrightarrow> in_cache r n k \<and> \<not> (n = src \<and> k = key)"
    and "failed_msgs (view (rl_db r')) = (failed_msgs (view (rl_db r)))((key_Src key, key_Sn key) := None)"
    and "pending_txs (view (rl_db r')) = pending_txs (view (rl_db r))"
  unfolding r'
  by (simp add: in_cache_ClearMessages)
    (simp_all add: ClearMessages_eq delete_messages_stored delete_messages_pending restrict_map_def fun_eq_iff
      del: delete_messages.simps)

lemma callback_delivered:
  assumes wf: "relayer_wf r" and dc: "chain_at r dst = Some dc" and sc: "chain_at r src = Some sc"
    and ok: "tr_Code resp = Success" and x: "cached r src key = Some x"
    and fin: "FinalityBlock (cr_Provider dc) (rl_world r) > 0"
  obtains r' m where "Relayer_callback S dst src key resp r = Some r'" and "rm_Message x = Some m"
    and "\<And>n k. in_cache r' n k \<longleftrightarrow> in_cache r n k \<and> \<not> (n = src \<and> k = key)"
    and "failed_msgs (view (rl_db r')) = (failed_msgs (view (rl_db r)))((key_Src key, key_Sn key) := None)"
    and "pending_txs (view (rl_db r')) = (pending_txs (view (rl_db r)))((key_Dst key, key_Sn key) \<mapsto>
      TransactionObject_clean (NewTransactionObject
        (NewMessagekeyWithMessageHeight key (msg_MessageHeight m)) (tr_TxHash resp) (tr_Height resp)))"
proof -
  have "cache_view (rl_heap r) (cr_MessageCache sc) key = Some x"
    using x by (simp add: cached_def sc)
  then obtain a where a: "map_get (cr_MessageCache sc) key = Some a" "heap_get (rl_heap r) a = Some x"
    by (auto simp: cache_view_def bind_eq_Some_conv)
  obtain m where m: "rm_Message x = Some m"
    using cache_wfD [OF relayer_wf_caches [OF wf sc] a(1)] a(2) by (metis option.inject)
  let ?t = "NewTransactionObject (NewMessagekeyWithMessageHeight key (msg_MessageHeight m)) (tr_TxHash resp) (tr_Height resp)"
  have id: "tx_id ?t = (key_Dst key, key_Sn key)"
    by (simp add: tx_id_def NewTransactionObject_def NewMessagekeyWithMessageHeight_def)
  obtain d' where d': "FinalityStore_StoreTxObject S prefixFinalityStore (rl_db r) (Some ?t) = (None, d')"
    "pending_txs (view d') = (pending_txs (view (rl_db r)))(tx_id ?t \<mapsto> TransactionObject_clean ?t)"
    "view d' = (view (rl_db r))(fs_key prefixFinalityStore (tx_id ?t) \<mapsto> marshal_TransactionObject ?t)"
    by (rule StoreTxObject_ok)
  let ?r' = "snd (Relayer_ClearMessages S [key] src (r\<lparr>rl_db := d'\<rparr>))"
  have run: "Relayer_callback S dst src key resp r = Some ?r'"
    by (simp add: Relayer_callback_def dc sc ok fin a RouteMessage_GetMessage_def m Let_def d'(1))
  show ?thesis
  proof (rule that [OF run m])
    show "failed_msgs (view (rl_db ?r')) = (failed_msgs (view (rl_db r)))((key_Src key, key_Sn key) := None)"
      unfolding clear_one(2) [OF refl] by (simp add: d'(3) view_delete_frame del: fun_upd_apply)
    show "pending_txs (view (rl_db ?r')) = (pending_txs (view (rl_db r)))((key_Dst key, key_Sn key) \<mapsto> TransactionObject_clean ?t)"
      unfolding clear_one(3) [OF refl] using d'(2) by (simp add: id)
  qed (simp add: clear_one(1) [OF refl])
qed

lemma callback_other:
  assumes "chain_at r dst = Some dc" and "chain_at r src = Some sc"
  shows "tr_Code resp = Success \<Longrightarrow> FinalityBlock (cr_Provider dc) (rl_world r) = 0 \<Longrightarrow>
      Relayer_callback S dst src key resp r = Some (snd (Relayer_ClearMessages S [key] src r))"
    and "tr_Code resp = Success \<Longrightarrow> FinalityBlock (cr_Provider dc) (rl_world r) > 0 \<Longrightarrow>
      map_get (cr_MessageCache sc) key = None \<Longrightarrow> Relayer_callback S dst src key resp r = Some r"
    and "tr_Code resp \<noteq> Success \<Longrightarrow>
      Relayer_callback S dst src key resp r =
        (case map_get (cr_MessageCache sc) key of None \<Rightarrow> Some r | Some a \<Rightarrow> Relayer_HandleMessageFailed S a src r)"
  using assms by (simp_all add: Relayer_callback_def)

subsection \<open>The finality check of one transaction\<close>

lemma delete_tx:
  obtains d where "FinalityStore_DeleteTxObject S prefixFinalityStore (rl_db r) k = (None, d)"
    and "pending_txs (view d) = (pending_txs (view (rl_db r)))((key_Dst k, key_Sn k) := None)"
    and "failed_msgs (view d) = failed_msgs (view (rl_db r))"
proof -
  obtain d where "FinalityStore_DeleteTxObject S prefixFinalityStore (rl_db r) k = (None, d)"
    "pending_txs (view d) = (pending_txs (view (rl_db r)))((key_Dst k, key_Sn k) := None)"
    "view d = (view (rl_db r))(fs_key prefixFinalityStore (key_Dst k, key_Sn k) := None)"
    by (rule DeleteTxObject_ok)
  then show ?thesis
    by (intro that [of d]) (simp_all only: view_delete_frame)
qed

lemma merge_one:
  assumes "relayer_wf r" and "chain_at r n \<noteq> None"
  obtains r' where "merge_into n [Some m] r = Some r'" and "rl_db r' = rl_db r"
    and "cached r' = (cached r)(n := (cached r n)(Message_MessageKey m \<mapsto> NewRouteMessage (Some m)))"
proof -
  have rs: "\<forall>x \<in> set [NewRouteMessage (Some m)]. rm_Message x \<noteq> None"
    by (simp add: NewRouteMessage_def)
  obtain r' where "add_to_chain n [NewRouteMessage (Some m)] r = Some r'" "rl_db r' = rl_db r"
    "cached r' = (cached r)(n := cached r n ++ map_of (rev (route_entries [NewRouteMessage (Some m)])))"
    by (rule add_to_chain_ok [OF assms rs])
  then show ?thesis
    by (intro that [of r']) (simp_all add: merge_into_add route_entries_def NewRouteMessage_def)
qed

end

subsection \<open>A message that is ready stays in the cache\<close>

lemma process_message_eligible:
  assumes "relayer_wf r" and "process_message S s b r = Some r'" and "eligible r a dst src"
  shows "eligible r' a dst src"
proof -
  have "evolves r r'"
    using keeps_process_message [OF assms(2)] assms(1) by (rule keeps_evolves)
  then have "map_option cr_Provider (chain_at r' n) = map_option cr_Provider (chain_at r n)" for n
    by (simp add: evolves_def)
  moreover have "rl_heap r' = rl_heap r" "rl_world r' = rl_world r"
    using process_message_effect [OF assms(2)] by (simp_all add: shrinks_def)
  ultimately show ?thesis
    using assms(3) by (simp add: eligible_provider)
qed

context kv_reliable
begin

lemma process_message_stays:
  assumes wf: "relayer_wf r" and run: "process_message S s b r = Some r'"
    and e: "(k, a) \<in> set (cache_of r src)" and el: "eligible r a dst src"
  shows "(k, a) \<in> set (cache_of r' src)"
proof -
  obtain c where c: "chain_at r src = Some c" "(k, a) \<in> set (cr_MessageCache c)"
    using e unfolding cache_of_member by blast
  obtain x m dc where x: "heap_get (rl_heap r) a = Some x" "rm_Message x = Some m" "chain_at r (msg_Dst m) = Some dc"
    "MessageReceived (cr_Provider dc) (rl_world r) (Message_MessageKey m) = (False, None)"
    using el unfolding eligible_def by blast
  have wfc: "cache_wf (rl_heap r) (cr_MessageCache c)"
    by (rule relayer_wf_caches [OF wf c(1)])
  then have k: "k = Message_MessageKey m"
    using c(2) x(1,2) by (fastforce simp: cache_wf_def list_all_iff RouteMessage_MessageKey_def)
  have "map_wf (cr_MessageCache c)"
    using wfc by (simp add: cache_wf_def)
  then have get: "map_get (cr_MessageCache c) k = Some a"
    using c(2) by (rule map_of_is_SomeI)
  then have "in_cache r src k"
    by (simp add: in_cache_def c(1))
  moreover have "\<not> dropped r (LProcess s b) src k"
    using x(3,4) by (simp add: dropped_def k)
  ultimately have "in_cache r' src k"
    using process_message_removal [OF run] by blast
  then obtain c' a' where c': "chain_at r' src = Some c'" "(k, a') \<in> set (cr_MessageCache c')"
    by (auto simp: in_cache_def dest: map_of_SomeD)
  have "set (cr_MessageCache c') \<subseteq> set (cr_MessageCache c)"
    using process_message_effect [OF run] c'(1) c(1) by (force simp: shrinks_def)
  then have "a' = a"
    using c'(2) \<open>map_wf (cr_MessageCache c)\<close> get by (metis map_of_is_SomeI option.inject subsetD)
  then show ?thesis
    using c' by (simp add: cache_of_def)
qed

lemma process_entries_stays:
  "relayer_wf r \<Longrightarrow> process_entries S s as r = Some r' \<Longrightarrow> (k, a) \<in> set (cache_of r src) \<Longrightarrow>
     eligible r a dst src \<Longrightarrow> (k, a) \<in> set (cache_of r' src) \<and> eligible r' a dst src \<and> relayer_wf r'"
proof (induction as arbitrary: r)
  case (Cons b as)
  then obtain r1 where r1: "process_message S s b r = Some r1" "process_entries S s as r1 = Some r'"
    by (auto split: option.splits)
  show ?case
    by (rule Cons.IH [OF process_message_same(1) [OF Cons.prems(1) r1(1)] r1(2)
          process_message_stays [OF Cons.prems(1) r1(1) Cons.prems(3,4)]
          process_message_eligible [OF Cons.prems(1) r1(1) Cons.prems(4)]])
qed simp

lemma process_chains_stays:
  "relayer_wf r \<Longrightarrow> process_chains S nids r = Some r' \<Longrightarrow> (k, a) \<in> set (cache_of r src) \<Longrightarrow>
     eligible r a dst src \<Longrightarrow> (k, a) \<in> set (cache_of r' src) \<and> eligible r' a dst src \<and> relayer_wf r'"
proof (induction nids arbitrary: r)
  case (Cons n nids)
  then obtain c r1 where "chain_at r n = Some c"
    and r1: "process_entries S n (map snd (cr_MessageCache c)) r = Some r1" "process_chains S nids r1 = Some r'"
    by (auto split: option.splits)
  show ?case
    using process_entries_stays [OF Cons.prems(1) r1(1) Cons.prems(3,4)] Cons.IH [OF _ r1(2)] by blast
qed simp

end

text \<open>Every tick starts one more goroutine for it.\<close>

lemma processMessages_starts:
  assumes "relayer_wf r" and "Relayer_processMessages S r = Some r'"
    and "(k, a) \<in> set (cache_of r src)" and "eligible r a dst src"
  shows "count_list (rl_go r) (GoRoute a dst src) < count_list (rl_go r') (GoRoute a dst src)"
proof -
  have d: "distinct (map fst (rl_chains r))"
    using assms(1) by (simp add: relayer_wf_def)
  have "GoRoute a dst src \<in> set (route_of r src a)"
    using assms(4) by (auto simp: route_of_def eligible_def msg_at_def)
  moreover have "src \<in> set (map fst (rl_chains r))"
    unfolding chain_at_keys using assms(3) by (auto simp: cache_of_member)
  moreover from calculation(1) have "GoRoute a dst src \<in> set (concat (map (route_of r src \<circ> snd) (cache_of r src)))"
    using assms(3) by force
  ultimately have "GoRoute a dst src \<in> set (concat (map (\<lambda>n. concat (map (route_of r n \<circ> snd) (cache_of r n))) (map fst (rl_chains r))))"
    unfolding set_concat [of "map _ (map fst (rl_chains r))"] by (metis (no_types, lifting) UN_I image_eqI set_map)
  then show ?thesis
    using process_chains_route [OF assms(1) d assms(2) [unfolded Relayer_processMessages_def]]
    by (simp add: count_list_0_iff zero_less_iff_neq_zero)
qed

end
