(* ===== verification/MockChain.thy ===== *)
theory MockChain
  imports ChainRuntime
begin

text \<open>
  \<^verbatim>\<open>relayer/chains/mockchain/provider.go\<close>: the chain the relayer is tested with. The state of a
  mock chain is its configuration, which \<open>Route\<close> mutates, and its height; the world is one
  state per network id. The two maps hold pointers to messages, so a nil one is possible.
\<close>

record MockProvider =
  mp_NId :: string
  mp_chainName :: string
  mp_SendMessages :: "(MessageKey, Message option) gomap"
  mp_ReceiveMessages :: "(MessageKey, Message option) gomap"
  mp_Height :: u64

type_synonym mock_world = "string \<Rightarrow> MockProvider"

definition MockProvider_FindMessages :: "MockProvider \<Rightarrow> Message option list go" where
  "MockProvider_FindMessages icp =
     (if \<exists>km \<in> set (mp_SendMessages icp). snd km = None then None
      else Some (filter (\<lambda>m. map_option msg_MessageHeight m = Some (mp_Height icp))
                   (map snd (mp_SendMessages icp))))"

text \<open>The loop stops at the key of the message; without one it deletes the zero key.\<close>

definition zero_MessageKey :: MessageKey where
  "zero_MessageKey = NewMessageKey 0 [] [] []"

definition MockProvider_DeleteMessage :: "Message \<Rightarrow> MockProvider \<Rightarrow> MockProvider" where
  "MockProvider_DeleteMessage msg icp =
     (let deleteKey = (case find (\<lambda>key. Message_MessageKey msg = key) (map fst (mp_ReceiveMessages icp)) of
                         Some key \<Rightarrow> key
                       | None \<Rightarrow> zero_MessageKey)
      in icp\<lparr>mp_ReceiveMessages := map_delete deleteKey (mp_ReceiveMessages icp)\<rparr>)"

definition MockProvider_Route ::
    "string \<Rightarrow> mock_world \<Rightarrow> Message option \<Rightarrow> (tx_callback list \<times> error option \<times> mock_world) go"
where
  "MockProvider_Route nid w message =
     (case message of
        None \<Rightarrow> None
      | Some m \<Rightarrow>
          Some ([(Message_MessageKey m, zero_TxResponse\<lparr>tr_Code := Success\<rparr>, None)], None,
                w(nid := MockProvider_DeleteMessage m (w nid))))"

definition mock_provider :: "string \<Rightarrow> string \<Rightarrow> mock_world ChainProvider" where
  "mock_provider nid name =
     \<lparr>NID = nid, ChainName = name,
      FinalityBlock = (\<lambda>w. 0),
      QueryLatestHeight = (\<lambda>w. Inr (mp_Height (w nid))),
      QueryTransactionReceipt = (\<lambda>w h. Inr None),
      ShouldReceiveMessage = (\<lambda>w m. (True, None)),
      ShouldSendMessage = (\<lambda>w m. (True, None)),
      MessageReceived = (\<lambda>w k. (False, None)),
      GenerateMessage = (\<lambda>w k. (None, None)),
      Route = MockProvider_Route nid\<rparr>"

text \<open>\<open>Listener\<close>: where it starts, and what one tick of its timer sends.\<close>

definition MockProvider_startListener :: "u64 \<Rightarrow> MockProvider \<Rightarrow> MockProvider" where
  "MockProvider_startListener lastSavedHeight icp =
     (if mp_Height icp = 0 \<and> lastSavedHeight \<noteq> 0 then icp\<lparr>mp_Height := lastSavedHeight\<rparr> else icp)"

definition MockProvider_tick :: "MockProvider \<Rightarrow> (BlockInfo \<times> MockProvider) go" where
  "MockProvider_tick icp =
     (case MockProvider_FindMessages icp of
        None \<Rightarrow> None
      | Some msgs \<Rightarrow>
          Some (\<lparr>bi_Height = mp_Height icp, bi_Messages = msgs\<rparr>, icp\<lparr>mp_Height := mp_Height icp + 1\<rparr>))"

fun MockProvider_ticks :: "nat \<Rightarrow> MockProvider \<Rightarrow> (BlockInfo list \<times> MockProvider) go" where
  "MockProvider_ticks 0 icp = Some ([], icp)"
| "MockProvider_ticks (Suc n) icp =
     (case MockProvider_tick icp of
        None \<Rightarrow> None
      | Some (b, icp') \<Rightarrow>
          (case MockProvider_ticks n icp' of
             None \<Rightarrow> None
           | Some (bs, icp'') \<Rightarrow> Some (b # bs, icp'')))"

lemma find_key: "find (\<lambda>k. key = k) ks = (if key \<in> set ks then Some key else None)"
  by (induction ks) auto

text \<open>Deleting a message removes its own key; an unknown message removes only a zero key.\<close>

lemma MockProvider_DeleteMessage_get:
  "map_get (mp_ReceiveMessages (MockProvider_DeleteMessage m icp)) k =
     (if k = Message_MessageKey m \<or>
         (k = zero_MessageKey \<and> map_get (mp_ReceiveMessages icp) (Message_MessageKey m) = None)
      then None else map_get (mp_ReceiveMessages icp) k)"
  by (auto simp: MockProvider_DeleteMessage_def find_key map_of_eq_None_iff)

text \<open>
  The blocks of a mock chain have consecutive heights, and each carries exactly the messages
  configured for its height, in the order of the map.
\<close>

lemma MockProvider_ticks_ok:
  assumes "\<forall>km \<in> set (mp_SendMessages icp). snd km \<noteq> None"
  shows "MockProvider_ticks n icp =
    Some (map (\<lambda>i. \<lparr>bi_Height = mp_Height icp + of_nat i,
                     bi_Messages = filter (\<lambda>m. map_option msg_MessageHeight m = Some (mp_Height icp + of_nat i))
                                     (map snd (mp_SendMessages icp))\<rparr>) [0..<n],
          icp\<lparr>mp_Height := mp_Height icp + of_nat n\<rparr>)"
  using assms
proof (induction n arbitrary: icp)
  case (Suc n)
  have tick: "MockProvider_tick icp = Some
     (\<lparr>bi_Height = mp_Height icp, bi_Messages = filter (\<lambda>m. map_option msg_MessageHeight m = Some (mp_Height icp))
                                     (map snd (mp_SendMessages icp))\<rparr>, icp\<lparr>mp_Height := mp_Height icp + 1\<rparr>)"
    using Suc.prems by (auto simp: MockProvider_tick_def MockProvider_FindMessages_def)
  have "[0..<Suc n] = 0 # map Suc [0..<n]"
    by (simp add: map_Suc_upt upt_conv_Cons del: upt_Suc)
  then show ?case
    using Suc.IH [of "icp\<lparr>mp_Height := mp_Height icp + 1\<rparr>"] Suc.prems
    by (simp add: tick comp_def add.assoc del: upt_Suc)
qed simp

subsection \<open>Making a mock chain\<close>

record MockProviderConfig =
  mpc_NId :: string
  mpc_BlockDuration :: int
  mpc_SendMessages :: "(MessageKey, Message option) gomap"
  mpc_ReceiveMessages :: "(MessageKey, Message option) gomap"
  mpc_StartHeight :: u64
  mpc_chainName :: string

definition MockProviderConfig_Validate :: "MockProviderConfig \<Rightarrow> error option" where
  "MockProviderConfig_Validate pp = None"

definition MockProviderConfig_NewProvider :: "string \<Rightarrow> MockProviderConfig \<Rightarrow> error + MockProvider" where
  "MockProviderConfig_NewProvider chainName pp =
     (case MockProviderConfig_Validate pp of
        Some e \<Rightarrow> Inl e
      | None \<Rightarrow>
          Inr \<lparr>mp_NId = mpc_NId pp, mp_chainName = chainName, mp_SendMessages = mpc_SendMessages pp,
               mp_ReceiveMessages = mpc_ReceiveMessages pp, mp_Height = mpc_StartHeight pp\<rparr>)"

definition MockProvider_ShouldReceiveMessage :: "MockProvider \<Rightarrow> Message \<Rightarrow> bool \<times> error option" where
  "MockProvider_ShouldReceiveMessage icp m = (True, None)"

definition MockProvider_ShouldSendMessage :: "MockProvider \<Rightarrow> Message \<Rightarrow> bool \<times> error option" where
  "MockProvider_ShouldSendMessage icp m = (True, None)"

definition MockProvider_QueryTransactionReceipt :: "MockProvider \<Rightarrow> string \<Rightarrow> error + Receipt option" where
  "MockProvider_QueryTransactionReceipt icp txHash = Inr None"

definition MockProvider_GenerateMessage :: "MockProvider \<Rightarrow> MessageKeyWithMessageHeight \<Rightarrow> Message option \<times> error option" where
  "MockProvider_GenerateMessage icp key = (None, None)"

definition MockProvider_MessageReceived :: "MockProvider \<Rightarrow> MessageKey \<Rightarrow> bool \<times> error option" where
  "MockProvider_MessageReceived icp key = (False, None)"

text \<open>The provider of a new mock chain: every query looks at that chain alone, and starts at its start height.\<close>

lemma new_mock_provider:
  assumes "MockProviderConfig_NewProvider chainName pp = Inr icp" and "w (mpc_NId pp) = icp"
  shows "QueryLatestHeight (mock_provider (mpc_NId pp) chainName) w = Inr (mpc_StartHeight pp)"
    and "NID (mock_provider (mpc_NId pp) chainName) = mp_NId icp" and "ChainName (mock_provider (mpc_NId pp) chainName) = mp_chainName icp"
    and "ShouldReceiveMessage (mock_provider (mpc_NId pp) chainName) w = MockProvider_ShouldReceiveMessage icp"
    and "ShouldSendMessage (mock_provider (mpc_NId pp) chainName) w = MockProvider_ShouldSendMessage icp"
    and "MessageReceived (mock_provider (mpc_NId pp) chainName) w = MockProvider_MessageReceived icp"
    and "GenerateMessage (mock_provider (mpc_NId pp) chainName) w = MockProvider_GenerateMessage icp"
    and "QueryTransactionReceipt (mock_provider (mpc_NId pp) chainName) w = MockProvider_QueryTransactionReceipt icp"
  using assms
  by (auto simp: MockProviderConfig_NewProvider_def MockProviderConfig_Validate_def mock_provider_def fun_eq_iff
      MockProvider_ShouldReceiveMessage_def MockProvider_ShouldSendMessage_def MockProvider_MessageReceived_def
      MockProvider_GenerateMessage_def MockProvider_QueryTransactionReceipt_def)

subsection \<open>Properties\<close>

text \<open>The mock chain's listener sends blocks of consecutive heights from its start height, each
  with exactly the configured messages of that height; routing a message removes that message
  from the expected ones, calls back once, with success and the key of the message, and reports
  no error.\<close>

lemma MockProvider_blocks_and_route:
  assumes "\<forall>km \<in> set (mp_SendMessages icp). snd km \<noteq> None"
  shows "(\<exists>bs. MockProvider_ticks n icp = Some (bs, icp\<lparr>mp_Height := mp_Height icp + of_nat n\<rparr>) \<and>
       length bs = n \<and>
       (\<forall>i < n. bi_Height (bs ! i) = mp_Height icp + of_nat i \<and>
          (\<forall>m. m \<in> set (bi_Messages (bs ! i)) \<longleftrightarrow>
             m \<in> snd ` set (mp_SendMessages icp) \<and>
             map_option msg_MessageHeight m = Some (mp_Height icp + of_nat i)))) \<and>
     (\<exists>w'. MockProvider_Route nid (\<lambda>_. icp) (Some msg)
        = Some ([(Message_MessageKey msg, zero_TxResponse\<lparr>tr_Code := Success\<rparr>, None)], None, w') \<and>
       map_get (mp_ReceiveMessages (w' nid)) (Message_MessageKey msg) = None)"
  by (auto simp: MockProvider_ticks_ok [OF assms] MockProvider_Route_def MockProvider_DeleteMessage_get)

definition sample_MockProvider :: "u64 \<Rightarrow> MockProvider" where
  "sample_MockProvider h =
     \<lparr>mp_NId = ''eth'', mp_chainName = ''e'',
      mp_SendMessages = [(Message_MessageKey sample_Message, Some sample_Message)],
      mp_ReceiveMessages = [(Message_MessageKey sample_Message, Some sample_Message)], mp_Height = h\<rparr>"

lemma sample_MockProvider_sel [simp]:
  "mp_SendMessages (sample_MockProvider h) = [(Message_MessageKey sample_Message, Some sample_Message)]"
  "mp_Height (sample_MockProvider h) = h"
  "sample_MockProvider h\<lparr>mp_Height := h'\<rparr> = sample_MockProvider h'"
  "msg_MessageHeight sample_Message = 5"
  by (simp_all add: sample_MockProvider_def sample_Message_def)

lemma MockProvider_blocks_and_route_instance:
  "\<exists>bs. MockProvider_ticks 2 (sample_MockProvider 5) = Some (bs, sample_MockProvider 7) \<and>
     Some sample_Message \<in> set (bi_Messages (bs ! 0))"
proof -
  have "\<forall>km \<in> set (mp_SendMessages (sample_MockProvider 5)). snd km \<noteq> None"
    by simp
  from conjunct1 [OF MockProvider_blocks_and_route [OF this, of 2]] obtain bs where
    bs: "MockProvider_ticks 2 (sample_MockProvider 5)
      = Some (bs, sample_MockProvider 5\<lparr>mp_Height := mp_Height (sample_MockProvider 5) + of_nat 2\<rparr>)"
    and m: "\<forall>i < 2. bi_Height (bs ! i) = mp_Height (sample_MockProvider 5) + of_nat i \<and>
       (\<forall>m. m \<in> set (bi_Messages (bs ! i)) \<longleftrightarrow>
             m \<in> snd ` set (mp_SendMessages (sample_MockProvider 5)) \<and>
             map_option msg_MessageHeight m = Some (mp_Height (sample_MockProvider 5) + of_nat i))"
    by (elim exE conjE)
  have "Some sample_Message \<in> set (bi_Messages (bs ! 0))"
    using m [rule_format, of 0] by simp
  then show ?thesis
    using bs by simp
qed

end
