(* ===== verification/RelaySample.thy ===== *)
theory RelaySample
  imports RelayTick MockChain
begin

text \<open>
  The configuration the witnesses evaluate: two mock chains whose queries answer, the database in
  memory, and one message on its way.
\<close>

definition sample_Receipt :: Receipt where
  "sample_Receipt = \<lparr>rc_TxHash = ''0xab'', rc_Height = 9, rc_Status = False\<rparr>"

definition sample_Provider :: "string \<Rightarrow> mock_world ChainProvider" where
  "sample_Provider nid =
     (mock_provider nid nid)\<lparr>QueryTransactionReceipt := (\<lambda>w h. Inr (Some sample_Receipt)),
       GenerateMessage := (\<lambda>w k. (Some sample_Message, None))\<rparr>"

definition sample_cfg :: "(string \<times> mock_world Chain option) list" where
  "sample_cfg =
     [(''eth'', Some (NewChain (sample_Provider ''eth'') False)),
      (''icon'', Some (NewChain (sample_Provider ''icon'') False))]"

definition sample_Runtime :: "string \<Rightarrow> MessageCache \<Rightarrow> mock_world ChainRuntime" where
  "sample_Runtime nid mc =
     \<lparr>cr_Provider = sample_Provider nid, LastBlockHeight = 0, LastSavedHeight = 0, cr_MessageCache = mc\<rparr>"

text \<open>The relayer with the sample message in the cache of its source, after \<open>n\<close> attempts.\<close>

definition sample_Relayer :: "u64 \<Rightarrow> (kvs, mock_world) Relayer" where
  "sample_Relayer n =
     \<lparr>rl_chains = [(''eth'', sample_Runtime ''eth'' [(Message_MessageKey sample_Message, 0)]),
                    (''icon'', sample_Runtime ''icon'' [])],
      rl_heap = [sample_RouteMessage\<lparr>rm_Retry := n\<rparr>], rl_db = [],
      rl_world = (\<lambda>_. sample_MockProvider 5), rl_go = []\<rparr>"

abbreviation sample_world :: mock_world where
  "sample_world \<equiv> (\<lambda>_. sample_MockProvider 5)"

abbreviation memS :: "kvs Store" where
  "memS \<equiv> LVLDB_store mem_leveldb"

lemma polite_sample: "polite_provider (sample_Provider nid)"
  by (simp add: polite_provider_def sample_Provider_def mock_provider_def MockProvider_Route_def)

lemma sample_Runtime_sel [simp]:
  "cr_Provider (sample_Runtime nid mc) = sample_Provider nid"
  "cr_MessageCache (sample_Runtime nid mc) = mc"
  "NID (sample_Provider nid) = nid"
  "FinalityBlock (sample_Provider nid) = (\<lambda>w. 0)"
  by (simp_all add: sample_Runtime_def sample_Provider_def mock_provider_def)

lemma sample_load:
  "load_chains memS [] sample_cfg [] =
     Inr [(''eth'', sample_Runtime ''eth'' []), (''icon'', sample_Runtime ''icon'' [])]"
proof -
  have "BlockStore_GetLastStoredBlock memS prefixBlockStore [] n = Inl ErrNotFound" for n
    by (simp add: BlockStore_GetLastStoredBlock_def mem_leveldb_def)
  then show ?thesis
    by (simp add: sample_cfg_def NewChain_def NewChainRuntime_def sample_Runtime_def NewMessageCache_def Let_def)
qed

abbreviation sample_start :: "mock_world \<Rightarrow> (kvs, mock_world) Relayer" where
  "sample_start w \<equiv>
     \<lparr>rl_chains = [(''eth'', sample_Runtime ''eth'' []), (''icon'', sample_Runtime ''icon'' [])],
      rl_heap = [], rl_db = [], rl_world = w, rl_go = []\<rparr>"

lemma sample_NewRelayer: "NewRelayer memS [] w sample_cfg fresh = (Inr (sample_start w), [])"
proof -
  have "ClearStore memS [] = (None, [])"
    by (simp add: LVLDB_ClearStore_def mem_leveldb_def mem_iter_def)
  then show ?thesis
    by (simp add: NewRelayer_def sample_load)
qed

lemma sample_chain_at:
  "chain_at (sample_Relayer n) nid =
     (if nid = ''eth'' then Some (sample_Runtime ''eth'' [(Message_MessageKey sample_Message, 0)])
      else if nid = ''icon'' then Some (sample_Runtime ''icon'' []) else None)"
  by (simp add: chain_at_def sample_Relayer_def)

lemma sample_heap: "heap_get (rl_heap (sample_Relayer n)) 0 = Some (sample_RouteMessage\<lparr>rm_Retry := n\<rparr>)"
  by (simp add: sample_Relayer_def heap_get_def)

lemma sample_wf: "relayer_wf (sample_Relayer n)"
  by (auto simp: relayer_wf_def caches_wf_def sample_chain_at cache_wf_def sample_heap
      RouteMessage_MessageKey_def)
    (simp_all add: sample_Relayer_def)

lemmas mem_rel = mem.kv_reliable_axioms

lemma sample_start_polite: "polite (sample_start w)"
  by (auto simp: polite_def chain_at_def polite_sample split: if_splits)

end
