(* ===== verification/IconTypes.thy ===== *)
theory IconTypes
  imports RelayTypes
begin

text \<open>
  \<^verbatim>\<open>relayer/chains/icon/types/types.go\<close>, \<open>events.go\<close>, \<open>methods.go\<close> and \<open>msg.go\<close>: the values
  of ICON's JSON-RPC. Hexadecimal integers, byte strings and addresses are strings on the wire;
  each has its reader and its writer here, with the panics of the slice expressions. The structs
  are records; a field \<open>interface{}\<close> that is marshalled is a JSON value.
\<close>

type_synonym HexBytes = string
type_synonym HexInt = string
type_synonym Address = string

subsection \<open>T_BIN_DATA, T_HASH\<close>

definition HexBytes_Value :: "HexBytes \<Rightarrow> (error + bytes option) go" where
  "HexBytes_Value hs =
     (if hs = [] then Some (Inr None)
      else if length hs < 2 then None
      else Some (case hex_decode (drop 2 hs) of Inl e \<Rightarrow> Inl e | Inr bs \<Rightarrow> Inr (Some bs)))"

definition NewHexBytes :: "bytes \<Rightarrow> HexBytes" where
  "NewHexBytes b = ''0x'' @ hex_encode b"

subsection \<open>T_INT\<close>

definition strip_0x :: "string \<Rightarrow> string" where
  "strip_0x s = (if strings_HasPrefix s ''0x'' then drop 2 s else s)"

definition HexInt_Value :: "HexInt \<Rightarrow> error + int" where
  "HexInt_Value i = parse_int 16 64 (strip_0x i)"

definition HexInt_Int :: "HexInt \<Rightarrow> error + int" where
  "HexInt_Int i = parse_int 16 32 (strip_0x i)"

definition decodeHexNumber :: "string \<Rightarrow> bool \<times> (error + bytes)" where
  "decodeHexNumber s =
     (let (negative, s1) = (if 0 < length s \<and> hd s = CHR ''-'' then (True, tl s) else (False, s));
          s2 = (if 2 < length s1 \<and> take 2 s1 = ''0x'' then drop 2 s1 else s1);
          s3 = (if length s2 mod 2 = 1 then CHR ''0'' # s2 else s2)
      in (negative, hex_decode s3))"

definition ParseBigInt :: "string \<Rightarrow> error + int" where
  "ParseBigInt s =
     (case decodeHexNumber s of
        (neg, Inl e) \<Rightarrow> Inl e
      | (neg, Inr bs) \<Rightarrow> Inr (if neg then - int (set_bytes bs) else int (set_bytes bs)))"

definition HexInt_BigInt :: "HexInt \<Rightarrow> error + int" where
  "HexInt_BigInt i = ParseBigInt i"

definition NewHexInt :: "i64 \<Rightarrow> HexInt" where
  "NewHexInt v = ''0x'' @ fmt_int 16 (sint v)"

subsection \<open>T_ADDR_EOA, T_ADDR_SCORE\<close>

text \<open>\<open>hex.Decode\<close> into a buffer of \<open>cap\<close> bytes: one byte too many is an index out of range.\<close>

fun hex_decode_into :: "nat \<Rightarrow> string \<Rightarrow> (error + bytes) go" where
  "hex_decode_into cap [] = Some (Inr [])"
| "hex_decode_into cap [c] = Some (Inl ErrHex)"
| "hex_decode_into cap (a # b # cs) =
     (case (hex_val a, hex_val b) of
        (Some x, Some y) \<Rightarrow>
          (if cap = 0 then None
           else map_option (\<lambda>res. case res of Inl e \<Rightarrow> Inl e | Inr bs \<Rightarrow> Inr (char_of (x * 16 + y) # bs))
                  (hex_decode_into (cap - 1) cs))
      | _ \<Rightarrow> Some (Inl ErrHex))"

definition Address_Value :: "Address \<Rightarrow> (error + bytes) go" where
  "Address_Value a =
     (if length a < 2 then None
      else if take 2 a \<noteq> ''cx'' \<and> take 2 a \<noteq> ''hx'' then Some (Inl (ErrMsg (''invalid prefix '' @ take 2 a)))
      else
        (case hex_decode_into 20 (drop 2 a) of
           None \<Rightarrow> None
         | Some (Inl e) \<Rightarrow> Some (Inl e)
         | Some (Inr bs) \<Rightarrow>
             if length bs \<noteq> 20 then Some (Inl (ErrMsg (''invalid length '' @ fmt_uint 10 (length bs))))
             else Some (Inr (char_of (if take 2 a = ''cx'' then 1 else 0 :: nat) # bs))))"

definition NewAddress :: "bytes \<Rightarrow> Address" where
  "NewAddress b =
     (if length b \<noteq> 21 then []
      else if (of_char (hd b) :: nat) = 1 then ''cx'' @ hex_encode (tl b)
      else if (of_char (hd b) :: nat) = 0 then ''hx'' @ hex_encode (tl b)
      else [])"

text \<open>\<^verbatim>\<open>utils.go\<close>: lower case first, then every character is checked.\<close>

definition isHexString :: "string \<Rightarrow> bool" where
  "isHexString s =
     (let t = map ascii_lower s in
      strings_HasPrefix t ''0x'' \<and>
      list_all (\<lambda>c. let n = (of_char c :: nat) in (48 \<le> n \<and> n \<le> 57) \<or> (97 \<le> n \<and> n \<le> 102)) (drop 2 t))"

subsection \<open>The structs\<close>

record EventLog =
  el_Addr :: Address
  el_Indexed :: "bytes list"
  el_Data :: "bytes list"

record EventLogStr =
  els_Addr :: Address
  els_Indexed :: "string list"
  els_Data :: "string list"

record Failure =
  fl_CodeValue :: HexInt
  fl_MessageValue :: string

record TransactionResult =
  trr_To :: Address
  trr_CumulativeStepUsed :: HexInt
  trr_StepUsed :: HexInt
  trr_StepPrice :: HexInt
  trr_EventLogs :: "EventLogStr list"
  trr_LogsBloom :: HexBytes
  trr_Status :: HexInt
  trr_Failure :: "Failure option"
  trr_SCOREAddress :: Address
  trr_BlockHash :: HexBytes
  trr_BlockHeight :: HexInt
  trr_TxIndex :: HexInt
  trr_TxHash :: HexBytes

record CallData =
  cd_Method :: string
  cd_Params :: json

record TransactionParamForEstimate =
  tpe_Version :: HexInt
  tpe_FromAddress :: Address
  tpe_ToAddress :: Address
  tpe_Value :: HexInt
  tpe_Timestamp :: HexInt
  tpe_NetworkID :: HexInt
  tpe_Nonce :: HexInt
  tpe_DataType :: string
  tpe_Data :: CallData

record TransactionParam =
  tp_Version :: HexInt
  tp_FromAddress :: Address
  tp_ToAddress :: Address
  tp_Value :: HexInt
  tp_StepLimit :: HexInt
  tp_Timestamp :: HexInt
  tp_NetworkID :: HexInt
  tp_Nonce :: HexInt
  tp_Signature :: string
  tp_DataType :: string
  tp_Data :: CallData
  tp_TxHash :: HexBytes

record BlockHeader =
  bh_Version :: int
  bh_Height :: i64
  bh_Timestamp :: i64
  bh_Proposer :: bytes
  bh_PrevID :: bytes
  bh_VotesHash :: bytes
  bh_NextValidatorsHash :: bytes
  bh_PatchTransactionsHash :: bytes
  bh_NormalTransactionsHash :: bytes
  bh_LogsBloom :: bytes
  bh_Result :: bytes
  bh_NSFilter :: bytes

record BlockHeaderResult =
  bhr_StateHash :: bytes
  bhr_PatchReceiptHash :: bytes
  bhr_ReceiptHash :: bytes
  bhr_ExtensionData :: bytes

record TxResult =
  txr_Status :: i64
  txr_To :: bytes
  txr_CumulativeStepUsed :: bytes
  txr_StepUsed :: bytes
  txr_StepPrice :: bytes
  txr_LogsBloom :: bytes
  txr_EventLogs :: "EventLog list"
  txr_ScoreAddress :: bytes
  txr_EventLogsHash :: bytes
  txr_TxIndex :: HexInt
  txr_BlockHeight :: HexInt

record CallParam =
  cp_FromAddress :: Address
  cp_ToAddress :: Address
  cp_DataType :: string
  cp_Data :: CallData
  cp_Height :: HexInt

record AddressParam =
  ap_Address :: Address
  ap_Height :: HexInt

record ProofResultParam =
  prp_BlockHash :: HexBytes
  prp_Index :: HexInt

record ProofEventsParam =
  pep_BlockHash :: HexBytes
  pep_Index :: HexInt
  pep_Events :: "HexInt list"

record EventFilter =
  ef_Addr :: Address
  ef_Signature :: string
  ef_Indexed :: "string option list"
  ef_Data :: "string option list"

record BlockRequest =
  br_Height :: HexInt
  br_EventFilters :: "EventFilter list"

record BlockNotification =
  bn_Hash :: HexBytes
  bn_Height :: HexInt
  bn_Indexes :: "HexInt list list"
  bn_Events :: "HexInt list list list"

record EventRequest =
  er_EventFilter :: EventFilter
  er_Height :: HexInt

record EventNotification =
  en_Hash :: HexBytes
  en_Height :: HexInt
  en_Index :: HexInt
  en_Events :: "HexInt list"

record WSResponse =
  ws_Code :: i64
  ws_Message :: string

record NormalTransaction =
  nt_TxHash :: HexBytes
  nt_From :: Address
  nt_To :: Address
  nt_DataType :: string
  nt_Data :: string

record Block =
  bk_Height :: i64
  bk_Timestamp :: i64
  bk_NormalTransactions :: "NormalTransaction list"

record RecvMessage =
  rv_SrcNID :: string
  rv_ConnSn :: HexInt
  rv_Msg :: HexBytes

text \<open>The struct tags of \<open>RecvMessage\<close>.\<close>

definition RecvMessage_json :: "RecvMessage \<Rightarrow> json" where
  "RecvMessage_json m =
     JObj [(''srcNetwork'', JStr (rv_SrcNID m)), (''_connSn'', JStr (rv_ConnSn m)), (''msg'', JStr (rv_Msg m))]"

record IconMessage =
  im_Params :: json
  im_Method :: string

definition NewIconMessage :: "json \<Rightarrow> string \<Rightarrow> IconMessage" where
  "NewIconMessage msg method = \<lparr>im_Params = msg, im_Method = method\<rparr>"

definition IconMessage_Type :: "IconMessage \<Rightarrow> string" where
  "IconMessage_Type im = im_Method im"

definition IconMessage_MsgBytes :: "IconMessage \<Rightarrow> error + bytes" where
  "IconMessage_MsgBytes im = Inr (json_print (im_Params im))"

subsection \<open>Events and methods\<close>

definition icon_EmitMessage :: string where
  "icon_EmitMessage = ''Message(str,int,bytes)''"

definition icon_EventNameToType :: "(string, string) gomap" where
  "icon_EventNameToType = [(icon_EmitMessage, EmitMessage)]"

definition MonitorEventsList :: "string list" where
  "MonitorEventsList = [icon_EmitMessage]"

definition GetMonitorEventFilters :: "string \<Rightarrow> string list \<Rightarrow> EventFilter list" where
  "GetMonitorEventFilters address eventsList =
     (if address = [] then []
      else map (\<lambda>event. \<lparr>ef_Addr = address, ef_Signature = event, ef_Indexed = [], ef_Data = []\<rparr>) eventsList)"

definition MethodRecvMessage :: string where
  "MethodRecvMessage = ''recvMessage''"

definition MethodGetReceipts :: string where
  "MethodGetReceipts = ''getReceipts''"

subsection \<open>Reading what was written\<close>

lemma fmt_int_16_head: "\<not> prefix ''0x'' (fmt_int 16 v)"
proof (cases "v < 0")
  case False
  have "CHR ''x'' \<notin> set (fmt_uint 16 n)" for n
  proof
    assume "CHR ''x'' \<in> set (fmt_uint 16 n)"
    then obtain d where "d < 16" "CHR ''x'' = digit_char d"
      using fmt_uint_digits [of 16 "CHR ''x''" n] by auto
    then show False
      using digit_char_neq(3) [of d] by simp
  qed
  then show ?thesis
    using False by (auto simp: fmt_int_def prefix_def) (metis list.set_intros)
qed (simp add: fmt_int_def)

text \<open>The number a sequence of hexadecimal digits stands for.\<close>

definition hexnum :: "string \<Rightarrow> nat" where
  "hexnum s = foldl (\<lambda>acc c. 16 * acc + the (hex_val c)) 0 s"

lemma hexnum_fmt: "hexnum (fmt_uint 16 n) = n"
proof (induction n rule: less_induct)
  case (less n)
  show ?case
  proof (cases "n < 16")
    case False
    then have "fmt_uint 16 n = fmt_uint 16 (n div 16) @ [digit_char (n mod 16)]"
      by (subst fmt_uint.simps) simp
    moreover have "hexnum (fmt_uint 16 (n div 16)) = n div 16"
      using False by (intro less.IH) simp
    ultimately show ?thesis
      by (simp add: hexnum_def)
  qed (subst fmt_uint.simps, simp add: hexnum_def)
qed

lemma hex_decode_number:
  assumes "\<forall>c \<in> set s. hex_val c \<noteq> None" and "even (length s)"
  shows "\<exists>bs. hex_decode s = Inr bs \<and>
    foldl (\<lambda>acc c. 256 * acc + of_char c) a bs = foldl (\<lambda>acc c. 16 * acc + the (hex_val c)) a s"
  using assms
proof (induction s arbitrary: a rule: hex_decode.induct)
  case (3 c1 c2 cs)
  obtain x y where xy: "hex_val c1 = Some x" "hex_val c2 = Some y"
    using "3.prems"(1) by auto
  have "x < 16" "y < 16"
    using xy by (auto simp: hex_val_def split: option.splits if_splits)
  then have byte: "(of_char (char_of (x * 16 + y)) :: nat) = x * 16 + y"
    by simp
  obtain bs where "hex_decode cs = Inr bs"
    "foldl (\<lambda>acc c. 256 * acc + of_char c) (256 * a + (x * 16 + y)) bs
      = foldl (\<lambda>acc c. 16 * acc + the (hex_val c)) (256 * a + (x * 16 + y)) cs"
    using "3.IH" [OF refl xy(1,2), of "256 * a + (x * 16 + y)"] "3.prems" by auto
  then show ?case
    using xy byte by (intro exI [of _ "char_of (x * 16 + y) # bs"]) (simp add: algebra_simps)
qed auto

lemma fmt_uint_16_hex: "c \<in> set (fmt_uint 16 n) \<Longrightarrow> hex_val c \<noteq> None"
  using fmt_uint_digits [of 16 c n] by auto

lemma decode_nonneg:
  "\<exists>bs. decodeHexNumber (''0x'' @ fmt_uint 16 n) = (False, Inr bs) \<and> set_bytes bs = n"
proof -
  define s where "s = (if odd (length (fmt_uint 16 n)) then CHR ''0'' # fmt_uint 16 n else fmt_uint 16 n)"
  have zero: "hex_val (CHR ''0'') = Some 0"
    by (simp add: hex_val_def digit_val_def)
  have "\<forall>c \<in> set s. hex_val c \<noteq> None" "even (length s)"
    using fmt_uint_16_hex zero by (auto simp: s_def split: if_splits)
  from hex_decode_number [OF this, of 0] obtain bs where
    bs: "hex_decode s = Inr bs" "set_bytes bs = hexnum s"
    by (auto simp: set_bytes_def hexnum_def)
  moreover have "hexnum s = hexnum (fmt_uint 16 n)"
    by (simp add: s_def hexnum_def zero)
  moreover have "decodeHexNumber (''0x'' @ fmt_uint 16 n) = (False, hex_decode s)"
    by (simp add: decodeHexNumber_def s_def odd_iff_mod_2_eq_one)
  ultimately show ?thesis
    by (simp add: hexnum_fmt)
qed

lemma decode_negative: "\<exists>e. hex_decode (CHR ''-'' # s) = Inl e" "\<exists>e. hex_decode (CHR ''0'' # CHR ''-'' # s) = Inl e"
proof -
  have minus: "hex_val (CHR ''-'') = None"
    by (simp add: hex_val_def digit_val_def)
  show "\<exists>e. hex_decode (CHR ''-'' # s) = Inl e"
    by (cases s) (simp_all add: minus)
  show "\<exists>e. hex_decode (CHR ''0'' # CHR ''-'' # s) = Inl e"
    by (simp add: minus split: option.split)
qed

lemma sint_range: "- (2 ^ 63) \<le> sint v" "sint v < 2 ^ 63" for v :: i64
  using sint_range_size [of v] by (simp_all add: word_size)

lemma HexBytes_Value_New: "HexBytes_Value (NewHexBytes b) = Some (Inr (Some b))"
  by (simp add: HexBytes_Value_def NewHexBytes_def)

lemma HexInt_Value_New: "HexInt_Value (NewHexInt v) = Inr (sint v)"
  using sint_range [of v] parse_int_fmt [of 16 64 "sint v"]
  by (simp add: HexInt_Value_def NewHexInt_def strip_0x_def strings_HasPrefix_def)

lemma HexInt_BigInt_New:
  "if 0 \<le> sint v then HexInt_BigInt (NewHexInt v) = Inr (sint v) else \<exists>e. HexInt_BigInt (NewHexInt v) = Inl e"
proof (cases "0 \<le> sint v")
  case True
  obtain bs where "decodeHexNumber (''0x'' @ fmt_uint 16 (nat (sint v))) = (False, Inr bs)"
    "set_bytes bs = nat (sint v)"
    using decode_nonneg by blast
  with True show ?thesis
    by (simp add: HexInt_BigInt_def ParseBigInt_def NewHexInt_def fmt_int_def)
next
  case False
  then have "NewHexInt v = ''0x'' @ CHR ''-'' # fmt_uint 16 (nat (- sint v))"
    by (simp add: NewHexInt_def fmt_int_def)
  then show ?thesis
    using False decode_negative [of "fmt_uint 16 (nat (- sint v))"]
    by (auto simp: HexInt_BigInt_def ParseBigInt_def decodeHexNumber_def Let_def)
qed

lemma hex_decode_into_ok:
  "hex_decode s = Inr bs \<Longrightarrow> length bs \<le> cap \<Longrightarrow> hex_decode_into cap s = Some (Inr bs)"
  by (induction cap s arbitrary: bs rule: hex_decode_into.induct) (auto split: option.splits sum.splits)

lemma hex_decode_into_cases:
  "case hex_decode_into cap s of
     None \<Rightarrow> 2 * cap < length s
   | Some (Inl e) \<Rightarrow> \<exists>e. hex_decode s = Inl e
   | Some (Inr bs) \<Rightarrow> hex_decode s = Inr bs \<and> length bs \<le> cap"
proof (induction cap s rule: hex_decode_into.induct)
  case (3 cap a b cs)
  show ?case
  proof (cases "hex_val a = None \<or> hex_val b = None \<or> cap = 0")
    case True
    then show ?thesis
      by (cases "hex_val a"; cases "hex_val b") simp_all
  next
    case False
    then obtain x y where xy: "hex_val a = Some x" "hex_val b = Some y" "cap \<noteq> 0"
      by auto
    show ?thesis
      using "3.IH" [OF refl xy] xy by (auto split: option.splits sum.splits)
  qed
qed simp_all

lemma hex_digit_lower:
  assumes "hex_val c = Some d"
  shows "digit_char d = ascii_lower c"
proof -
  obtain n where n: "c = char_of n" "n < (256::nat)"
    by (metis char_of_char of_char_less_256)
  then have "(of_char c :: nat) = n"
    by simp
  then show ?thesis
    using assms n
    by (auto simp: hex_val_def digit_val_def digit_char_def ascii_lower_def Let_def split: if_splits)
qed

lemma hex_encode_decode: "hex_decode s = Inr bs \<Longrightarrow> hex_encode bs = map ascii_lower s"
proof (induction s arbitrary: bs rule: hex_decode.induct)
  case (3 a b cs)
  then obtain x y bs' where xy: "hex_val a = Some x" "hex_val b = Some y" "hex_decode cs = Inr bs'"
    "bs = char_of (x * 16 + y) # bs'"
    by (auto split: option.splits sum.splits)
  have "x < 16" "y < 16"
    using xy by (auto simp: hex_val_def split: option.splits if_splits)
  then show ?case
    using "3.IH" [OF refl xy(1,2,3)] xy by (simp add: Let_def hex_digit_lower)
qed auto

lemma parse_uint_loop_big:
  "2 \<le> b \<Longrightarrow> b \<le> 36 \<Longrightarrow> mx < n \<Longrightarrow> parse_uint_loop b mx 0 (fmt_uint b n) = Inl ErrRange"
proof (induction b n rule: fmt_uint.induct)
  case (1 b n)
  show ?case
  proof (cases "n < b")
    case True
    with "1.prems" show ?thesis
      by (subst fmt_uint.simps) simp
  next
    case False
    have split: "fmt_uint b n = fmt_uint b (n div b) @ [digit_char (n mod b)]"
      using False "1.prems"(1) by (subst fmt_uint.simps) simp
    have "n mod b < b"
      using "1.prems"(1) by simp
    then have d: "digit_val (digit_char (n mod b)) = Some (n mod b)"
      using "1.prems"(2) by (intro digit_val_char) linarith
    show ?thesis
    proof (cases "mx < n div b")
      case True
      then have "parse_uint_loop b mx 0 (fmt_uint b (n div b)) = Inl ErrRange"
        using "1.IH" "1.prems" False by simp
      then show ?thesis
        by (simp add: split parse_uint_loop_append)
    next
      case small: False
      then have "parse_uint_loop b mx 0 (fmt_uint b (n div b)) = Inr (n div b)"
        using parse_uint_loop_fmt "1.prems" by simp
      then show ?thesis
        using \<open>n mod b < b\<close> "1.prems"(3) by (simp add: split parse_uint_loop_append d)
    qed
  qed
qed

lemma parse_int_out_of_range:
  assumes "\<not> (- (2 ^ 31) \<le> v \<and> v < 2 ^ 31)"
  shows "parse_int 16 32 (fmt_int 16 v) = Inl ErrRange"
proof -
  have big: "parse_uint 16 32 (fmt_uint 16 n) = (if n < 2 ^ 32 then Inr n else Inl ErrRange)" for n
    using parse_uint_fmt [of 16 n 32] parse_uint_loop_big [of 16 "2 ^ 32 - 1" n] by (auto simp: parse_uint_def)
  show ?thesis
  proof (cases "v < 0")
    case True
    then show ?thesis
      using assms by (auto simp: parse_int_def fmt_int_def big)
  next
    case False
    obtain c cs where C: "fmt_uint 16 (nat v) = c # cs"
      by (cases "fmt_uint 16 (nat v)") auto
    then have "c \<noteq> CHR ''-''" "c \<noteq> CHR ''+''"
      using fmt_uint_no_sign [of 16 "nat v"] by auto
    then show ?thesis
      using False assms C big [of "nat v"] by (auto simp: parse_int_def fmt_int_def)
  qed
qed

subsection \<open>Properties\<close>

text \<open>What the wire types write they read back: byte strings always; 64-bit integers through
  \<open>Value\<close> always, through \<open>Int\<close> exactly when they fit 32 bits, and through \<open>BigInt\<close> exactly when
  they are not negative, because the minus sign is written behind the prefix and read in front
  of it.\<close>

lemma hex_values_roundtrip:
  "HexBytes_Value (NewHexBytes b) = Some (Inr (Some b)) \<and>
   HexInt_Value (NewHexInt v) = Inr (sint v) \<and>
   (if - (2 ^ 31) \<le> sint v \<and> sint v < 2 ^ 31 then HexInt_Int (NewHexInt v) = Inr (sint v)
    else HexInt_Int (NewHexInt v) = Inl ErrRange) \<and>
   (if 0 \<le> sint v then HexInt_BigInt (NewHexInt v) = Inr (sint v)
    else \<exists>e. HexInt_BigInt (NewHexInt v) = Inl e)"
proof (intro conjI)
  show "HexBytes_Value (NewHexBytes b) = Some (Inr (Some b))"
    by (rule HexBytes_Value_New)
  show "HexInt_Value (NewHexInt v) = Inr (sint v)"
    by (rule HexInt_Value_New)
  show "if - (2 ^ 31) \<le> sint v \<and> sint v < 2 ^ 31 then HexInt_Int (NewHexInt v) = Inr (sint v)
    else HexInt_Int (NewHexInt v) = Inl ErrRange"
    using parse_int_fmt [of 16 32 "sint v"] parse_int_out_of_range [of "sint v"]
    by (simp add: HexInt_Int_def NewHexInt_def strip_0x_def strings_HasPrefix_def)
  show "if 0 \<le> sint v then HexInt_BigInt (NewHexInt v) = Inr (sint v) else \<exists>e. HexInt_BigInt (NewHexInt v) = Inl e"
    by (rule HexInt_BigInt_New)
qed

text \<open>Addresses. The 21 bytes of an address, the first of them zero or one, are read back from
  the address written for them; any other byte sequence is written as the empty address. Reading
  an address and writing it again gives it back in lower case.\<close>

lemma Address_roundtrip:
  "(if length b = 21 \<and> (of_char (hd b) :: nat) \<le> 1 then Address_Value (NewAddress b) = Some (Inr b)
    else NewAddress b = []) \<and>
   (case Address_Value a of
      Some (Inr bs) \<Rightarrow> length bs = 21 \<and> NewAddress bs = take 2 a @ map ascii_lower (drop 2 a)
    | Some (Inl e) \<Rightarrow> take 2 a \<notin> {''cx'', ''hx''} \<or> length a \<noteq> 42 \<or> (\<exists>e. hex_decode (drop 2 a) = Inl e)
    | None \<Rightarrow> length a < 2 \<or> 42 < length a)"
proof
  show "if length b = 21 \<and> (of_char (hd b) :: nat) \<le> 1 then Address_Value (NewAddress b) = Some (Inr b)
    else NewAddress b = []"
  proof (cases "length b = 21 \<and> (of_char (hd b) :: nat) \<le> 1")
    case True
    then obtain c cs where b: "b = c # cs" "length cs = 20"
      by (cases b) auto
    have "hex_decode_into 20 (hex_encode cs) = Some (Inr cs)"
      using b(2) by (intro hex_decode_into_ok) simp_all
    moreover have "c = char_of (0 :: nat) \<or> c = char_of (1 :: nat)"
    proof -
      have "(of_char c :: nat) = 0 \<or> (of_char c :: nat) = 1"
        using True b(1) by auto
      then show ?thesis
        by (metis char_of_char)
    qed
    ultimately show ?thesis
      using b by (auto simp: NewAddress_def Address_Value_def)
  qed (auto simp: NewAddress_def)
  show "case Address_Value a of
      Some (Inr bs) \<Rightarrow> length bs = 21 \<and> NewAddress bs = take 2 a @ map ascii_lower (drop 2 a)
    | Some (Inl e) \<Rightarrow> take 2 a \<notin> {''cx'', ''hx''} \<or> length a \<noteq> 42 \<or> (\<exists>e. hex_decode (drop 2 a) = Inl e)
    | None \<Rightarrow> length a < 2 \<or> 42 < length a"
  proof (cases "2 \<le> length a \<and> (take 2 a = ''cx'' \<or> take 2 a = ''hx'')")
    case False
    then show ?thesis
      by (auto simp: Address_Value_def)
  next
    case True
    show ?thesis
    proof (cases "hex_decode_into 20 (drop 2 a)")
      case None
      then show ?thesis
        using True hex_decode_into_cases [of 20 "drop 2 a"] by (auto simp: Address_Value_def)
    next
      case (Some res)
      show ?thesis
      proof (cases res)
        case (Inl e)
        then show ?thesis
          using True Some hex_decode_into_cases [of 20 "drop 2 a"] by (auto simp: Address_Value_def)
      next
        case (Inr bs)
        then have bs: "hex_decode (drop 2 a) = Inr bs"
          using Some hex_decode_into_cases [of 20 "drop 2 a"] by simp
        then have "length (drop 2 a) = 2 * length bs" "hex_encode bs = map ascii_lower (drop 2 a)"
          by (rule hex_decode_length, rule hex_encode_decode)
        then show ?thesis
          using True Some Inr by (auto simp: Address_Value_def NewAddress_def)
      qed
    qed
  qed
qed

end
