(* ===== verification/IconClient.thy ===== *)
theory IconClient
  imports IconTypes
begin

text \<open>
  \<^verbatim>\<open>relayer/chains/icon/client.go\<close>: the JSON-RPC client of an ICON node. The transport is
  goloop's \<open>JsonRpcClient\<close> and gorilla's web socket: the record \<open>JsonRpc\<close> has the call \<open>Do\<close> once
  per type of result the client decodes into, each a query of the outside world, and the three
  error codes of goloop that the client tests for. What remains is the client's own: which method
  is called with what, how an error is passed on, how long a transaction is waited for, how the
  messages of a socket reach a callback, and the options header.
\<close>

subsection \<open>The transport\<close>

text \<open>An error of a call: goloop's \<open>*jsonrpc.Error\<close> has a code, any other error has none.\<close>

datatype rpc_error = RpcError "int option" error

datatype rpc_params =
    PNone
  | PTx TransactionParam
  | PEstimate TransactionParamForEstimate
  | PTxHash HexBytes
  | PCall CallParam
  | PHeight HexInt
  | PHash HexBytes
  | PProofResult ProofResultParam
  | PProofEvents ProofEventsParam
  | PAddress AddressParam

type_synonym ('w, 'r) rpc_call = "string \<Rightarrow> rpc_params \<Rightarrow> 'w \<Rightarrow> rpc_error + 'r"

record 'w JsonRpc =
  Do_HexBytes :: "string \<Rightarrow> rpc_params \<Rightarrow> 'w \<Rightarrow> (rpc_error + HexBytes) \<times> 'w"
  Do_TransactionResult :: "('w, TransactionResult) rpc_call"
  Do_Block :: "('w, Block) rpc_call"
  Do_bytes :: "('w, bytes) rpc_call"
  Do_proof :: "('w, bytes list) rpc_call"
  Do_proofs :: "('w, bytes list list) rpc_call"
  Do_HexInt :: "('w, HexInt) rpc_call"
  DoURL_HexInt :: "string \<Rightarrow> ('w, HexInt) rpc_call"
  ErrorCodePending :: int
  ErrorCodeNotFound :: int
  ErrorCodeExecuting :: int

subsection \<open>The calls\<close>

definition Client_SendTransaction :: "'w JsonRpc \<Rightarrow> TransactionParam \<Rightarrow> 'w \<Rightarrow> (rpc_error + HexBytes) \<times> 'w" where
  "Client_SendTransaction c p = Do_HexBytes c ''icx_sendTransaction'' (PTx p)"

definition Client_SendTransactionAndWait ::
    "'w JsonRpc \<Rightarrow> TransactionParam \<Rightarrow> 'w \<Rightarrow> (rpc_error + HexBytes) \<times> 'w" where
  "Client_SendTransactionAndWait c p = Do_HexBytes c ''icx_sendTransactionAndWait'' (PTx p)"

definition Client_GetTransactionResult :: "'w JsonRpc \<Rightarrow> HexBytes \<Rightarrow> 'w \<Rightarrow> rpc_error + TransactionResult" where
  "Client_GetTransactionResult c p = Do_TransactionResult c ''icx_getTransactionResult'' (PTxHash p)"

definition Client_WaitTransactionResult :: "'w JsonRpc \<Rightarrow> HexBytes \<Rightarrow> 'w \<Rightarrow> rpc_error + TransactionResult" where
  "Client_WaitTransactionResult c p = Do_TransactionResult c ''icx_waitTransactionResult'' (PTxHash p)"

definition Client_Call :: "'w JsonRpc \<Rightarrow> CallParam \<Rightarrow> 'w \<Rightarrow> rpc_error + HexInt" where
  "Client_Call c p = Do_HexInt c ''icx_call'' (PCall p)"

definition Client_GetLastBlock :: "'w JsonRpc \<Rightarrow> 'w \<Rightarrow> rpc_error + Block" where
  "Client_GetLastBlock c = Do_Block c ''icx_getLastBlock'' PNone"

definition Client_GetBlockByHeight :: "'w JsonRpc \<Rightarrow> HexInt \<Rightarrow> 'w \<Rightarrow> rpc_error + Block" where
  "Client_GetBlockByHeight c p = Do_Block c ''icx_getBlockByHeight'' (PHeight p)"

definition Client_GetBlockHeaderBytesByHeight :: "'w JsonRpc \<Rightarrow> HexInt \<Rightarrow> 'w \<Rightarrow> rpc_error + bytes" where
  "Client_GetBlockHeaderBytesByHeight c p = Do_bytes c ''icx_getBlockHeaderByHeight'' (PHeight p)"

definition Client_GetVotesByHeight :: "'w JsonRpc \<Rightarrow> HexInt \<Rightarrow> 'w \<Rightarrow> rpc_error + bytes" where
  "Client_GetVotesByHeight c p = Do_bytes c ''icx_getVotesByHeight'' (PHeight p)"

definition Client_GetDataByHash :: "'w JsonRpc \<Rightarrow> HexBytes \<Rightarrow> 'w \<Rightarrow> rpc_error + bytes" where
  "Client_GetDataByHash c p = Do_bytes c ''icx_getDataByHash'' (PHash p)"

definition Client_GetProofForResult :: "'w JsonRpc \<Rightarrow> ProofResultParam \<Rightarrow> 'w \<Rightarrow> rpc_error + bytes list" where
  "Client_GetProofForResult c p = Do_proof c ''icx_getProofForResult'' (PProofResult p)"

definition Client_GetProofForEvents :: "'w JsonRpc \<Rightarrow> ProofEventsParam \<Rightarrow> 'w \<Rightarrow> rpc_error + bytes list list" where
  "Client_GetProofForEvents c p = Do_proofs c ''icx_getProofForEvents'' (PProofEvents p)"

text \<open>The RLP codec of goloop is the parameter \<open>decode\<close>.\<close>

definition Client_GetBlockHeaderByHeight ::
    "'w JsonRpc \<Rightarrow> (bytes \<Rightarrow> error + BlockHeader) \<Rightarrow> i64 \<Rightarrow> 'w \<Rightarrow> rpc_error + BlockHeader" where
  "Client_GetBlockHeaderByHeight c decode height w =
     (case Client_GetBlockHeaderBytesByHeight c (NewHexInt height) w of
        Inl e \<Rightarrow> Inl e
      | Inr b \<Rightarrow> (case decode b of Inl e \<Rightarrow> Inl (RpcError None e) | Inr h \<Rightarrow> Inr h))"

text \<open>The hash and the codec of goloop are the parameters \<open>sha3\<close> and \<open>decode\<close>.\<close>

definition Client_GetValidatorsByHash ::
    "'w JsonRpc \<Rightarrow> (bytes \<Rightarrow> bytes) \<Rightarrow> (bytes \<Rightarrow> error + 'v list) \<Rightarrow> bytes \<Rightarrow> 'w \<Rightarrow> error + 'v list" where
  "Client_GetValidatorsByHash c sha3 decode hash w =
     (case Client_GetDataByHash c (NewHexBytes hash) w of
        Inl e \<Rightarrow> Inl (ErrMsg ''GetDataByHash'')
      | Inr data \<Rightarrow>
          if hash \<noteq> sha3 data then Inl (ErrMsg ''invalid data'')
          else (case decode data of Inl e \<Rightarrow> Inl (ErrMsg ''Unmarshal Validators'') | Inr vs \<Rightarrow> Inr vs))"

definition Client_GetBalance :: "'w JsonRpc \<Rightarrow> AddressParam \<Rightarrow> 'w \<Rightarrow> rpc_error + int" where
  "Client_GetBalance c param w =
     (case Do_HexInt c ''icx_getBalance'' (PAddress param) w of
        Inl e \<Rightarrow> Inl e
      | Inr result \<Rightarrow> (case HexInt_BigInt result of Inl e \<Rightarrow> Inl (RpcError None e) | Inr b \<Rightarrow> Inr b))"

text \<open>\<open>now\<close> is the clock as \<open>EstimateStep\<close> scales it.\<close>

definition Client_EstimateStep ::
    "'w JsonRpc \<Rightarrow> string \<Rightarrow> i64 \<Rightarrow> TransactionParamForEstimate \<Rightarrow> 'w \<Rightarrow> rpc_error + HexInt" where
  "Client_EstimateStep c debugEndPoint now param w =
     (if length debugEndPoint = 0 then Inl (RpcError None (ErrMsg ''UnavailableDebugEndPoint''))
      else DoURL_HexInt c debugEndPoint ''debug_estimateStep''
             (PEstimate (param\<lparr>tpe_Timestamp := NewHexInt now\<rparr>)) w)"

subsection \<open>Signing\<close>

text \<open>The document of a transaction: \<open>omitempty\<close> drops the empty optional fields, the hash is not part of it.\<close>

definition CallData_json :: "CallData \<Rightarrow> json" where
  "CallData_json d =
     JObj ((''method'', JStr (cd_Method d)) # (if cd_Params d = JNull then [] else [(''params'', cd_Params d)]))"

definition omitempty :: "string \<Rightarrow> string \<Rightarrow> (string \<times> json) list" where
  "omitempty name s = (if s = [] then [] else [(name, JStr s)])"

definition TransactionParam_json :: "TransactionParam \<Rightarrow> json" where
  "TransactionParam_json p = JObj
     ([(''version'', JStr (tp_Version p)), (''from'', JStr (tp_FromAddress p)), (''to'', JStr (tp_ToAddress p))]
      @ omitempty ''value'' (tp_Value p)
      @ [(''stepLimit'', JStr (tp_StepLimit p)), (''timestamp'', JStr (tp_Timestamp p)),
         (''nid'', JStr (tp_NetworkID p))]
      @ omitempty ''nonce'' (tp_Nonce p)
      @ [(''signature'', JStr (tp_Signature p))]
      @ omitempty ''dataType'' (tp_DataType p)
      @ [(''data'', CallData_json (tp_Data p))])"

text \<open>
  goloop's serialisation without the member \<open>signature\<close>, its hash, and the wallet's signature are
  the parameters \<open>serialize\<close>, \<open>sha3\<close> and \<open>sign\<close>; \<open>now\<close> is the clock in microseconds. The
  transaction is changed in place, also when an error is returned.
\<close>

definition Client_SignTransaction ::
    "(string \<Rightarrow> error + bytes) \<Rightarrow> (bytes \<Rightarrow> bytes) \<Rightarrow> (bytes \<Rightarrow> error + bytes) \<Rightarrow> i64
       \<Rightarrow> TransactionParam \<Rightarrow> error option \<times> TransactionParam" where
  "Client_SignTransaction serialize sha3 sign now p =
     (let p1 = p\<lparr>tp_Timestamp := NewHexInt now\<rparr> in
      case serialize (json_print (TransactionParam_json p1)) of
        Inl e \<Rightarrow> (Some e, p1)
      | Inr bs \<Rightarrow>
          (let txHash = sha3 (''icx_sendTransaction.'' @ bs);
               p2 = p1\<lparr>tp_TxHash := NewHexBytes txHash\<rparr>
           in case sign txHash of
                Inl e \<Rightarrow> (Some e, p2)
              | Inr sig \<Rightarrow> (None, p2\<lparr>tp_Signature := b64_encode sig\<rparr>)))"

subsection \<open>Waiting for a transaction\<close>

definition retryLimit :: nat where
  "retryLimit = 20"

text \<open>
  One round of the \<open>select\<close>: the context is done, or the ticker fires, and then the node has the
  answer the round carries for \<open>GetTransactionResult\<close>.
\<close>

datatype wait_event = CtxDone | Tick "rpc_error + TransactionResult"

definition tx_pending :: "'w JsonRpc \<Rightarrow> rpc_error \<Rightarrow> bool" where
  "tx_pending c e =
     (case e of
        RpcError (Some code) _ \<Rightarrow> code = ErrorCodePending c \<or> code = ErrorCodeNotFound c \<or> code = ErrorCodeExecuting c
      | RpcError None _ \<Rightarrow> False)"

text \<open>\<open>n\<close> is how many rounds the retry counter still allows; \<open>i\<close> counts the rounds.\<close>

fun wait_rounds :: "'w JsonRpc \<Rightarrow> (nat \<Rightarrow> wait_event) \<Rightarrow> nat \<Rightarrow> nat \<Rightarrow> rpc_error + TransactionResult" where
  "wait_rounds c ev i 0 =
     (case ev i of
        CtxDone \<Rightarrow> Inl (RpcError None (ErrMsg ''Context Cancelled ReceiptWait Exiting ''))
      | Tick _ \<Rightarrow> Inl (RpcError None (ErrMsg ''Retry Limit Exceeded while waiting for results of transaction'')))"
| "wait_rounds c ev i (Suc n) =
     (case ev i of
        CtxDone \<Rightarrow> Inl (RpcError None (ErrMsg ''Context Cancelled ReceiptWait Exiting ''))
      | Tick (Inl e) \<Rightarrow> if tx_pending c e then wait_rounds c ev (Suc i) n else Inl e
      | Tick (Inr txr) \<Rightarrow> Inr txr)"

definition Client_WaitForResults :: "'w JsonRpc \<Rightarrow> (nat \<Rightarrow> wait_event) \<Rightarrow> rpc_error + TransactionResult" where
  "Client_WaitForResults c ev = wait_rounds c ev 0 retryLimit"

lemma wait_rounds_skip:
  "\<forall>j < k. \<exists>e. ev (i + j) = Tick (Inl e) \<and> tx_pending c e \<Longrightarrow> k \<le> n \<Longrightarrow>
     wait_rounds c ev i n = wait_rounds c ev (i + k) (n - k)"
proof (induction k arbitrary: i n)
  case (Suc k)
  obtain n' where n: "n = Suc n'" "k \<le> n'"
    using Suc.prems(2) by (cases n) auto
  obtain e where "ev i = Tick (Inl e)" "tx_pending c e"
    using Suc.prems(1) by force
  moreover have "\<forall>j < k. \<exists>e. ev (Suc i + j) = Tick (Inl e) \<and> tx_pending c e"
    using Suc.prems(1) by force
  from Suc.IH [OF this n(2)] have "wait_rounds c ev (Suc i) n' = wait_rounds c ev (Suc i + k) (n' - k)" .
  ultimately show ?case
    by (simp add: n)
qed simp

subsection \<open>The socket\<close>

text \<open>A connection is known by its local address.\<close>

record Client =
  cl_Endpoint :: string
  cl_DebugEndPoint :: string
  cl_conns :: "(string, unit) gomap"

definition Client_addWsConn :: "string \<Rightarrow> Client \<Rightarrow> Client" where
  "Client_addWsConn la c = c\<lparr>cl_conns := map_set la () (cl_conns c)\<rparr>"

definition Client_removeWsConn :: "string \<Rightarrow> Client \<Rightarrow> Client" where
  "Client_removeWsConn la c =
     (if map_get (cl_conns c) la \<noteq> None then c\<lparr>cl_conns := map_delete la (cl_conns c)\<rparr> else c)"

text \<open>\<open>strings.Replace(s, "http", "ws", 1)\<close>.\<close>

fun replace_http :: "string \<Rightarrow> string" where
  "replace_http [] = []"
| "replace_http (c # cs) = (if prefix ''http'' (c # cs) then ''ws'' @ drop 4 (c # cs) else c # replace_http cs)"

text \<open>\<open>dial\<close> is gorilla's dialer: the local address of the connection, or an error.\<close>

definition Client_wsConnect :: "(string \<Rightarrow> error + string) \<Rightarrow> string \<Rightarrow> Client \<Rightarrow> (error + string) \<times> Client" where
  "Client_wsConnect dial reqUrl c =
     (case dial (replace_http (cl_Endpoint c) @ reqUrl) of
        Inl e \<Rightarrow> (Inl e, c)
      | Inr la \<Rightarrow> (Inr la, Client_addWsConn la c))"

text \<open>\<open>written\<close> and \<open>read\<close> are the outcomes of \<open>WriteJSON\<close> and \<open>ReadJSON\<close>; a nil request panics.\<close>

definition Client_wsRequest :: "'p option \<Rightarrow> error option \<Rightarrow> error + WSResponse \<Rightarrow> error option go" where
  "Client_wsRequest reqPtr written read =
     (case reqPtr of
        None \<Rightarrow> None
      | Some _ \<Rightarrow>
          (case written of
             Some e \<Rightarrow> Some (Some (ErrMsg ''fail to WriteJSON''))
           | None \<Rightarrow>
               (case read of
                  Inl e \<Rightarrow> Some (Some (ErrMsg ''fail to ReadJSON''))
                | Inr resp \<Rightarrow>
                    if ws_Code resp \<noteq> 0 then Some (Some (ErrMsg ''invalid WSResponse code''))
                    else Some None)))"

text \<open>
  One read: an error of the reader, which is gorilla's normal closure or not, a close message, or
  a message that decodes to a value or does not.
\<close>

datatype ws_error = NormalClosure | OtherWsError error

datatype 'v ws_read = ReaderError ws_error | CloseMessage | ReadMessage "error + 'v"

definition ErrEOF :: error where
  "ErrEOF = ErrMsg ''EOF''"

definition Client_wsRead :: "'v ws_read \<Rightarrow> ws_error + 'v" where
  "Client_wsRead r =
     (case r of
        ReaderError e \<Rightarrow> Inl e
      | CloseMessage \<Rightarrow> Inl (OtherWsError ErrEOF)
      | ReadMessage (Inl e) \<Rightarrow> Inl (OtherWsError e)
      | ReadMessage (Inr v) \<Rightarrow> Inr v)"

text \<open>What the callback of \<open>Monitor\<close> is given.\<close>

datatype 'v ws_value = WsInit | WsValue 'v | WsErr ws_error | WsOther

text \<open>
  The loop over the rounds of a socket: the context is done, or the connection is still known or
  not and a read has the outcome given. A list that runs out is a loop that still waits.
\<close>

datatype 'v ws_round = RoundDone | RoundRead bool "'v ws_read"

datatype ws_exit = StillReading | ExitCtx | ExitUnknownConn | ExitRead ws_error | ExitCallback error

fun Client_wsReadJSONLoop ::
    "('s \<Rightarrow> 'v ws_value \<Rightarrow> error option \<times> 's) \<Rightarrow> 's \<Rightarrow> 'v ws_round list \<Rightarrow> ws_exit \<times> 's" where
  "Client_wsReadJSONLoop cb s [] = (StillReading, s)"
| "Client_wsReadJSONLoop cb s (RoundDone # rs) = (ExitCtx, s)"
| "Client_wsReadJSONLoop cb s (RoundRead known r # rs) =
     (if \<not> known then (ExitUnknownConn, s)
      else
        (case Client_wsRead r of
           Inl e \<Rightarrow> (ExitRead e, if e = NormalClosure then s else snd (cb s (WsErr e)))
         | Inr v \<Rightarrow>
             (case cb s (WsValue v) of
                (Some e, s') \<Rightarrow> (ExitCallback e, s')
              | (None, s') \<Rightarrow> Client_wsReadJSONLoop cb s' rs)))"

text \<open>The dispatch of \<open>MonitorBlock\<close>: the three callbacks of its caller, the second one possibly nil.\<close>

definition Client_MonitorBlock ::
    "('s \<Rightarrow> BlockNotification \<Rightarrow> error option \<times> 's) \<Rightarrow> ('s \<Rightarrow> 's) option \<Rightarrow> ('s \<Rightarrow> ws_error option \<Rightarrow> 's)
       \<Rightarrow> 's \<Rightarrow> BlockNotification ws_value \<Rightarrow> error option \<times> 's" where
  "Client_MonitorBlock cb scb errCb s v =
     (case v of
        WsValue t \<Rightarrow> cb s t
      | WsInit \<Rightarrow>
          (case scb of
             Some f \<Rightarrow> (None, f s)
           | None \<Rightarrow> (Some (ErrMsg ''Second Callback function (scb) is nil ''), s))
      | WsErr e \<Rightarrow> (Some (case e of NormalClosure \<Rightarrow> ErrMsg ''normal closure'' | OtherWsError e' \<Rightarrow> e'), errCb s (Some e))
      | WsOther \<Rightarrow> (Some (ErrMsg ''Not supported type''), errCb s None))"

text \<open>\<open>MonitorEvent\<close> drops the error of its callback.\<close>

definition Client_MonitorEvent ::
    "('s \<Rightarrow> EventNotification \<Rightarrow> error option \<times> 's) \<Rightarrow> ('s \<Rightarrow> ws_error option \<Rightarrow> 's)
       \<Rightarrow> 's \<Rightarrow> EventNotification ws_value \<Rightarrow> error option \<times> 's" where
  "Client_MonitorEvent cb errCb s v =
     (case v of
        WsValue t \<Rightarrow> (None, snd (cb s t))
      | WsErr e \<Rightarrow> (None, errCb s (Some e))
      | _ \<Rightarrow> (None, errCb s None))"

text \<open>
  \<open>Monitor\<close>: connect, request, announce, read until the loop ends; the connection is forgotten on
  every way out but the first.
\<close>

datatype monitor_exit = NoCallback | ConnectFailed error | RequestFailed error | InitFailed error | LoopEnded ws_exit

definition Client_Monitor ::
    "(string \<Rightarrow> error + string) \<Rightarrow> string \<Rightarrow> 'p option \<Rightarrow> error option \<Rightarrow> error + WSResponse
       \<Rightarrow> 'v ws_round list \<Rightarrow> ('s \<Rightarrow> 'v ws_value \<Rightarrow> error option \<times> 's) option \<Rightarrow> 's \<Rightarrow> Client
       \<Rightarrow> (monitor_exit \<times> 's \<times> Client) go" where
  "Client_Monitor dial reqUrl reqPtr written read rounds cb s c =
     (case cb of
        None \<Rightarrow> Some (NoCallback, s, c)
      | Some f \<Rightarrow>
          (case Client_wsConnect dial reqUrl c of
             (Inl e, c') \<Rightarrow> Some (ConnectFailed e, s, c')
           | (Inr la, c') \<Rightarrow>
               (case Client_wsRequest reqPtr written read of
                  None \<Rightarrow> None
                | Some (Some e) \<Rightarrow> Some (RequestFailed e, s, Client_removeWsConn la c')
                | Some None \<Rightarrow>
                    (case f s WsInit of
                       (Some e, s1) \<Rightarrow> Some (InitFailed e, s1, Client_removeWsConn la c')
                     | (None, s1) \<Rightarrow>
                         (case Client_wsReadJSONLoop f s1 rounds of
                            (ex, s2) \<Rightarrow>
                              Some (LoopEnded ex, s2, if ex = StillReading then c' else Client_removeWsConn la c'))))))"

fun Client_CloseAllMonitor :: "string list \<Rightarrow> Client \<Rightarrow> Client" where
  "Client_CloseAllMonitor [] c = c"
| "Client_CloseAllMonitor (la # las) c = Client_CloseAllMonitor las (Client_removeWsConn la c)"

text \<open>A loop over values whose callback accepts them hands them over one by one, in order.\<close>

lemma wsReadJSONLoop_values:
  assumes "\<And>s v. fst (cb s (WsValue v)) = None"
  shows "Client_wsReadJSONLoop cb s (map (\<lambda>v. RoundRead True (ReadMessage (Inr v))) vs @ rs)
    = Client_wsReadJSONLoop cb (foldl (\<lambda>s v. snd (cb s (WsValue v))) s vs) rs"
proof (induction vs arbitrary: s)
  case (Cons v vs)
  obtain s' where "cb s (WsValue v) = (None, s')"
    using assms by (metis prod.collapse)
  then show ?case
    using Cons.IH [of s'] by (simp add: Client_wsRead_def)
qed simp

subsection \<open>The options header\<close>

text \<open>A nil map is \<open>None\<close>; writing to it panics.\<close>

type_synonym IconOptions = "(string, string) gomap option"

definition IconOptions_Set :: "IconOptions \<Rightarrow> string \<Rightarrow> string \<Rightarrow> IconOptions go" where
  "IconOptions_Set opts key value = map_option (\<lambda>m. Some (map_set key value m)) opts"

definition IconOptions_Get :: "IconOptions \<Rightarrow> string \<Rightarrow> string" where
  "IconOptions_Get opts key =
     (case opts of
        None \<Rightarrow> []
      | Some m \<Rightarrow> (case map_get m key of None \<Rightarrow> [] | Some v \<Rightarrow> if length v = 0 then [] else v))"

definition IconOptions_Del :: "IconOptions \<Rightarrow> string \<Rightarrow> IconOptions" where
  "IconOptions_Del opts key = map_option (map_delete key) opts"

definition FormatBool :: "bool \<Rightarrow> string" where
  "FormatBool b = (if b then ''true'' else ''false'')"

definition ParseBool :: "string \<Rightarrow> error + bool" where
  "ParseBool s =
     (if s \<in> {''1'', ''t'', ''T'', ''true'', ''TRUE'', ''True''} then Inr True
      else if s \<in> {''0'', ''f'', ''F'', ''false'', ''FALSE'', ''False''} then Inr False
      else Inl ErrSyntax)"

definition IconOptions_SetBool :: "IconOptions \<Rightarrow> string \<Rightarrow> bool \<Rightarrow> IconOptions go" where
  "IconOptions_SetBool opts key value = IconOptions_Set opts key (FormatBool value)"

definition IconOptions_GetBool :: "IconOptions \<Rightarrow> string \<Rightarrow> error + bool" where
  "IconOptions_GetBool opts key = ParseBool (IconOptions_Get opts key)"

definition IconOptions_SetInt :: "IconOptions \<Rightarrow> string \<Rightarrow> i64 \<Rightarrow> IconOptions go" where
  "IconOptions_SetInt opts key v = IconOptions_Set opts key (fmt_int 10 (sint v))"

definition IconOptions_GetInt :: "IconOptions \<Rightarrow> string \<Rightarrow> error + int" where
  "IconOptions_GetInt opts key = parse_int 10 64 (IconOptions_Get opts key)"

definition IconOptions_ToHeaderValue :: "IconOptions \<Rightarrow> string" where
  "IconOptions_ToHeaderValue opts =
     (case opts of
        None \<Rightarrow> []
      | Some m \<Rightarrow> strings_Join (map (\<lambda>(k, v). k @ CHR ''='' # v) m) '','')"

text \<open>\<open>strings.Split\<close> at a character; the empty string is one empty part.\<close>

fun split_at :: "char \<Rightarrow> string \<Rightarrow> string list" where
  "split_at c [] = [[]]"
| "split_at c (x # xs) =
     (case split_at c xs of
        [] \<Rightarrow> [[x]]
      | p # ps \<Rightarrow> if x = c then [] # p # ps else (x # p) # ps)"

text \<open>An option without a separator behind its first character has the whole text as its key.\<close>

definition parse_option :: "string \<Rightarrow> string \<times> string" where
  "parse_option kv =
     (let k = takeWhile (\<lambda>c. c \<noteq> CHR ''='') kv
      in if 0 < length k \<and> length k < length kv then (k, drop (length k + 1) kv) else (kv, []))"

fun collect_options :: "string list \<Rightarrow> (string, string) gomap \<Rightarrow> (string, string) gomap" where
  "collect_options [] m = m"
| "collect_options (kv # kvs) m =
     collect_options kvs (if kv \<noteq> [] then map_set (fst (parse_option kv)) (snd (parse_option kv)) m else m)"

definition NewIconOptionsByHeader :: "string \<Rightarrow> IconOptions" where
  "NewIconOptionsByHeader s = (if s \<noteq> [] then Some (collect_options (split_at (CHR '','') s) []) else None)"

lemma split_at_neq_Nil: "split_at c s \<noteq> []"
  by (cases s) (simp_all split: list.split)

lemma split_at_cat: "c \<notin> set x \<Longrightarrow> split_at c (x @ c # s) = x # split_at c s"
proof (induction x)
  case Nil
  obtain p ps where "split_at c s = p # ps"
    using split_at_neq_Nil by (cases "split_at c s") auto
  then show ?case
    by simp
qed auto

lemma split_at_one: "c \<notin> set x \<Longrightarrow> split_at c x = [x]"
  by (induction x) auto

lemma split_at_join:
  "xs \<noteq> [] \<Longrightarrow> \<forall>x \<in> set xs. c \<notin> set x \<Longrightarrow> split_at c (strings_Join xs [c]) = xs"
  by (induction xs "[c]" rule: strings_Join.induct) (simp_all add: split_at_one split_at_cat)

lemma parse_option_pair:
  assumes "k \<noteq> []" and "CHR ''='' \<notin> set k"
  shows "parse_option (k @ CHR ''='' # v) = (k, v)"
proof -
  have "takeWhile (\<lambda>c. c \<noteq> CHR ''='') (k @ CHR ''='' # v) = k"
    using assms(2) by (rule takeWhile_neq_split)
  then show ?thesis
    using assms(1) by (simp add: parse_option_def)
qed

lemma map_set_new: "k \<notin> fst ` set m \<Longrightarrow> map_set k v m = m @ [(k, v)]"
  by (induction m) auto

lemma collect_options_new:
  "distinct (map fst (acc @ m)) \<Longrightarrow> \<forall>(k, v) \<in> set m. k \<noteq> [] \<and> CHR ''='' \<notin> set k \<Longrightarrow>
     collect_options (map (\<lambda>(k, v). k @ CHR ''='' # v) m) acc = acc @ m"
proof (induction m arbitrary: acc)
  case (Cons kv m)
  obtain k v where kv: "kv = (k, v)"
    by fastforce
  have "map_set k v acc = acc @ [(k, v)]"
    using Cons.prems(1) by (intro map_set_new) (auto simp: kv)
  moreover have "distinct (map fst ((acc @ [(k, v)]) @ m))"
    using Cons.prems(1) by (simp add: kv)
  from Cons.IH [OF this] have "collect_options (map (\<lambda>(k, v). k @ CHR ''='' # v) m) (acc @ [(k, v)]) = acc @ (k, v) # m"
    using Cons.prems(2) by simp
  ultimately show ?case
    using Cons.prems(2) by (simp add: kv parse_option_pair)
qed simp

subsection \<open>Properties\<close>

text \<open>C31: Waiting for a transaction. The wait ends with the first answer that does not say the
  transaction is pending, not found or executing, be it the result or another error; after
  twenty answers that say so the next tick ends it with the limit error; a context that is done
  ends it at once. So it always ends.\<close>

theorem WaitForResults_first_answer:
  assumes "\<forall>i < k. \<exists>e. ev i = Tick (Inl e) \<and> tx_pending c e" and "k \<le> 20"
    and "k = 20 \<or> \<not> (\<exists>e. ev k = Tick (Inl e) \<and> tx_pending c e)"
  shows "Client_WaitForResults c ev =
    (case ev k of
       CtxDone \<Rightarrow> Inl (RpcError None (ErrMsg ''Context Cancelled ReceiptWait Exiting ''))
     | Tick res \<Rightarrow>
         if k = 20 then Inl (RpcError None (ErrMsg ''Retry Limit Exceeded while waiting for results of transaction''))
         else res)"
proof -
  have "Client_WaitForResults c ev = wait_rounds c ev k (20 - k)"
    using wait_rounds_skip [of k ev 0 c 20] assms(1,2) by (simp add: Client_WaitForResults_def retryLimit_def)
  moreover have "wait_rounds c ev k (20 - k) =
    (case ev k of
       CtxDone \<Rightarrow> Inl (RpcError None (ErrMsg ''Context Cancelled ReceiptWait Exiting ''))
     | Tick res \<Rightarrow>
         if k = 20 then Inl (RpcError None (ErrMsg ''Retry Limit Exceeded while waiting for results of transaction''))
         else res)"
  proof (cases "k = 20")
    case True
    then show ?thesis
      by (simp split: wait_event.split)
  next
    case False
    then obtain n where "20 - k = Suc n"
      using assms(2) by (cases "20 - k") auto
    then show ?thesis
      using False assms(3) by (auto split: wait_event.split sum.split)
  qed
  ultimately show ?thesis
    by simp
qed

definition sample_rpc :: "unit JsonRpc" where
  "sample_rpc =
     \<lparr>Do_HexBytes = (\<lambda>_ _ w. (Inr ''0xab'', w)), Do_TransactionResult = (\<lambda>_ _ _. Inl (RpcError None ErrSyntax)),
      Do_Block = (\<lambda>_ _ _. Inr \<lparr>bk_Height = 7, bk_Timestamp = 0, bk_NormalTransactions = []\<rparr>),
      Do_bytes = (\<lambda>_ _ _. Inr []), Do_proof = (\<lambda>_ _ _. Inr []), Do_proofs = (\<lambda>_ _ _. Inr []),
      Do_HexInt = (\<lambda>_ _ _. Inr ''0x1''), DoURL_HexInt = (\<lambda>_ _ _ _. Inr ''0x10''),
      ErrorCodePending = - 31002, ErrorCodeNotFound = - 31004, ErrorCodeExecuting = - 31003\<rparr>"

theorem WaitForResults_first_answer_witness:
  "Client_WaitForResults sample_rpc (\<lambda>i. if i < 3 then Tick (Inl (RpcError (Some (- 31002)) ErrSyntax)) else Tick (Inl (RpcError None ErrRange)))
     = Inl (RpcError None ErrRange)"
proof -
  let ?ev = "\<lambda>i :: nat. if i < 3 then Tick (Inl (RpcError (Some (- 31002)) ErrSyntax)) else Tick (Inl (RpcError None ErrRange))"
  have "\<forall>i < 3. \<exists>e. ?ev i = Tick (Inl e) \<and> tx_pending sample_rpc e"
    by (auto simp: tx_pending_def sample_rpc_def)
  from WaitForResults_first_answer [OF this] show ?thesis
    by (simp add: tx_pending_def)
qed

text \<open>The options header is read back as the options it was written from, when no key is empty
  or has a separator and no value has a comma.\<close>

lemma IconOptions_header_roundtrip:
  assumes "map_wf m" and "m \<noteq> []"
    and "list_all (\<lambda>(k, v). k \<noteq> [] \<and> CHR ''='' \<notin> set k \<and> CHR '','' \<notin> set k \<and> CHR '','' \<notin> set v) m"
  shows "NewIconOptionsByHeader (IconOptions_ToHeaderValue (Some m)) = Some m"
proof -
  let ?parts = "map (\<lambda>(k, v). k @ CHR ''='' # v) m"
  have "split_at (CHR '','') (strings_Join ?parts '','') = ?parts"
    using assms(2,3) by (intro split_at_join) (auto simp: list_all_iff)
  moreover have "strings_Join ?parts '','' \<noteq> []"
    using assms(2) by (cases m; cases "tl m") auto
  moreover have "collect_options ?parts [] = m"
    using collect_options_new [of "[]" m] assms(1,3) by (auto simp: list_all_iff)
  ultimately show ?thesis
    by (simp add: NewIconOptionsByHeader_def IconOptions_ToHeaderValue_def)
qed

lemma IconOptions_header_roundtrip_instance:
  "NewIconOptionsByHeader (IconOptions_ToHeaderValue (Some [(''debug'', ''true''), (''timeout'', ''5'')]))
     = Some [(''debug'', ''true''), (''timeout'', ''5'')]"
  by (rule IconOptions_header_roundtrip) simp_all

end
