(* ===== verification/IconProvider.thy ===== *)
theory IconProvider
  imports IconClient ChainRuntime
begin

text \<open>
  \<^verbatim>\<open>provider.go\<close>, \<^verbatim>\<open>query.go\<close>, \<^verbatim>\<open>route.go\<close> and \<^verbatim>\<open>event_parser.go\<close> of \<^verbatim>\<open>relayer/chains/icon\<close>: the
  provider of an ICON chain over its client. A call that panics is \<open>None\<close>. The text of a wrapped
  cause is left out of an error. \<open>WaitForTxResult\<close> runs in a goroutine of its own and ends by
  calling back, so it is a function from the outcome of the wait to the calls it makes.
\<close>

subsection \<open>Configuration\<close>

record IconProviderConfig =
  ic_ChainName :: string
  ic_RPCUrl :: string
  ic_KeyStore :: string
  ic_Password :: string
  ic_StartHeight :: u64
  ic_ContractAddress :: string
  ic_NetworkID :: u64
  ic_NID :: string

definition IconProviderConfig_Validate :: "IconProviderConfig \<Rightarrow> error option" where
  "IconProviderConfig_Validate pp =
     (if ic_RPCUrl pp = [] then Some (ErrMsg ''icon provider rpc endpoint is empty'') else None)"

text \<open>\<open>NewProvider\<close>: the configuration of the new provider.\<close>

definition IconProviderConfig_NewProvider :: "string \<Rightarrow> IconProviderConfig \<Rightarrow> error + IconProviderConfig" where
  "IconProviderConfig_NewProvider chainName pp =
     (case IconProviderConfig_Validate pp of
        Some e \<Rightarrow> Inl e
      | None \<Rightarrow> Inr (pp\<lparr>ic_ChainName := chainName\<rparr>))"

subsection \<open>Queries\<close>

type_synonym CallParamOption = "CallParam \<Rightarrow> CallParam"

definition callParamsWithHeight :: "HexInt \<Rightarrow> CallParamOption" where
  "callParamsWithHeight height cp = cp\<lparr>cp_Height := height\<rparr>"

text \<open>A Go map of parameters is the list of its entries in the order of the keys, as it is marshalled.\<close>

definition prepareCallParams ::
    "IconProviderConfig \<Rightarrow> string \<Rightarrow> (string \<times> json) list \<Rightarrow> CallParamOption list \<Rightarrow> CallParam" where
  "prepareCallParams cfg methodName param options =
     foldl (\<lambda>cp option. option cp)
       \<lparr>cp_FromAddress = ''hx'' @ replicate 40 (CHR ''0''), cp_ToAddress = ic_ContractAddress cfg,
        cp_DataType = ''call'', cp_Data = \<lparr>cd_Method = methodName, cd_Params = JObj param\<rparr>, cp_Height = []\<rparr>
       options"

definition Icon_QueryLatestHeight :: "'w JsonRpc \<Rightarrow> 'w \<Rightarrow> error + u64" where
  "Icon_QueryLatestHeight c w =
     (case Client_GetLastBlock c w of
        Inl (RpcError _ e) \<Rightarrow> Inl e
      | Inr block \<Rightarrow> Inr (bk_Height block))"

definition Icon_MessageReceived ::
    "'w JsonRpc \<Rightarrow> IconProviderConfig \<Rightarrow> 'w \<Rightarrow> MessageKey \<Rightarrow> bool \<times> error option" where
  "Icon_MessageReceived c cfg w k =
     (let callParam = prepareCallParams cfg MethodGetReceipts
            [(''_connSn'', JStr (NewHexInt (key_Sn k))), (''srcNetwork'', JStr (key_Src k))] []
      in case Client_Call c callParam w of
           Inl e \<Rightarrow> (False, Some (ErrMsg ''MessageReceived''))
         | Inr status \<Rightarrow> if status = NewHexInt 1 then (True, None) else (False, None))"

text \<open>\<open>x.Uint64()\<close> of a \<open>big.Int\<close>: the low 64 bits of its magnitude.\<close>

definition big_Uint64 :: "int \<Rightarrow> u64" where
  "big_Uint64 x = of_int \<bar>x\<bar>"

definition Icon_QueryBalance :: "'w JsonRpc \<Rightarrow> 'w \<Rightarrow> string \<Rightarrow> error + Coin" where
  "Icon_QueryBalance c w addr =
     (case Client_GetBalance c \<lparr>ap_Address = addr, ap_Height = []\<rparr> w of
        Inl (RpcError _ e) \<Rightarrow> Inl e
      | Inr balance \<Rightarrow> Inr (NewCoin ''ICX'' (big_Uint64 balance)))"

definition Icon_QueryTransactionReceipt :: "'w JsonRpc \<Rightarrow> 'w \<Rightarrow> string \<Rightarrow> error + Receipt option" where
  "Icon_QueryTransactionReceipt c w txHash =
     (case Client_GetTransactionResult c txHash w of
        Inl e \<Rightarrow> Inl (ErrMsg ''QueryTransactionReceipt: GetTransactionResult'')
      | Inr res \<Rightarrow>
          (case HexInt_BigInt (trr_BlockHeight res) of
             Inl e \<Rightarrow> Inl (ErrMsg ''QueryTransactionReceipt: bigIntConversion'')
           | Inr height \<Rightarrow>
               (case HexInt_Int (trr_Status res) of
                  Inl e \<Rightarrow> Inl (ErrMsg ''QueryTransactionReceipt: bigIntConversion'')
                | Inr status \<Rightarrow>
                    Inr (Some \<lparr>rc_TxHash = txHash, rc_Height = big_Uint64 height, rc_Status = (status = 1)\<rparr>))))"

text \<open>
  \<open>big.Int.SetString(s, 0)\<close>: a sign, a prefix that gives the base, digits of the base; an
  underscore may stand between two of them, the prefix counting as one.
\<close>

fun big_digits :: "nat \<Rightarrow> bool \<Rightarrow> nat \<Rightarrow> string \<Rightarrow> nat option" where
  "big_digits b sep acc [] = (if sep then None else Some acc)"
| "big_digits b sep acc (c # cs) =
     (if c = CHR ''_'' then (if sep then None else big_digits b True acc cs)
      else
        (case digit_val c of
           None \<Rightarrow> None
         | Some d \<Rightarrow> if b \<le> d then None else big_digits b False (acc * b + d) cs))"

definition big_magnitude :: "string \<Rightarrow> nat option" where
  "big_magnitude s =
     (case s of
        [] \<Rightarrow> None
      | [c] \<Rightarrow> if c = CHR ''_'' then None else big_digits 10 False 0 s
      | c # p # ds \<Rightarrow>
          if c = CHR ''0'' then
            (if p = CHR ''x'' \<or> p = CHR ''X'' then (if ds = [] then None else big_digits 16 False 0 ds)
             else if p = CHR ''b'' \<or> p = CHR ''B'' then (if ds = [] then None else big_digits 2 False 0 ds)
             else if p = CHR ''o'' \<or> p = CHR ''O'' then (if ds = [] then None else big_digits 8 False 0 ds)
             else big_digits 8 False 0 (p # ds))
          else if c = CHR ''_'' then None
          else big_digits 10 False 0 s)"

definition big_SetString :: "string \<Rightarrow> int option" where
  "big_SetString s =
     (case s of
        [] \<Rightarrow> None
      | c # cs \<Rightarrow>
          if c = CHR ''-'' then map_option (\<lambda>n. - int n) (big_magnitude cs)
          else if c = CHR ''+'' then map_option int (big_magnitude cs)
          else map_option int (big_magnitude s))"

text \<open>
  One event log of \<open>GenerateMessage\<close>: \<open>Some None\<close> is \<open>continue\<close>. The guard joins its four tests
  with \<open>&&\<close>, so it skips a log only when all of them say so.
\<close>

definition generate_from_log ::
    "IconProviderConfig \<Rightarrow> MessageKeyWithMessageHeight \<Rightarrow> string \<Rightarrow> EventLogStr \<Rightarrow> Message option go" where
  "generate_from_log cfg key eventName el =
     (let skip =
        (if els_Addr el \<noteq> ic_ContractAddress cfg \<and> length (els_Indexed el) \<noteq> 3 \<and> length (els_Data el) \<noteq> 1
         then (if els_Indexed el = [] then None else Some (els_Indexed el ! 0 \<noteq> eventName))
         else Some False)
      in case skip of
           None \<Rightarrow> None
         | Some True \<Rightarrow> Some None
         | Some False \<Rightarrow>
             if length (els_Indexed el) < 3 then None
             else
               (case big_SetString (els_Indexed el ! 2) of
                  None \<Rightarrow> Some None
                | Some sn \<Rightarrow>
                    if length (els_Data el) < 1 then None
                    else
                      (case HexBytes_Value (els_Data el ! 0) of
                         None \<Rightarrow> None
                       | Some (Inl e) \<Rightarrow> Some None
                       | Some (Inr dataValue) \<Rightarrow>
                           Some (Some
                             \<lparr>msg_Dst = els_Indexed el ! 1, msg_Src = key_Src (mk_Key key), msg_Sn = big_Uint64 sn,
                              msg_Data = dataValue, msg_MessageHeight = mk_MsgHeight key,
                              msg_EventType = key_EventType (mk_Key key)\<rparr>))))"

fun generate_from_logs ::
    "IconProviderConfig \<Rightarrow> MessageKeyWithMessageHeight \<Rightarrow> string \<Rightarrow> EventLogStr list \<Rightarrow> Message option go" where
  "generate_from_logs cfg key eventName [] = Some None"
| "generate_from_logs cfg key eventName (el # els) =
     (case generate_from_log cfg key eventName el of
        None \<Rightarrow> None
      | Some (Some m) \<Rightarrow> Some (Some m)
      | Some None \<Rightarrow> generate_from_logs cfg key eventName els)"

fun generate_from_txs ::
    "'w JsonRpc \<Rightarrow> IconProviderConfig \<Rightarrow> MessageKeyWithMessageHeight \<Rightarrow> string \<Rightarrow> 'w
       \<Rightarrow> NormalTransaction list \<Rightarrow> (error + Message option) go" where
  "generate_from_txs c cfg key eventName w [] = Some (Inr None)"
| "generate_from_txs c cfg key eventName w (res # txs) =
     (case Client_GetTransactionResult c (nt_TxHash res) w of
        Inl e \<Rightarrow> Some (Inl (ErrMsg ''GenerateMessage:GetTransactionResult''))
      | Inr txResult \<Rightarrow>
          (case generate_from_logs cfg key eventName (trr_EventLogs txResult) of
             None \<Rightarrow> None
           | Some (Some m) \<Rightarrow> Some (Inr (Some m))
           | Some None \<Rightarrow> generate_from_txs c cfg key eventName w txs))"

definition Icon_GenerateMessage ::
    "'w JsonRpc \<Rightarrow> IconProviderConfig \<Rightarrow> 'w \<Rightarrow> MessageKeyWithMessageHeight option
       \<Rightarrow> (Message option \<times> error option) go" where
  "Icon_GenerateMessage c cfg w key =
     (case key of
        None \<Rightarrow> Some (None, Some (ErrMsg ''GenerateMessage: message key cannot be nil''))
      | Some k \<Rightarrow>
          (let eventName = (if key_EventType (mk_Key k) = EmitMessage then icon_EmitMessage else [])
           in case Client_GetBlockByHeight c (NewHexInt (mk_MsgHeight k)) w of
                Inl e \<Rightarrow> Some (None, Some (ErrMsg ''GenerateMessage:GetBlockByHeight''))
              | Inr block \<Rightarrow>
                  (case generate_from_txs c cfg k eventName w (bk_NormalTransactions block) of
                     None \<Rightarrow> None
                   | Some (Inl e) \<Rightarrow> Some (None, Some e)
                   | Some (Inr (Some m)) \<Rightarrow> Some (Some m, None)
                   | Some (Inr None) \<Rightarrow> Some (None, Some (ErrMsg ''error generating message'')))))"

subsection \<open>Events\<close>

text \<open>The guard of \<open>parseEmitMessage\<close> is \<open>&&\<close>: it rejects an event only when both counts are wrong.\<close>

definition parseEmitMessage ::
    "IconProviderConfig \<Rightarrow> EventLog \<Rightarrow> string \<Rightarrow> u64 \<Rightarrow> (error + Message) go" where
  "parseEmitMessage cfg e eventType height =
     (if length (el_Indexed e) \<noteq> 3 \<and> length (el_Data e) \<noteq> 1
      then Some (Inl (ErrMsg ''expected indexed: 3 & data: 1''))
      else if length (el_Indexed e) < 3 \<or> length (el_Data e) < 1 then None
      else Some (Inr
        \<lparr>msg_Dst = el_Indexed e ! 1, msg_Src = ic_NID cfg, msg_Sn = of_nat (set_bytes (el_Indexed e ! 2)),
         msg_Data = Some (el_Data e ! 0), msg_MessageHeight = height, msg_EventType = eventType\<rparr>))"

definition parseMessageFromEvent ::
    "IconProviderConfig \<Rightarrow> EventLog \<Rightarrow> u64 \<Rightarrow> Message option go" where
  "parseMessageFromEvent cfg event height =
     (if el_Indexed event = [] then None
      else
        (let eventName = el_Indexed event ! 0;
             eventType = (case map_get icon_EventNameToType eventName of None \<Rightarrow> [] | Some t \<Rightarrow> t)
         in if eventName = icon_EmitMessage then
              (case parseEmitMessage cfg event eventType height of
                 None \<Rightarrow> None
               | Some (Inl e) \<Rightarrow> Some None
               | Some (Inr m) \<Rightarrow> Some (Some m))
            else Some None))"

fun parseMessagesFromEventlogs ::
    "IconProviderConfig \<Rightarrow> u64 \<Rightarrow> EventLog list \<Rightarrow> Message list go" where
  "parseMessagesFromEventlogs cfg height [] = Some []"
| "parseMessagesFromEventlogs cfg height (el # els) =
     (case parseMessageFromEvent cfg el height of
        None \<Rightarrow> None
      | Some message \<Rightarrow>
          (case parseMessagesFromEventlogs cfg height els of
             None \<Rightarrow> None
           | Some msgs \<Rightarrow> Some (case message of None \<Rightarrow> msgs | Some m \<Rightarrow> m # msgs)))"

subsection \<open>Routing\<close>

definition MakeIconMessage :: "Message \<Rightarrow> error + IconMessage" where
  "MakeIconMessage message =
     (if msg_EventType message = EmitMessage then
        Inr (NewIconMessage
          (RecvMessage_json
            \<lparr>rv_SrcNID = msg_Src message, rv_ConnSn = NewHexInt (msg_Sn message),
             rv_Msg = NewHexBytes (case msg_Data message of None \<Rightarrow> [] | Some d \<Rightarrow> d)\<rparr>)
          MethodRecvMessage)
      else Inl (ErrMsg (''can't generate message for unknown event type: '' @ msg_EventType message)))"

definition JsonrpcApiVersion :: i64 where
  "JsonrpcApiVersion = 3"

text \<open>
  The wallet of the key store, goloop's: its address and how it signs. With the serialisation, the
  hash and the clocks it is what \<open>SendTransaction\<close> needs besides the client.
\<close>

record IconSigner =
  sg_Wallet :: "error + (string \<times> (bytes \<Rightarrow> error + bytes))"
  sg_serialize :: "string \<Rightarrow> error + bytes"
  sg_sha3 :: "bytes \<Rightarrow> bytes"
  sg_now_estimate :: i64
  sg_now_sign :: i64

definition unsigned_tx :: "IconProviderConfig \<Rightarrow> string \<Rightarrow> IconMessage \<Rightarrow> HexInt \<Rightarrow> TransactionParam" where
  "unsigned_tx cfg addr msg stepLimit =
     \<lparr>tp_Version = NewHexInt JsonrpcApiVersion, tp_FromAddress = addr, tp_ToAddress = ic_ContractAddress cfg,
      tp_Value = [], tp_StepLimit = stepLimit, tp_Timestamp = [], tp_NetworkID = NewHexInt (ic_NetworkID cfg),
      tp_Nonce = [], tp_Signature = [], tp_DataType = ''call'',
      tp_Data = \<lparr>cd_Method = im_Method msg, cd_Params = im_Params msg\<rparr>, tp_TxHash = []\<rparr>"

definition Icon_SendTransaction ::
    "'w JsonRpc \<Rightarrow> IconProviderConfig \<Rightarrow> string \<Rightarrow> IconSigner \<Rightarrow> IconMessage \<Rightarrow> 'w
       \<Rightarrow> ((error + bytes option) \<times> 'w) go" where
  "Icon_SendTransaction c cfg debugEndPoint sg msg w =
     (case sg_Wallet sg of
        Inl e \<Rightarrow> Some (Inl e, w)
      | Inr (addr, sign) \<Rightarrow>
          (case Client_EstimateStep c debugEndPoint (sg_now_estimate sg)
                 \<lparr>tpe_Version = NewHexInt JsonrpcApiVersion, tpe_FromAddress = addr,
                  tpe_ToAddress = ic_ContractAddress cfg, tpe_Value = [], tpe_Timestamp = [],
                  tpe_NetworkID = NewHexInt (ic_NetworkID cfg), tpe_Nonce = [], tpe_DataType = ''call'',
                  tpe_Data = \<lparr>cd_Method = im_Method msg, cd_Params = im_Params msg\<rparr>\<rparr> w of
             Inl e \<Rightarrow> Some (Inl (ErrMsg ''failed estimating step''), w)
           | Inr step \<Rightarrow>
               (case HexInt_Int step of
                  Inl e \<Rightarrow> Some (Inl e, w)
                | Inr stepVal \<Rightarrow>
                    (case Client_SignTransaction (sg_serialize sg) (sg_sha3 sg) sign (sg_now_sign sg)
                           (unsigned_tx cfg addr msg (NewHexInt (of_int (stepVal + 200000)))) of
                       (Some e, p) \<Rightarrow> Some (Inl e, w)
                     | (None, p) \<Rightarrow>
                         (case Client_SendTransaction c p w of
                            (Inl (RpcError _ e), w') \<Rightarrow> Some (Inl e, w')
                          | (Inr h, w') \<Rightarrow>
                              (case HexBytes_Value (tp_TxHash p) of
                                 None \<Rightarrow> None
                               | Some res \<Rightarrow> Some (res, w')))))))"

text \<open>
  What \<open>Route\<close> leaves behind: an error, or the goroutine that waits for the transaction of the
  hash it was given.
\<close>

record IconWait =
  iw_TxHash :: "bytes option"
  iw_Key :: MessageKey
  iw_Method :: string

definition Icon_Route ::
    "'w JsonRpc \<Rightarrow> IconProviderConfig \<Rightarrow> string \<Rightarrow> IconSigner \<Rightarrow> Message option \<Rightarrow> 'w
       \<Rightarrow> ((error + IconWait) \<times> 'w) go" where
  "Icon_Route c cfg debugEndPoint sg message w =
     (case message of
        None \<Rightarrow> None
      | Some m \<Rightarrow>
          (case MakeIconMessage m of
             Inl e \<Rightarrow> Some (Inl e, w)
           | Inr iconMessage \<Rightarrow>
               (case Icon_SendTransaction c cfg debugEndPoint sg iconMessage w of
                  None \<Rightarrow> None
                | Some (Inl e, w') \<Rightarrow> Some (Inl (ErrMsg ''error occured while sending transaction''), w')
                | Some (Inr txhash, w') \<Rightarrow>
                    Some (Inr \<lparr>iw_TxHash = txhash, iw_Key = Message_MessageKey m, iw_Method = im_Method iconMessage\<rparr>,
                          w'))))"

text \<open>
  The value \<open>strconv.ParseInt\<close> returns beside an error: zero for what is no number, the bound of
  the type for one that is out of range.
\<close>

definition HexInt_Value_raw :: "HexInt \<Rightarrow> int" where
  "HexInt_Value_raw i =
     (case HexInt_Value i of
        Inr v \<Rightarrow> v
      | Inl e \<Rightarrow>
          if e = ErrRange then (if strings_HasPrefix (strip_0x i) ''-'' then - (2 ^ 63) else 2 ^ 63 - 1) else 0)"

text \<open>The callback is called again after an error of the height: the branch has no \<open>return\<close>.\<close>

definition WaitForTxResult :: "IconWait \<Rightarrow> rpc_error + TransactionResult \<Rightarrow> tx_callback list" where
  "WaitForTxResult iw outcome =
     (let res = zero_TxResponse\<lparr>tr_TxHash := (case iw_TxHash iw of None \<Rightarrow> [] | Some h \<Rightarrow> h)\<rparr>
      in case outcome of
           Inl (RpcError _ e) \<Rightarrow> [(iw_Key iw, res, Some e)]
         | Inr txRes \<Rightarrow>
             (let first = (case HexInt_Value (trr_BlockHeight txRes) of
                             Inl e \<Rightarrow> [(iw_Key iw, res, Some e)]
                           | Inr h \<Rightarrow> []);
                  res1 = res\<lparr>tr_Height := of_int (HexInt_Value_raw (trr_BlockHeight txRes))\<rparr>
              in first @
                 (if HexInt_Int (trr_Status txRes) = Inr 1
                  then [(iw_Key iw, res1\<lparr>tr_Code := Success\<rparr>, None)]
                  else [(iw_Key iw, res1, Some (ErrMsg ''Transaction Failed to Execute''))])))"

subsection \<open>Where the listener starts\<close>

definition Icon_StartFromHeight :: "'w JsonRpc \<Rightarrow> IconProviderConfig \<Rightarrow> 'w \<Rightarrow> u64 \<Rightarrow> error + i64" where
  "Icon_StartFromHeight c cfg w lastSavedHeight =
     (case Icon_QueryLatestHeight c w of
        Inl e \<Rightarrow> Inl e
      | Inr latestHeight \<Rightarrow>
          if lastSavedHeight \<noteq> 0 \<and> lastSavedHeight < latestHeight then Inr lastSavedHeight
          else if ic_StartHeight cfg \<noteq> 0 \<and> ic_StartHeight cfg < latestHeight then Inr (ic_StartHeight cfg)
          else Inr latestHeight)"

subsection \<open>The provider\<close>

text \<open>
  The provider as the relayer sees it. \<open>Route\<close> starts a wait whose callback comes later, so it
  hands over no call at once. The interface has no panic of \<open>GenerateMessage\<close>; its only caller
  panics on a nil message without error as it would on that panic, so this is what stands for it.
\<close>

definition icon_provider ::
    "'w JsonRpc \<Rightarrow> IconProviderConfig \<Rightarrow> string \<Rightarrow> IconSigner \<Rightarrow> 'w ChainProvider" where
  "icon_provider c cfg debugEndPoint sg =
     \<lparr>NID = ic_NID cfg, ChainName = ic_ChainName cfg,
      FinalityBlock = (\<lambda>w. 0),
      QueryLatestHeight = Icon_QueryLatestHeight c,
      QueryTransactionReceipt = Icon_QueryTransactionReceipt c,
      ShouldReceiveMessage = (\<lambda>w m. (True, None)),
      ShouldSendMessage = (\<lambda>w m. (True, None)),
      MessageReceived = Icon_MessageReceived c cfg,
      GenerateMessage = (\<lambda>w k. case Icon_GenerateMessage c cfg w (Some k) of
                           None \<Rightarrow> (None, None) | Some res \<Rightarrow> res),
      Route = (\<lambda>w m. case Icon_Route c cfg debugEndPoint sg m w of
                 None \<Rightarrow> None
               | Some (Inl e, w') \<Rightarrow> Some ([], Some e, w')
               | Some (Inr iw, w') \<Rightarrow> Some ([], None, w'))\<rparr>"

subsection \<open>Properties\<close>

definition icon_message :: "IconProviderConfig \<Rightarrow> u64 \<Rightarrow> EventLog \<Rightarrow> Message" where
  "icon_message cfg height e =
     \<lparr>msg_Dst = el_Indexed e ! 1, msg_Src = ic_NID cfg, msg_Sn = of_nat (set_bytes (el_Indexed e ! 2)),
      msg_Data = Some (el_Data e ! 0), msg_MessageHeight = height, msg_EventType = EmitMessage\<rparr>"

lemma parseMessageFromEvent_cases:
  assumes "el_Indexed e \<noteq> []"
  shows "parseMessageFromEvent cfg e height =
    (if el_Indexed e ! 0 \<noteq> icon_EmitMessage then Some None
     else if length (el_Indexed e) \<noteq> 3 \<and> length (el_Data e) \<noteq> 1 then Some None
     else if length (el_Indexed e) < 3 \<or> length (el_Data e) < 1 then None
     else Some (Some (icon_message cfg height e)))"
  using assms by (auto simp: parseMessageFromEvent_def parseEmitMessage_def icon_message_def
      icon_EventNameToType_def Let_def)

text \<open>C28: The messages of a block are those of its \<open>EmitMessage\<close> events, one each, in the order of the
  events, when every such event has three indexed fields and one of data. An \<open>EmitMessage\<close> event
  with three indexed fields and no data crashes the listener, since the guard for malformed
  events rejects only those with both counts wrong.\<close>

theorem icon_events_messages:
  assumes "\<forall>e \<in> set els. el_Indexed e \<noteq> [] \<and>
      (el_Indexed e ! 0 = icon_EmitMessage \<longrightarrow> length (el_Indexed e) = 3 \<and> length (el_Data e) = 1)"
  shows "parseMessagesFromEventlogs cfg height els =
      Some (map (icon_message cfg height) (filter (\<lambda>e. el_Indexed e ! 0 = icon_EmitMessage) els)) \<and>
    parseMessagesFromEventlogs cfg height
      (els @ [\<lparr>el_Addr = a, el_Indexed = [icon_EmitMessage, d, n], el_Data = []\<rparr>]) = None"
  using assms by (induction els) (simp_all add: parseMessageFromEvent_cases)

theorem icon_events_messages_witness:
  "parseMessagesFromEventlogs \<lparr>ic_ChainName = [], ic_RPCUrl = ''x'', ic_KeyStore = [], ic_Password = [], ic_StartHeight = 0,
       ic_ContractAddress = ''cx1'', ic_NetworkID = 2, ic_NID = ''0x2.icon''\<rparr> 5
     [\<lparr>el_Addr = ''cx1'', el_Indexed = [icon_EmitMessage, ''eth'', [char_of (3 :: nat)]], el_Data = [''hi'']\<rparr>]
   = Some [\<lparr>msg_Dst = ''eth'', msg_Src = ''0x2.icon'', msg_Sn = 3, msg_Data = Some ''hi'', msg_MessageHeight = 5,
       msg_EventType = EmitMessage\<rparr>]"
  using icon_events_messages [of "[\<lparr>el_Addr = ''cx1'', el_Indexed = [icon_EmitMessage, ''eth'', [char_of (3 :: nat)]], el_Data = [''hi'']\<rparr>]"]
  by (simp add: icon_message_def set_bytes_def)

text \<open>Generating a message again does not look at its serial number: the first event log of the
  block with three indexed fields and one of data, whatever its contract, its name and its serial
  number, is taken for the message of the key.\<close>

lemma GenerateMessage_takes_first_log:
  assumes "Client_GetBlockByHeight c (NewHexInt (mk_MsgHeight key)) w = Inr block"
    and "bk_NormalTransactions block = tx # txs"
    and "Client_GetTransactionResult c (nt_TxHash tx) w = Inr res"
    and "trr_EventLogs res = el # els"
    and "els_Indexed el = [name, dst, sn]" and "els_Data el = [d]"
    and "big_SetString sn = Some n" and "HexBytes_Value d = Some (Inr data)"
  shows "Icon_GenerateMessage c cfg w (Some key) = Some (Some
      \<lparr>msg_Dst = dst, msg_Src = key_Src (mk_Key key), msg_Sn = big_Uint64 n, msg_Data = data,
       msg_MessageHeight = mk_MsgHeight key, msg_EventType = key_EventType (mk_Key key)\<rparr>, None)"
  using assms by (simp add: Icon_GenerateMessage_def generate_from_log_def)

definition sample_log_rpc :: "unit JsonRpc" where
  "sample_log_rpc = sample_rpc
     \<lparr>Do_Block := (\<lambda>_ _ _. Inr \<lparr>bk_Height = 7, bk_Timestamp = 0,
        bk_NormalTransactions = [\<lparr>nt_TxHash = ''0x01'', nt_From = [], nt_To = [], nt_DataType = [], nt_Data = []\<rparr>]\<rparr>),
      Do_TransactionResult := (\<lambda>_ _ _. Inr
        \<lparr>trr_To = [], trr_CumulativeStepUsed = [], trr_StepUsed = [], trr_StepPrice = [],
         trr_EventLogs = [\<lparr>els_Addr = ''cx9'', els_Indexed = [''Other(str)'', ''eth'', ''0x2a''], els_Data = [''0x6869'']\<rparr>],
         trr_LogsBloom = [], trr_Status = ''0x1'', trr_Failure = None, trr_SCOREAddress = [], trr_BlockHash = [],
         trr_BlockHeight = ''0x7'', trr_TxIndex = [], trr_TxHash = ''0x01''\<rparr>)\<rparr>"

lemma GenerateMessage_takes_first_log_instance:
  "Icon_GenerateMessage sample_log_rpc
     \<lparr>ic_ChainName = [], ic_RPCUrl = ''x'', ic_KeyStore = [], ic_Password = [], ic_StartHeight = 0,
       ic_ContractAddress = ''cx1'', ic_NetworkID = 2, ic_NID = ''icon''\<rparr> ()
     (Some \<lparr>mk_Key = NewMessageKey 1 ''icon'' ''eth'' EmitMessage, mk_MsgHeight = 7\<rparr>)
   = Some (Some \<lparr>msg_Dst = ''eth'', msg_Src = ''icon'', msg_Sn = 42, msg_Data = Some ''hi'',
       msg_MessageHeight = 7, msg_EventType = EmitMessage\<rparr>, None)"
proof -
  have n: "big_SetString ''0x2a'' = Some 42" "HexBytes_Value ''0x6869'' = Some (Inr (Some ''hi''))"
    by code_simp+
  show ?thesis
    using GenerateMessage_takes_first_log [where c = sample_log_rpc and w = "()" and n = 42 and data = "Some ''hi''"
        and key = "\<lparr>mk_Key = NewMessageKey 1 ''icon'' ''eth'' EmitMessage, mk_MsgHeight = 7\<rparr>"] n
    by (simp add: sample_log_rpc_def Client_GetBlockByHeight_def Client_GetTransactionResult_def
        NewMessageKey_def big_Uint64_def)
qed

text \<open>C29: What an ICON chain is sent can be read back. A message of the known event type becomes a
  call of \<open>recvMessage\<close> whose parameters name the source network and read back as the serial
  number, as a signed 64-bit integer, and as the data; any other event type is refused. A serial
  number of \<open>2\<^sup>6\<^sup>3\<close> or more is sent as a negative number, which \<open>BigInt\<close> does not read.\<close>

theorem MakeIconMessage_readable:
  "if msg_EventType m = EmitMessage then
     (\<exists>im rv. MakeIconMessage m = Inr im \<and> im_Method im = ''recvMessage'' \<and> im_Params im = RecvMessage_json rv \<and>
        rv_SrcNID rv = msg_Src m \<and> HexInt_Value (rv_ConnSn rv) = Inr (sint (msg_Sn m)) \<and>
        HexBytes_Value (rv_Msg rv) = Some (Inr (Some (case msg_Data m of None \<Rightarrow> [] | Some d \<Rightarrow> d))) \<and>
        (0 \<le> sint (msg_Sn m) \<or> (\<exists>e. HexInt_BigInt (rv_ConnSn rv) = Inl e)))
   else \<exists>e. MakeIconMessage m = Inl e"
proof (cases "msg_EventType m = EmitMessage")
  case True
  let ?rv = "\<lparr>rv_SrcNID = msg_Src m, rv_ConnSn = NewHexInt (msg_Sn m),
    rv_Msg = NewHexBytes (case msg_Data m of None \<Rightarrow> [] | Some d \<Rightarrow> d)\<rparr>"
  have "MakeIconMessage m = Inr (NewIconMessage (RecvMessage_json ?rv) MethodRecvMessage)"
    using True by (simp add: MakeIconMessage_def)
  moreover have "0 \<le> sint (msg_Sn m) \<or> (\<exists>e. HexInt_BigInt (NewHexInt (msg_Sn m)) = Inl e)"
    using HexInt_BigInt_New [of "msg_Sn m"] by (auto split: if_splits)
  ultimately show ?thesis
    using True by (auto intro!: exI [of _ ?rv] simp: NewIconMessage_def MethodRecvMessage_def
        HexInt_Value_New HexBytes_Value_New)
qed (simp add: MakeIconMessage_def)

text \<open>A transaction that was sent is waited for under its own hash. When \<open>Route\<close> starts a wait, the
  wallet's key has signed the hash of the serialised transaction with this hash in its wire form,
  the signature is the one sent, and the wait is for exactly these bytes and the message's key.\<close>

lemma Icon_Route_waits_for_hash:
  assumes "Icon_Route c cfg ep sg (Some m) w = Some (Inr iw, w')"
  shows "\<exists>p addr sign bs sig h. sg_Wallet sg = Inr (addr, sign) \<and>
     sg_serialize sg (json_print (TransactionParam_json (p\<lparr>tp_Signature := []\<rparr>))) = Inr bs \<and>
     sign (sg_sha3 sg (''icx_sendTransaction.'' @ bs)) = Inr sig \<and> b64_decode (tp_Signature p) = Some sig \<and>
     tp_FromAddress p = addr \<and> tp_ToAddress p = ic_ContractAddress cfg \<and>
     Client_SendTransaction c p w = (Inr h, w') \<and>
     iw_TxHash iw = Some (sg_sha3 sg (''icx_sendTransaction.'' @ bs)) \<and> iw_Key iw = Message_MessageKey m"
proof -
  obtain im where im: "MakeIconMessage m = Inr im"
    using assms by (auto simp: Icon_Route_def split: sum.splits)
  obtain txhash where send: "Icon_SendTransaction c cfg ep sg im w = Some (Inr txhash, w')"
    and iw: "iw = \<lparr>iw_TxHash = txhash, iw_Key = Message_MessageKey m, iw_Method = im_Method im\<rparr>"
    using assms by (auto simp: Icon_Route_def im split: option.splits prod.splits sum.splits)
  obtain addr sign where wal: "sg_Wallet sg = Inr (addr, sign)"
    using send by (auto simp: Icon_SendTransaction_def split: sum.splits)
  obtain step p h where sig: "Client_SignTransaction (sg_serialize sg) (sg_sha3 sg) sign (sg_now_sign sg)
      (unsigned_tx cfg addr im step) = (None, p)"
    and snd: "Client_SendTransaction c p w = (Inr h, w')" and val: "HexBytes_Value (tp_TxHash p) = Some (Inr txhash)"
    using send by (auto simp: Icon_SendTransaction_def wal split: sum.splits prod.splits option.splits rpc_error.splits)
  let ?u = "(unsigned_tx cfg addr im step)\<lparr>tp_Timestamp := NewHexInt (sg_now_sign sg)\<rparr>"
  obtain bs sgn where bs: "sg_serialize sg (json_print (TransactionParam_json ?u)) = Inr bs"
    "sign (sg_sha3 sg (''icx_sendTransaction.'' @ bs)) = Inr sgn"
    and p: "p = ?u\<lparr>tp_TxHash := NewHexBytes (sg_sha3 sg (''icx_sendTransaction.'' @ bs)), tp_Signature := b64_encode sgn\<rparr>"
    using sig by (auto simp: Client_SignTransaction_def Let_def split: sum.splits)
  have "TransactionParam_json (p\<lparr>tp_Signature := []\<rparr>) = TransactionParam_json ?u"
    by (simp add: p TransactionParam_json_def unsigned_tx_def)
  moreover have "txhash = Some (sg_sha3 sg (''icx_sendTransaction.'' @ bs))"
    using val by (simp add: p HexBytes_Value_New)
  moreover have "b64_decode (tp_Signature p) = Some sgn" "tp_FromAddress p = addr" "tp_ToAddress p = ic_ContractAddress cfg"
    by (simp_all add: p unsigned_tx_def)
  ultimately show ?thesis
    using bs wal snd by (intro exI [of _ p] exI [of _ addr] exI [of _ sign] exI [of _ bs] exI [of _ sgn] exI [of _ h])
      (simp add: iw)
qed

text \<open>C30: The wait for a transaction reports success exactly when the node has a result with status
  one, always under the key of the message. It reports once, except that a result whose height
  does not parse is reported twice, first as an error.\<close>

theorem WaitForTxResult_reports:
  "((\<exists>cb \<in> set (WaitForTxResult iw outcome). tr_Code (fst (snd cb)) = Success) \<longleftrightarrow>
      (\<exists>tx. outcome = Inr tx \<and> HexInt_Int (trr_Status tx) = Inr 1)) \<and>
   fst ` set (WaitForTxResult iw outcome) = {iw_Key iw} \<and>
   length (WaitForTxResult iw outcome) =
     (case outcome of
        Inl e \<Rightarrow> 1
      | Inr tx \<Rightarrow> (case HexInt_Value (trr_BlockHeight tx) of Inl e \<Rightarrow> 2 | Inr h \<Rightarrow> 1))"
  by (auto simp: WaitForTxResult_def Let_def zero_TxResponse_def Success_def Failed_def
      split: sum.splits rpc_error.splits)

end
