(* ===== verification/Batches.thy ===== *)
theory Batches
  imports Prelude "HOL-Library.Multiset"
begin

text \<open>
  What the listeners of ICON and EVM chains share: a batch of requests for consecutive heights
  goes out, the answers come back in any order and some of them are nil, the others are sorted by
  height, and an answer is forwarded when it stands where its height says.
\<close>

definition answered :: "'r option list \<Rightarrow> 'r list" where
  "answered brs = map the (filter (\<lambda>r. r \<noteq> None) brs)"

definition in_place :: "('r \<Rightarrow> int) \<Rightarrow> int \<Rightarrow> 'r list \<Rightarrow> 'r list" where
  "in_place h p rs = map snd (filter (\<lambda>(i, d). h d = p + int i) (enumerate 0 (sort_key h rs)))"

lemma set_answered: "r \<in> set (answered brs) \<longleftrightarrow> Some r \<in> set brs"
  by (force simp: answered_def)

text \<open>A strictly increasing list above \<open>p\<close> stands where it says on a beginning only.\<close>

lemma in_place_none:
  "sorted_wrt (<) (map h xs) \<Longrightarrow> \<forall>x \<in> set xs. p + int off < h x \<Longrightarrow>
     filter (\<lambda>(i, d). h d = p + int i) (enumerate off xs) = []"
  by (induction xs arbitrary: off) force+

lemma in_place_prefix:
  "sorted_wrt (<) (map h xs) \<Longrightarrow> \<forall>x \<in> set xs. p + int off \<le> h x \<Longrightarrow>
     ys = map snd (filter (\<lambda>(i, d). h d = p + int i) (enumerate off xs)) \<Longrightarrow>
     map h ys = map (\<lambda>i. p + int off + int i) [0..<length ys] \<and> set ys \<subseteq> set xs"
proof (induction xs arbitrary: off ys)
  case (Cons x xs)
  have above: "\<forall>y \<in> set xs. h x < h y"
    using Cons.prems(1) by simp
  show ?case
  proof (cases "h x = p + int off")
    case True
    let ?zs = "map snd (filter (\<lambda>(i, d). h d = p + int i) (enumerate (Suc off) xs))"
    have "\<forall>y \<in> set xs. p + int (Suc off) \<le> h y"
      using above True by force
    then have "map h ?zs = map (\<lambda>i. p + int (Suc off) + int i) [0..<length ?zs] \<and> set ?zs \<subseteq> set xs"
      using Cons.prems(1) by (intro Cons.IH) simp_all
    moreover have "ys = x # ?zs"
      using Cons.prems(3) True by simp
    moreover have "[0..<length (x # ?zs)] = 0 # map Suc [0..<length ?zs]"
      by (simp add: map_Suc_upt upt_conv_Cons del: upt_Suc)
    ultimately show ?thesis
      using True by (auto simp: comp_def add.assoc simp del: upt_Suc)
  next
    case False
    then have "\<forall>y \<in> set (x # xs). p + int off < h y"
      using Cons.prems(2) above by force
    from in_place_none [OF Cons.prems(1) this] have "ys = []"
      using Cons.prems(3) by simp
    then show ?thesis
      by simp
  qed
qed simp

text \<open>The other way round: what is consecutive from \<open>p\<close> is all in place.\<close>

lemma in_place_all:
  "map h xs = map (\<lambda>i. p + int off + int i) [0..<length xs] \<Longrightarrow>
     map snd (filter (\<lambda>(i, d). h d = p + int i) (enumerate off xs)) = xs"
proof (induction xs arbitrary: off)
  case (Cons x xs)
  have "[0..<length (x # xs)] = 0 # map Suc [0..<length xs]"
    by (simp add: map_Suc_upt upt_conv_Cons del: upt_Suc)
  then have "h x = p + int off" "map h xs = map (\<lambda>i. p + int (Suc off) + int i) [0..<length xs]"
    using Cons.prems by (simp_all add: comp_def add.assoc del: upt_Suc)
  with Cons.IH [of "Suc off"] show ?case
    by simp
qed simp

text \<open>
  The interface of a batch: the height of a request, the height of an answer, and which answers a
  request can have. The one law is that an answer has the height of its request.
\<close>

locale request_batch =
  fixes req_height :: "'q \<Rightarrow> int"
    and resp_height :: "'r \<Rightarrow> int"
    and answers :: "'q \<Rightarrow> 'r option \<Rightarrow> bool"
  assumes answer_height: "answers q (Some r) \<Longrightarrow> resp_height r = req_height q"
begin

lemma answered_heights:
  assumes "\<forall>q \<in> set reqs. answers q (outcome q)"
  shows "map resp_height (answered (map outcome reqs)) = map req_height (filter (\<lambda>q. outcome q \<noteq> None) reqs)"
  using assms by (induction reqs) (auto simp: answered_def answer_height)

lemma sorted_answers:
  assumes "map req_height reqs = map (\<lambda>i. p + int i) [0..<length reqs]"
    and "\<forall>q \<in> set reqs. answers q (outcome q)" and "mset brs = mset (map outcome reqs)"
  shows "sorted_wrt (<) (map resp_height (sort_key resp_height (answered brs)))"
    and "\<forall>r \<in> set (answered brs). p \<le> resp_height r"
proof -
  have "distinct (map req_height reqs)"
    unfolding assms(1) by (simp add: distinct_map inj_on_def)
  then have d: "distinct (map resp_height (answered (map outcome reqs)))"
    unfolding answered_heights [OF assms(2)] by (rule distinct_map_filter)
  have "mset (map resp_height (answered brs)) = mset (map resp_height (answered (map outcome reqs)))"
    using assms(3) by (simp add: answered_def mset_map mset_filter)
  then have "mset (map resp_height (sort_key resp_height (answered brs)))
      = mset (map resp_height (answered (map outcome reqs)))"
    by (simp add: mset_map)
  then have "distinct (map resp_height (sort_key resp_height (answered brs)))"
    using d mset_eq_imp_distinct_iff by blast
  then show "sorted_wrt (<) (map resp_height (sort_key resp_height (answered brs)))"
    by (simp add: strict_sorted_iff)
  show "\<forall>r \<in> set (answered brs). p \<le> resp_height r"
  proof
    fix r assume "r \<in> set (answered brs)"
    then have "Some r \<in> set (map outcome reqs)"
      using assms(3) mset_eq_setD unfolding set_answered by blast
    then obtain q where q: "q \<in> set reqs" "outcome q = Some r"
      by auto
    then have "req_height q \<in> set (map (\<lambda>i. p + int i) [0..<length reqs])"
      unfolding assms(1) [symmetric] by simp
    then show "p \<le> resp_height r"
      using q assms(2) answer_height by fastforce
  qed
qed

lemma forwarded_consecutive:
  assumes "map req_height reqs = map (\<lambda>i. p + int i) [0..<length reqs]"
    and "\<forall>q \<in> set reqs. answers q (outcome q)" and "mset brs = mset (map outcome reqs)"
    and "fw = in_place resp_height p (answered brs)"
  shows "map resp_height fw = map (\<lambda>i. p + int i) [0..<length fw]"
    and "set fw \<subseteq> set (answered brs)"
  using in_place_prefix [OF sorted_answers(1) [OF assms(1-3)], of p 0 fw] sorted_answers(2) [OF assms(1-3)] assms(4)
  by (simp_all add: in_place_def)

text \<open>
  The reference: the answers to the requests one after the other, up to the first that has none.
  Whatever the order in which the answers of a batch come back, these are forwarded.
\<close>

lemma sorted_in_order:
  assumes "map req_height reqs = map (\<lambda>i. p + int i) [0..<length reqs]"
    and "\<forall>q \<in> set reqs. answers q (outcome q)" and "mset brs = mset (map outcome reqs)"
  shows "sort_key resp_height (answered brs) = answered (map outcome reqs)"
proof -
  let ?xs = "answered (map outcome reqs)"
  have "sorted_wrt (<) (map req_height reqs)"
    unfolding assms(1) by (simp add: sorted_wrt_iff_nth_less)
  then have "sorted_wrt (<) (map req_height (filter (\<lambda>q. outcome q \<noteq> None) reqs))"
    by (simp add: sorted_wrt_map sorted_wrt_filter)
  then have strict: "sorted_wrt (<) (map resp_height ?xs)"
    unfolding answered_heights [OF assms(2)] .
  have m: "mset (answered brs) = mset ?xs"
    using assms(3) by (simp add: answered_def mset_map mset_filter)
  have "inj_on resp_height (set ?xs)"
    using strict by (simp add: strict_sorted_iff distinct_map)
  then have "inj_on resp_height (set (answered brs))"
    unfolding mset_eq_setD [OF m] .
  moreover have "sorted (map resp_height ?xs)"
    using strict by (simp add: strict_sorted_iff)
  ultimately show ?thesis
    using m by (intro sort_key_inj_key_eq)
qed

lemma in_place_reqs:
  assumes "map req_height reqs = map (\<lambda>i. p + int off + int i) [0..<length reqs]"
    and "\<forall>q \<in> set reqs. answers q (outcome q)"
  shows "map snd (filter (\<lambda>(i, d). resp_height d = p + int i) (enumerate off (answered (map outcome reqs))))
    = map (the \<circ> outcome) (takeWhile (\<lambda>q. outcome q \<noteq> None) reqs)"
  using assms
proof (induction reqs arbitrary: off)
  case (Cons q reqs)
  have "[0..<length (q # reqs)] = 0 # map Suc [0..<length reqs]"
    by (simp add: map_Suc_upt upt_conv_Cons del: upt_Suc)
  then have q: "req_height q = p + int off" and tl: "map req_height reqs = map (\<lambda>i. p + int (Suc off) + int i) [0..<length reqs]"
    using Cons.prems(1) by (simp_all add: comp_def add.assoc del: upt_Suc)
  show ?case
  proof (cases "outcome q")
    case None
    have heights: "map resp_height (answered (map outcome reqs)) = map req_height (filter (\<lambda>q. outcome q \<noteq> None) reqs)"
      using Cons.prems(2) by (intro answered_heights) simp
    have "sorted_wrt (<) (map req_height reqs)"
      unfolding tl by (simp add: sorted_wrt_iff_nth_less)
    then have "sorted_wrt (<) (map resp_height (answered (map outcome reqs)))"
      unfolding heights by (simp add: sorted_wrt_map sorted_wrt_filter)
    moreover have "p + int off < resp_height r" if "r \<in> set (answered (map outcome reqs))" for r
    proof -
      have "resp_height r \<in> set (map resp_height (answered (map outcome reqs)))"
        using that by simp
      then have "resp_height r \<in> set (map req_height reqs)"
        unfolding heights by auto
      then show ?thesis
        unfolding tl by auto
    qed
    ultimately have "filter (\<lambda>(i, d). resp_height d = p + int i) (enumerate off (answered (map outcome reqs))) = []"
      by (intro in_place_none) simp_all
    moreover have "answered (map outcome (q # reqs)) = answered (map outcome reqs)"
      using None by (simp add: answered_def)
    ultimately show ?thesis
      using None by simp
  next
    case (Some r)
    then have "resp_height r = p + int off"
      using Cons.prems(2) q answer_height by force
    then show ?thesis
      using Cons.IH [OF tl] Cons.prems(2) Some by (simp add: answered_def)
  qed
qed (simp add: answered_def)

lemma forwarded_in_order:
  assumes "map req_height reqs = map (\<lambda>i. p + int i) [0..<length reqs]"
    and "\<forall>q \<in> set reqs. answers q (outcome q)" and "mset brs = mset (map outcome reqs)"
  shows "in_place resp_height p (answered brs) = map (the \<circ> outcome) (takeWhile (\<lambda>q. outcome q \<noteq> None) reqs)"
  unfolding in_place_def sorted_in_order [OF assms]
  using in_place_reqs [of reqs p 0 outcome] assms(1,2) by simp

text \<open>When every request is answered, everything is forwarded.\<close>

lemma forwarded_complete:
  assumes "map req_height reqs = map (\<lambda>i. p + int i) [0..<length reqs]"
    and "\<forall>q \<in> set reqs. answers q (outcome q)" and "mset brs = mset (map outcome reqs)"
    and "\<forall>q \<in> set reqs. outcome q \<noteq> None"
  shows "length (in_place resp_height p (answered brs)) = length reqs"
  using assms(4) by (simp add: forwarded_in_order [OF assms(1-3)] takeWhile_eq_all_conv [THEN iffD2])

end

end
