(* ===== verification/IconListener.thy ===== *)
theory IconListener
  imports IconProvider Batches
begin

text \<open>
  \<^verbatim>\<open>relayer/chains/icon/listener.go\<close>, and the proof checking of \<^verbatim>\<open>utils.go\<close>: how the blocks of an
  ICON chain reach the relayer. Notifications arrive on one channel; the main loop takes a batch
  of them, fetches and checks the events of each block in goroutines, sorts the responses, and
  forwards those that continue the processed height on a second channel, from which the relayer
  is served. A lost connection drains both channels and starts again from the processed height.
  goloop's codec and trie and the error wrapper of \<open>pkg/errors\<close> are the record \<open>Goloop\<close>. Heights
  are the integers their 64 bits stand for.
\<close>

definition maxRetires :: nat where
  "maxRetires = 5"

record btpBlockResponse =
  bp_Height :: int
  bp_Hash :: "bytes option"
  bp_EventLogs :: "EventLog list"

record btpBlockRequest =
  rq_height :: int
  rq_hash :: HexBytes
  rq_indexes :: "HexInt list list"
  rq_events :: "HexInt list list list"
  rq_retry :: nat

record Goloop =
  gl_RLPInt :: "int \<Rightarrow> error + bytes"
  gl_Prove :: "bytes \<Rightarrow> bytes \<Rightarrow> bytes list \<Rightarrow> error + bytes"
  gl_BlockHeader :: "bytes \<Rightarrow> error + BlockHeader"
  gl_BlockHeaderResult :: "bytes \<Rightarrow> error + BlockHeaderResult"
  gl_TxResult :: "bytes \<Rightarrow> error + TxResult"
  gl_EventLog :: "bytes \<Rightarrow> error + EventLog"
  gl_Wrapf :: "error option \<Rightarrow> string \<Rightarrow> error option"

text \<open>The documentation of \<open>errors.Wrapf\<close>: nil stays nil, and an error stays one.\<close>

definition Wrapf_documented :: "Goloop \<Rightarrow> bool" where
  "Wrapf_documented gl \<longleftrightarrow> (\<forall>m. gl_Wrapf gl None m = None) \<and> (\<forall>e m. gl_Wrapf gl (Some e) m \<noteq> None)"

subsection \<open>Proofs of events\<close>

definition MptProve :: "Goloop \<Rightarrow> HexInt \<Rightarrow> bytes list \<Rightarrow> bytes \<Rightarrow> error + bytes" where
  "MptProve gl key proofs hash =
     (case HexInt_Value key of
        Inl e \<Rightarrow> Inl e
      | Inr index \<Rightarrow>
          (case gl_RLPInt gl index of
             Inl e \<Rightarrow> Inl e
           | Inr indexKey \<Rightarrow> gl_Prove gl hash indexKey proofs))"

definition Base64ToData :: "(bytes \<Rightarrow> error + 'v) \<Rightarrow> string \<Rightarrow> error + 'v" where
  "Base64ToData decode encoded =
     (if encoded = [] then Inl (ErrMsg ''Encoded string is empty '')
      else (case b64_decode encoded of None \<Rightarrow> Inl ErrSyntax | Some decoded \<Rightarrow> decode decoded))"

text \<open>The event logs of one receipt, each proved by the proof behind that of the receipt.\<close>

fun prove_events ::
    "Goloop \<Rightarrow> bytes list list \<Rightarrow> bytes \<Rightarrow> nat \<Rightarrow> HexInt list \<Rightarrow> (error option + EventLog list) go" where
  "prove_events gl proofs logsHash j [] = Some (Inr [])"
| "prove_events gl proofs logsHash j (ev # evs) =
     (if length proofs \<le> j + 1 then None
      else
        (case MptProve gl ev (proofs ! (j + 1)) logsHash of
           Inl e \<Rightarrow> Some (Inl (gl_Wrapf gl (Some e) ''event.MPTProve''))
         | Inr serialized \<Rightarrow>
             (case gl_EventLog gl serialized of
                Inl e \<Rightarrow> Some (Inl (gl_Wrapf gl (Some e) ''event.UnmarshalFromBytes''))
              | Inr el \<Rightarrow>
                  if el_Indexed el = [] then None
                  else
                    (case prove_events gl proofs logsHash (j + 1) evs of
                       None \<Rightarrow> None
                     | Some (Inl err) \<Rightarrow> Some (Inl err)
                     | Some (Inr els) \<Rightarrow> Some (Inr (el # els))))))"

text \<open>The receipts of one event filter: \<open>events\<close> are those of the same filter.\<close>

fun prove_receipts ::
    "'w JsonRpc \<Rightarrow> Goloop \<Rightarrow> 'w \<Rightarrow> HexBytes \<Rightarrow> bytes \<Rightarrow> HexInt list \<Rightarrow> HexInt list list
       \<Rightarrow> (error option + EventLog list) go" where
  "prove_receipts c gl w hash receiptHash [] evs = Some (Inr [])"
| "prove_receipts c gl w hash receiptHash (index # indexes) [] = None"
| "prove_receipts c gl w hash receiptHash (index # indexes) (ev # evs) =
     (case Client_GetProofForEvents c \<lparr>pep_BlockHash = hash, pep_Index = index, pep_Events = ev\<rparr> w of
        Inl (RpcError _ e) \<Rightarrow> Some (Inl (gl_Wrapf gl (Some e) ''GetProofForEvents''))
      | Inr proofs \<Rightarrow>
          if proofs = [] then None
          else
            (case MptProve gl index (proofs ! 0) receiptHash of
               Inl e \<Rightarrow> Some (Inl (gl_Wrapf gl (Some e) ''MPTProve Receipt''))
             | Inr serializedReceipt \<Rightarrow>
                 (case gl_TxResult gl serializedReceipt of
                    Inl e \<Rightarrow> Some (Inl (gl_Wrapf gl (Some e) ''Unmarshal Receipt''))
                  | Inr result \<Rightarrow>
                      (case prove_events gl proofs (txr_EventLogsHash result) 0 ev of
                         None \<Rightarrow> None
                       | Some (Inl err) \<Rightarrow> Some (Inl err)
                       | Some (Inr els) \<Rightarrow>
                           (case prove_receipts c gl w hash receiptHash indexes evs of
                              None \<Rightarrow> None
                            | Some (Inl err) \<Rightarrow> Some (Inl err)
                            | Some (Inr rest) \<Rightarrow> Some (Inr (els @ rest)))))))"

fun prove_filters ::
    "'w JsonRpc \<Rightarrow> Goloop \<Rightarrow> 'w \<Rightarrow> HexBytes \<Rightarrow> bytes \<Rightarrow> HexInt list list \<Rightarrow> HexInt list list list
       \<Rightarrow> (error option + EventLog list) go" where
  "prove_filters c gl w hash receiptHash [] evs = Some (Inr [])"
| "prove_filters c gl w hash receiptHash (ixs # ixss) evss =
     (if ixs = [] then prove_filters c gl w hash receiptHash ixss (tl evss)
      else
        (case evss of
           [] \<Rightarrow> None
         | evs # rest \<Rightarrow>
             (case prove_receipts c gl w hash receiptHash ixs evs of
                None \<Rightarrow> None
              | Some (Inl err) \<Rightarrow> Some (Inl err)
              | Some (Inr els) \<Rightarrow>
                  (case prove_filters c gl w hash receiptHash ixss rest of
                     None \<Rightarrow> None
                   | Some (Inl err) \<Rightarrow> Some (Inl err)
                   | Some (Inr others) \<Rightarrow> Some (Inr (els @ others))))))"

text \<open>
  One attempt at a request: the response it leaves and its error. The response is made before
  anything can fail, and its event logs are set only at the end. The error of the block header is
  wrapped as it stands in the code: it wraps \<open>request.err\<close>, which is nil there.
\<close>

definition handleBTPBlockRequest ::
    "'w JsonRpc \<Rightarrow> Goloop \<Rightarrow> 'w \<Rightarrow> btpBlockRequest \<Rightarrow> (btpBlockResponse \<times> error option) go" where
  "handleBTPBlockRequest c gl w request =
     (case HexBytes_Value (rq_hash request) of
        None \<Rightarrow> None
      | Some (Inl e) \<Rightarrow>
          Some (\<lparr>bp_Height = rq_height request, bp_Hash = None, bp_EventLogs = []\<rparr>,
                gl_Wrapf gl (Some e) ''invalid hash'')
      | Some (Inr h) \<Rightarrow>
          (let response = \<lparr>bp_Height = rq_height request, bp_Hash = h, bp_EventLogs = []\<rparr>
           in if length (rq_indexes request) > 0 \<and> length (rq_events request) > 0 then
                (case Client_GetBlockHeaderByHeight c (gl_BlockHeader gl) (of_int (rq_height request)) w of
                   Inl e \<Rightarrow> Some (response, gl_Wrapf gl None ''getBlockHeader'')
                 | Inr blockHeader \<Rightarrow>
                     (case gl_BlockHeaderResult gl (bh_Result blockHeader) of
                        Inl e \<Rightarrow> Some (response, gl_Wrapf gl (Some e) ''BlockHeaderResult.UnmarshalFromBytes'')
                      | Inr receiptHash \<Rightarrow>
                          (case prove_filters c gl w (rq_hash request) (bhr_ReceiptHash receiptHash)
                                  (rq_indexes request) (rq_events request) of
                             None \<Rightarrow> None
                           | Some (Inl err) \<Rightarrow> Some (response, err)
                           | Some (Inr eventlogs) \<Rightarrow> Some (response\<lparr>bp_EventLogs := eventlogs\<rparr>, None))))
              else Some (response, None)))"

text \<open>
  The life of a request on \<open>requestCh\<close>: an attempt with an error is repeated while retries are
  left, and gives nil after the last; \<open>ws n\<close> is the world the \<open>n\<close>-th attempt meets.
\<close>

fun request_rounds ::
    "'w JsonRpc \<Rightarrow> Goloop \<Rightarrow> (nat \<Rightarrow> 'w) \<Rightarrow> nat \<Rightarrow> btpBlockRequest \<Rightarrow> nat \<Rightarrow> btpBlockResponse option go" where
  "request_rounds c gl ws n request 0 =
     (case handleBTPBlockRequest c gl (ws n) request of
        None \<Rightarrow> None
      | Some (response, Some e) \<Rightarrow> Some None
      | Some (response, None) \<Rightarrow> Some (Some response))"
| "request_rounds c gl ws n request (Suc retry) =
     (case handleBTPBlockRequest c gl (ws n) request of
        None \<Rightarrow> None
      | Some (response, Some e) \<Rightarrow> request_rounds c gl ws (Suc n) request retry
      | Some (response, None) \<Rightarrow> Some (Some response))"

definition run_request ::
    "'w JsonRpc \<Rightarrow> Goloop \<Rightarrow> (nat \<Rightarrow> 'w) \<Rightarrow> btpBlockRequest \<Rightarrow> btpBlockResponse option go" where
  "run_request c gl ws request = request_rounds c gl ws 0 request (rq_retry request)"

subsection \<open>A batch of notifications\<close>

datatype batch = BatchOk "btpBlockRequest list" | BatchMissing | BatchError error

text \<open>The heights must continue \<open>p\<close>; \<open>p\<close> grows along the batch.\<close>

fun check_batch :: "int \<Rightarrow> BlockNotification list \<Rightarrow> batch" where
  "check_batch p [] = BatchOk []"
| "check_batch p (bn # bns) =
     (case HexInt_Value (bn_Height bn) of
        Inl e \<Rightarrow> BatchError e
      | Inr height \<Rightarrow>
          if height \<noteq> p then BatchMissing
          else
            (case check_batch (p + 1) bns of
               BatchOk rs \<Rightarrow>
                 BatchOk (\<lparr>rq_height = height, rq_hash = bn_Hash bn, rq_indexes = bn_Indexes bn,
                           rq_events = bn_Events bn, rq_retry = maxRetires\<rparr> # rs)
             | other \<Rightarrow> other))"

text \<open>The responses of a batch in the order they came back, nil ones included: sorted, and only
  those forwarded that stand where their height says.\<close>

definition forward :: "int \<Rightarrow> btpBlockResponse option list \<Rightarrow> btpBlockResponse list" where
  "forward p brs =
     (let sorted = sort_key bp_Height (map the (filter (\<lambda>r. r \<noteq> None) brs))
      in map snd (filter (\<lambda>(i, d). bp_Height d = p + int i) (enumerate 0 sorted)))"

subsection \<open>The state and its steps\<close>

record IconListener =
  il_processed :: int
  il_notifs :: "BlockNotification list"
  il_resps :: "btpBlockResponse list"
  il_reconnect :: bool
  il_sent :: "BlockInfo list"

definition icon_block :: "IconProviderConfig \<Rightarrow> btpBlockResponse \<Rightarrow> BlockInfo go" where
  "icon_block cfg br =
     (let height = of_int (bp_Height br - 1)
      in map_option (\<lambda>ms. \<lparr>bi_Height = height, bi_Messages = map Some ms\<rparr>)
           (parseMessagesFromEventlogs cfg height (bp_EventLogs br)))"

fun icon_blocks :: "IconProviderConfig \<Rightarrow> btpBlockResponse list \<Rightarrow> BlockInfo list go" where
  "icon_blocks cfg [] = Some []"
| "icon_blocks cfg (br # brs) =
     (case icon_block cfg br of
        None \<Rightarrow> None
      | Some b \<Rightarrow> (case icon_blocks cfg brs of None \<Rightarrow> None | Some bs \<Rightarrow> Some (b # bs)))"

text \<open>\<open>reconnect()\<close> of the main loop: ask for a new connection and drain both channels.\<close>

definition reconnect :: "IconListener \<Rightarrow> IconListener" where
  "reconnect s = s\<lparr>il_reconnect := True, il_notifs := [], il_resps := []\<rparr>"

datatype il_label = ILNotify BlockNotification | ILReconnect | ILDeliver | ILBatch nat | ILMissing nat | ILDrain

text \<open>
  \<open>ILNotify\<close>: the monitor passes a notification on. \<open>ILReconnect\<close>: the main loop starts a new
  monitor. \<open>ILDeliver\<close>: the main loop serves the relayer everything that was forwarded. \<open>ILBatch k\<close>:
  nothing else being ready, the main loop takes \<open>k\<close> notifications, and their responses come back
  in any order. \<open>ILMissing k\<close>: the \<open>k\<close>-th of them does not continue the heights. \<open>ILDrain\<close>: a
  monitor that failed runs \<open>reconnect()\<close> in its own goroutine, beside the main loop, and takes one
  response off the channel.
\<close>

inductive icon_step ::
    "'w JsonRpc \<Rightarrow> Goloop \<Rightarrow> IconProviderConfig \<Rightarrow> IconListener \<Rightarrow> il_label \<Rightarrow> IconListener \<Rightarrow> bool"
  for c gl cfg where
  step_notify: "length (il_notifs s) < 100 \<Longrightarrow>
    icon_step c gl cfg s (ILNotify v) (s\<lparr>il_notifs := il_notifs s @ [v]\<rparr>)"
| step_reconnect: "il_reconnect s \<Longrightarrow> icon_step c gl cfg s ILReconnect (s\<lparr>il_reconnect := False\<rparr>)"
| step_deliver: "il_resps s \<noteq> [] \<Longrightarrow> icon_blocks cfg (il_resps s) = Some bs \<Longrightarrow>
    icon_step c gl cfg s ILDeliver
      (s\<lparr>il_resps := [], il_sent := il_sent s @ bs, il_processed := il_processed s + int (length bs)\<rparr>)"
| step_batch: "il_resps s = [] \<Longrightarrow> \<not> il_reconnect s \<Longrightarrow> 0 < k \<Longrightarrow> k \<le> length (il_notifs s) \<Longrightarrow>
    check_batch (il_processed s) (take k (il_notifs s)) = BatchOk reqs \<Longrightarrow>
    \<forall>rq \<in> set reqs. \<exists>ws. run_request c gl ws rq = Some (outcome rq) \<Longrightarrow>
    mset brs = mset (map outcome reqs) \<Longrightarrow>
    icon_step c gl cfg s (ILBatch k) (s\<lparr>il_notifs := drop k (il_notifs s), il_resps := forward (il_processed s) brs\<rparr>)"
| step_missing: "il_resps s = [] \<Longrightarrow> \<not> il_reconnect s \<Longrightarrow> k \<le> length (il_notifs s) \<Longrightarrow>
    check_batch (il_processed s) (take k (il_notifs s)) = BatchMissing \<Longrightarrow>
    icon_step c gl cfg s (ILMissing k) (reconnect s)"
| step_drain: "il_resps s \<noteq> [] \<Longrightarrow>
    icon_step c gl cfg s ILDrain (s\<lparr>il_reconnect := True, il_resps := tl (il_resps s)\<rparr>)"

inductive icon_run ::
    "'w JsonRpc \<Rightarrow> Goloop \<Rightarrow> IconProviderConfig \<Rightarrow> IconListener \<Rightarrow> il_label list \<Rightarrow> IconListener \<Rightarrow> bool"
  for c gl cfg s where
  icon_nil: "icon_run c gl cfg s [] s"
| icon_cons: "icon_run c gl cfg s ls s1 \<Longrightarrow> icon_step c gl cfg s1 l s2 \<Longrightarrow> icon_run c gl cfg s (ls @ [l]) s2"

text \<open>\<open>Listener\<close> up to its loop.\<close>

definition icon_listener_start :: "'w JsonRpc \<Rightarrow> IconProviderConfig \<Rightarrow> 'w \<Rightarrow> u64 \<Rightarrow> error + IconListener" where
  "icon_listener_start c cfg w lastSavedHeight =
     (case Icon_StartFromHeight c cfg w lastSavedHeight of
        Inl e \<Rightarrow> Inl (ErrMsg ''failed to calculate start height'')
      | Inr h \<Rightarrow> Inr \<lparr>il_processed = sint h, il_notifs = [], il_resps = [], il_reconnect = True, il_sent = []\<rparr>)"

text \<open>The request for a new monitor, from the processed height.\<close>

definition icon_block_request :: "IconProviderConfig \<Rightarrow> IconListener \<Rightarrow> BlockRequest" where
  "icon_block_request cfg s =
     \<lparr>br_Height = NewHexInt (of_int (il_processed s)),
      br_EventFilters = GetMonitorEventFilters (ic_ContractAddress cfg) MonitorEventsList\<rparr>"

subsection \<open>Heights\<close>

inductive_cases icon_stepE: "icon_step c gl cfg s l s'"

lemma handle_height:
  "handleBTPBlockRequest c gl w rq = Some (r, err) \<Longrightarrow> bp_Height r = rq_height rq"
  by (auto simp: handleBTPBlockRequest_def Let_def split: option.splits sum.splits if_splits)

lemma request_rounds_height:
  "request_rounds c gl ws n rq retry = Some (Some r) \<Longrightarrow> bp_Height r = rq_height rq"
proof (induction retry arbitrary: n)
  case 0
  then show ?case
    by (auto split: option.splits dest: handle_height)
next
  case (Suc retry)
  then show ?case
    by (auto split: option.splits dest: handle_height)
qed

lemma check_batch_heights:
  "check_batch p bns = BatchOk reqs \<Longrightarrow> map rq_height reqs = map (\<lambda>i. p + int i) [0..<length bns]"
proof (induction bns arbitrary: p reqs)
  case (Cons bn bns)
  then obtain rs where rs: "check_batch (p + 1) bns = BatchOk rs"
    and reqs: "map rq_height reqs = p # map rq_height rs"
    by (auto split: sum.splits if_splits batch.splits)
  have "[0..<length (bn # bns)] = 0 # map Suc [0..<length bns]"
    by (simp add: map_Suc_upt upt_conv_Cons del: upt_Suc)
  then show ?case
    using Cons.IH [OF rs] reqs by (simp add: comp_def add.assoc del: upt_Suc)
qed simp

text \<open>The requests of a batch and their answers meet the interface of \<open>Batches\<close>.\<close>

interpretation icon_batch: request_batch rq_height bp_Height "\<lambda>rq r. \<exists>ws. run_request c gl ws rq = Some r" for c gl
  by unfold_locales (auto simp: run_request_def dest: request_rounds_height)

lemma forward_in_place: "forward p brs = in_place bp_Height p (answered brs)"
  by (simp add: forward_def in_place_def answered_def)

lemma batch_forward:
  assumes "check_batch p bns = BatchOk reqs"
    and "\<forall>rq \<in> set reqs. \<exists>ws. run_request c gl ws rq = Some (outcome rq)"
    and "mset brs = mset (map outcome reqs)"
  shows "map bp_Height (forward p brs) = map (\<lambda>i. p + int i) [0..<length (forward p brs)]"
proof -
  have h: "map rq_height reqs = map (\<lambda>i. p + int i) [0..<length bns]"
    by (rule check_batch_heights [OF assms(1)])
  then have "length reqs = length bns"
    using map_eq_imp_length_eq by fastforce
  with h show ?thesis
    by (intro icon_batch.forwarded_consecutive(1) [OF _ assms(2,3) forward_in_place]) simp
qed

lemma icon_blocks_heights:
  "icon_blocks cfg brs = Some bs \<Longrightarrow>
     length bs = length brs \<and> map bi_Height bs = map (\<lambda>r. of_int (bp_Height r - 1)) brs"
  by (induction brs arbitrary: bs) (auto simp: icon_block_def Let_def split: option.splits)

definition il_inv :: "int \<Rightarrow> IconListener \<Rightarrow> bool" where
  "il_inv p0 s \<longleftrightarrow>
     map bp_Height (il_resps s) = map (\<lambda>i. il_processed s + int i) [0..<length (il_resps s)] \<and>
     il_processed s = p0 + int (length (il_sent s)) \<and>
     map bi_Height (il_sent s) = map (\<lambda>i. of_int (p0 - 1 + int i)) [0..<length (il_sent s)]"

lemma icon_step_inv:
  assumes "icon_step c gl cfg s l s'" and "l \<noteq> ILDrain" and "il_inv p0 s"
  shows "il_inv p0 s'"
  using assms(1)
proof (cases rule: icon_step.cases)
  case (step_deliver bs)
  have bs: "length bs = length (il_resps s)" "map bi_Height bs = map (\<lambda>r. of_int (bp_Height r - 1)) (il_resps s)"
    using icon_blocks_heights [OF step_deliver(4)] by simp_all
  have "map bi_Height bs = map (\<lambda>h. of_int (h - 1)) (map bp_Height (il_resps s))"
    unfolding bs(2) by simp
  also have "\<dots> = map (\<lambda>i. of_int (p0 - 1 + int i)) [length (il_sent s)..<length (il_sent s) + length bs]"
  proof -
    have "[length (il_sent s)..<length (il_sent s) + length bs] = map (\<lambda>i. i + length (il_sent s)) [0..<length bs]"
      by (simp add: map_add_upt add.commute)
    then show ?thesis
      using assms(3) unfolding il_inv_def by (simp add: bs(1) comp_def algebra_simps)
  qed
  finally have "map bi_Height (il_sent s @ bs)
      = map (\<lambda>i. of_int (p0 - 1 + int i)) [0..<length (il_sent s) + length bs]"
    using assms(3) upt_add_eq_append [of 0 "length (il_sent s)" "length bs"] by (simp add: il_inv_def)
  then show ?thesis
    using assms(3) by (simp add: step_deliver(2) il_inv_def)
next
  case (step_batch k reqs outcome brs)
  from batch_forward [OF step_batch(7-9)] show ?thesis
    using assms(3) step_batch(2) unfolding il_inv_def by simp
qed (use assms in \<open>simp_all add: il_inv_def reconnect_def\<close>)

lemma icon_run_inv:
  "icon_run c gl cfg s ls s' \<Longrightarrow> ILDrain \<notin> set ls \<Longrightarrow> il_inv p0 s \<Longrightarrow> il_inv p0 s'"
  by (induction rule: icon_run.induct) (auto intro: icon_step_inv)

subsection \<open>Properties\<close>


text \<open>A batch is as good as one request after the other: when a request is answered the same whenever it
  is served, the responses forwarded are those a sequential reader gets up to the first request
  that fails.\<close>

lemma icon_batch_in_order:
  assumes "icon_step c gl cfg s (ILBatch k) s'"
    and "check_batch (il_processed s) (take k (il_notifs s)) = BatchOk reqs"
    and "\<forall>rq \<in> set reqs. \<forall>ws. run_request c gl ws rq = Some (res rq)"
  shows "il_resps s' = map (the \<circ> res) (takeWhile (\<lambda>rq. res rq \<noteq> None) reqs)"
proof (rule icon_stepE [OF assms(1)], simp_all, goal_cases)
  case (1 k' reqs' outcome brs)
  have reqs: "reqs' = reqs"
    using 1 assms(2) by simp
  have same: "\<forall>rq \<in> set reqs. outcome rq = res rq"
    using 1 assms(3) reqs by fastforce
  have h: "map rq_height reqs = map (\<lambda>i. il_processed s + int i) [0..<length (take k (il_notifs s))]"
    by (rule check_batch_heights [OF assms(2)])
  then have "length reqs = length (take k (il_notifs s))"
    using map_eq_imp_length_eq by fastforce
  with h have "map rq_height reqs = map (\<lambda>i. il_processed s + int i) [0..<length reqs]"
    by simp
  moreover have "image_mset outcome (mset reqs) = image_mset res (mset reqs)"
    using same by (intro image_mset_cong) simp
  then have "mset brs = mset (map res reqs)"
    using 1(9) reqs by simp
  ultimately have "in_place bp_Height (il_processed s) (answered brs) = map (the \<circ> res) (takeWhile (\<lambda>rq. res rq \<noteq> None) reqs)"
    using assms(3) by (intro icon_batch.forwarded_in_order [where c = c and gl = gl]) blast+
  with 1 show ?case
    by (simp add: forward_in_place)
qed

definition sample_icon_cfg :: IconProviderConfig where
  "sample_icon_cfg =
     \<lparr>ic_ChainName = ''icon'', ic_RPCUrl = ''http://x'', ic_KeyStore = [], ic_Password = [], ic_StartHeight = 0,
      ic_ContractAddress = ''cx1'', ic_NetworkID = 2, ic_NID = ''0x2.icon''\<rparr>"

definition sample_goloop :: Goloop where
  "sample_goloop =
     \<lparr>gl_RLPInt = (\<lambda>i. Inr []), gl_Prove = (\<lambda>_ _ _. Inr []), gl_BlockHeader = (\<lambda>b. Inl ErrDecode),
      gl_BlockHeaderResult = (\<lambda>b. Inl ErrDecode), gl_TxResult = (\<lambda>b. Inl ErrDecode),
      gl_EventLog = (\<lambda>b. Inl ErrDecode), gl_Wrapf = (\<lambda>e m. map_option (\<lambda>_. ErrMsg m) e)\<rparr>"

definition sample_response :: "int \<Rightarrow> btpBlockResponse" where
  "sample_response h = \<lparr>bp_Height = h, bp_Hash = Some [], bp_EventLogs = []\<rparr>"

definition sample_notification :: BlockNotification where
  "sample_notification = \<lparr>bn_Hash = ''0x'', bn_Height = ''0x7'', bn_Indexes = [], bn_Events = []\<rparr>"

lemma sample_listener_run:
  "\<exists>s. icon_run sample_rpc sample_goloop sample_icon_cfg
      \<lparr>il_processed = 7, il_notifs = [], il_resps = [], il_reconnect = True, il_sent = []\<rparr>
      ([] @ [ILReconnect] @ [ILNotify sample_notification] @ [ILBatch 1] @ [ILDeliver]) s \<and>
     map bi_Height (il_sent s) = [6]"
proof -
  let ?run = "icon_run sample_rpc sample_goloop sample_icon_cfg
      \<lparr>il_processed = 7, il_notifs = [], il_resps = [], il_reconnect = True, il_sent = []\<rparr>"
  let ?step = "icon_step sample_rpc sample_goloop sample_icon_cfg"
  let ?s1 = "\<lparr>il_processed = 7, il_notifs = [], il_resps = [], il_reconnect = False, il_sent = []\<rparr>"
  let ?rq = "\<lparr>rq_height = 7, rq_hash = ''0x'', rq_indexes = [], rq_events = [], rq_retry = maxRetires\<rparr>"
  let ?s0 = "\<lparr>il_processed = 7, il_notifs = [], il_resps = [], il_reconnect = True, il_sent = []\<rparr>"
  have "?step ?s0 ILReconnect ?s1"
    using step_reconnect [of ?s0 sample_rpc sample_goloop sample_icon_cfg] by simp
  then have s1: "?run ([] @ [ILReconnect]) ?s1"
    by (rule icon_cons [OF icon_nil])
  have s2: "?run (([] @ [ILReconnect]) @ [ILNotify sample_notification]) (?s1\<lparr>il_notifs := [sample_notification]\<rparr>)"
    using icon_cons [OF s1 step_notify [of ?s1]] by simp
  have seven: "HexInt_Value ''0x7'' = Inr 7"
    by (simp add: HexInt_Value_def strip_0x_def strings_HasPrefix_def parse_int_def parse_uint_def digit_val_def)
  have batch: "check_batch 7 [sample_notification] = BatchOk [?rq]"
    by (simp add: sample_notification_def seven)
  have outcome: "run_request sample_rpc sample_goloop ws ?rq = Some (Some (sample_response 7))" for ws
    by (simp add: run_request_def maxRetires_def handleBTPBlockRequest_def HexBytes_Value_def sample_response_def
        numeral_eq_Suc)
  have "?step (?s1\<lparr>il_notifs := [sample_notification]\<rparr>) (ILBatch 1)
      (?s1\<lparr>il_notifs := drop 1 [sample_notification], il_resps := forward 7 [Some (sample_response 7)]\<rparr>)"
    using step_batch [where s = "?s1\<lparr>il_notifs := [sample_notification]\<rparr>" and k = 1 and reqs = "[?rq]"
        and outcome = "\<lambda>_. Some (sample_response 7)" and brs = "[Some (sample_response 7)]"
        and c = sample_rpc and gl = sample_goloop and cfg = sample_icon_cfg]
      batch outcome by simp
  moreover have "forward 7 [Some (sample_response 7)] = [sample_response 7]"
    by (simp add: forward_def sample_response_def)
  ultimately have s3: "?run ((([] @ [ILReconnect]) @ [ILNotify sample_notification]) @ [ILBatch 1]) (?s1\<lparr>il_resps := [sample_response 7]\<rparr>)"
    using icon_cons [OF s2] by fastforce
  have "icon_blocks sample_icon_cfg [sample_response 7] = Some [\<lparr>bi_Height = 6, bi_Messages = []\<rparr>]"
    by (simp add: icon_block_def sample_response_def)
  then have "?step (?s1\<lparr>il_resps := [sample_response 7]\<rparr>) ILDeliver
      (?s1\<lparr>il_sent := [\<lparr>bi_Height = 6, bi_Messages = []\<rparr>], il_processed := 8\<rparr>)"
    using step_deliver [of "?s1\<lparr>il_resps := [sample_response 7]\<rparr>" sample_icon_cfg] by fastforce
  from icon_cons [OF s3 this] show ?thesis
    by (intro exI [of _ "?s1\<lparr>il_sent := [\<lparr>bi_Height = 6, bi_Messages = []\<rparr>], il_processed := 8\<rparr>"]) simp
qed


text \<open>C23: A monitor that failed drains the responses in its own goroutine. If it takes the first of two
  responses while the main loop serves them, the relayer is never sent the block of the first,
  the block of the second is sent in its place, and the processed height then asks for the
  second block again.\<close>

theorem concurrent_drain_skips_block:
  assumes "il_resps s = [ra, rb]" and "bp_Height ra = il_processed s" and "bp_Height rb = il_processed s + 1"
    and "icon_block cfg rb = Some b"
  shows "\<exists>s'. icon_run c gl cfg s [ILDrain, ILDeliver] s' \<and> il_sent s' = il_sent s @ [b] \<and>
     il_processed s' = bp_Height rb \<and> bi_Height b = of_int (bp_Height rb - 1)"
proof -
  let ?s1 = "s\<lparr>il_reconnect := True, il_resps := [rb]\<rparr>"
  have "icon_step c gl cfg s ILDrain ?s1"
    using step_drain [of s c gl cfg] assms(1) by simp
  from icon_cons [OF icon_nil this] have s1: "icon_run c gl cfg s ([] @ [ILDrain]) ?s1" .
  have blocks: "icon_blocks cfg (il_resps ?s1) = Some [b]"
    using assms(4) by simp
  let ?s2 = "?s1\<lparr>il_resps := [], il_sent := il_sent ?s1 @ [b], il_processed := il_processed ?s1 + int (length [b])\<rparr>"
  have "icon_run c gl cfg s (([] @ [ILDrain]) @ [ILDeliver]) ?s2"
    by (rule icon_cons [OF s1 step_deliver [OF _ blocks]]) simp
  moreover have "il_sent ?s2 = il_sent s @ [b]" "il_processed ?s2 = il_processed s + 1"
    by simp_all
  moreover have "bi_Height b = of_int (bp_Height rb - 1)"
    using assms(4) by (auto simp: icon_block_def Let_def)
  ultimately show ?thesis
    using assms(3) by (intro exI [of _ ?s2]) (simp only: append.simps simp_thms)
qed

theorem concurrent_drain_skips_block_witness:
  "\<exists>s'. icon_run sample_rpc sample_goloop sample_icon_cfg
      \<lparr>il_processed = 7, il_notifs = [], il_resps = [sample_response 7, sample_response 8], il_reconnect = False, il_sent = []\<rparr>
      [ILDrain, ILDeliver] s' \<and> map bi_Height (il_sent s') = [7] \<and> il_processed s' = 8"
proof -
  have "icon_block sample_icon_cfg (sample_response 8) = Some \<lparr>bi_Height = 7, bi_Messages = []\<rparr>"
    by (simp add: icon_block_def sample_response_def)
  from concurrent_drain_skips_block [where s = "\<lparr>il_processed = 7, il_notifs = [],
      il_resps = [sample_response 7, sample_response 8], il_reconnect = False, il_sent = []\<rparr>"
      and c = sample_rpc and gl = sample_goloop, OF _ _ _ this]
  show ?thesis
    by (auto simp: sample_response_def)
qed

text \<open>C27: A block whose header cannot be fetched loses its events: the error that is wrapped is the nil
  error of the request, so the attempt counts as a success, nothing is retried, and the block is
  answered with its height and no event log.\<close>

theorem failed_header_drops_events:
  assumes "Wrapf_documented gl" and "rq_indexes rq \<noteq> []" and "rq_events rq \<noteq> []"
    and "HexBytes_Value (rq_hash rq) = Some (Inr h)"
    and "Client_GetBlockHeaderByHeight c (gl_BlockHeader gl) (of_int (rq_height rq)) (ws 0) = Inl e"
  shows "run_request c gl ws rq = Some (Some \<lparr>bp_Height = rq_height rq, bp_Hash = h, bp_EventLogs = []\<rparr>)"
proof -
  have "handleBTPBlockRequest c gl (ws 0) rq
      = Some (\<lparr>bp_Height = rq_height rq, bp_Hash = h, bp_EventLogs = []\<rparr>, None)"
    using assms by (simp add: handleBTPBlockRequest_def Wrapf_documented_def)
  then show ?thesis
    by (cases "rq_retry rq") (simp_all add: run_request_def)
qed

theorem failed_header_drops_events_witness:
  "run_request sample_rpc sample_goloop (\<lambda>_. ())
     \<lparr>rq_height = 7, rq_hash = ''0x'', rq_indexes = [[''0x0'']], rq_events = [[[''0x0'']]], rq_retry = 5\<rparr>
   = Some (Some \<lparr>bp_Height = 7, bp_Hash = Some [], bp_EventLogs = []\<rparr>)"
proof -
  have "Wrapf_documented sample_goloop"
    by (simp add: Wrapf_documented_def sample_goloop_def)
  from failed_header_drops_events [OF this, where c = sample_rpc and ws = "\<lambda>_. ()" and h = "Some []"
      and rq = "\<lparr>rq_height = 7, rq_hash = ''0x'', rq_indexes = [[''0x0'']], rq_events = [[[''0x0'']]], rq_retry = 5\<rparr>"]
  show ?thesis
    by (simp add: HexBytes_Value_def Client_GetBlockHeaderByHeight_def Client_GetBlockHeaderBytesByHeight_def
        sample_rpc_def sample_goloop_def)
qed

end
