(* ===== verification/IconConn.thy ===== *)
theory IconConn
  imports IconClient
begin

text \<open>
  \<^verbatim>\<open>relayer/chains/icon/client.go\<close>, the rest: making a client, the address of the debug endpoint,
  and closing connections. The parser and printer of URLs are parameters.
\<close>

subsection \<open>The debug endpoint\<close>

text \<open>The loop over the parts of the path stops at the first \<open>api\<close>, changed or not.\<close>

fun debug_parts :: "string list \<Rightarrow> string list option" where
  "debug_parts [] = None"
| "debug_parts (v # ps) =
     (if v = ''api'' then
        (case ps of
           p # ps' \<Rightarrow> if p = ''v3'' then Some (v # ''v3d'' # ps') else None
         | [] \<Rightarrow> None)
      else map_option ((#) v) (debug_parts ps))"

record 'u url_lib =
  url_Parse :: "string \<Rightarrow> error + 'u"
  url_Path :: "'u \<Rightarrow> string"
  url_SetPath :: "string \<Rightarrow> 'u \<Rightarrow> 'u"
  url_String :: "'u \<Rightarrow> string"

definition guessDebugEndpoint :: "'u url_lib \<Rightarrow> string \<Rightarrow> string" where
  "guessDebugEndpoint U endpoint =
     (case url_Parse U endpoint of
        Inl e \<Rightarrow> []
      | Inr uo \<Rightarrow>
          (case debug_parts (split_at CHR ''/'' (url_Path U uo)) of
             None \<Rightarrow> []
           | Some ps \<Rightarrow> url_String U (url_SetPath U (strings_Join ps ''/'') uo)))"

subsection \<open>The client\<close>

text \<open>
  \<open>CustomHeader\<close> belongs to goloop's client, which makes it: the headers are a map, here the second
  part of the result. The debug option is set in all of them.
\<close>

definition IconOptionsDebug :: string where
  "IconOptionsDebug = ''debug''"

definition HeaderKeyIconOptions :: string where
  "HeaderKeyIconOptions = ''Icon-Options''"

definition NewClient :: "'u url_lib \<Rightarrow> (string, string) gomap option \<Rightarrow> string \<Rightarrow> (Client \<times> (string, string) gomap) go" where
  "NewClient U CustomHeader uri =
     (let c = \<lparr>cl_Endpoint = uri, cl_DebugEndPoint = guessDebugEndpoint U uri, cl_conns = []\<rparr>
      in case IconOptions_SetBool (Some []) IconOptionsDebug True of
           None \<Rightarrow> None
         | Some opts \<Rightarrow>
             map_option (\<lambda>h. (c, map_set HeaderKeyIconOptions (IconOptions_ToHeaderValue opts) h)) CustomHeader)"

subsection \<open>Closing\<close>

text \<open>
  What is sent to a connection is recorded: a close frame, then the closing itself, each attempted
  whatever came of the one before; errors are logged only.
\<close>

datatype conn_op = WriteClose | CloseConn

definition Client_wsClose :: "(string \<Rightarrow> conn_op \<Rightarrow> error option) \<Rightarrow> string \<Rightarrow> Client \<Rightarrow> (string \<times> conn_op \<times> error option) list \<times> Client" where
  "Client_wsClose io la c =
     ([(la, WriteClose, io la WriteClose), (la, CloseConn, io la CloseConn)], Client_removeWsConn la c)"

definition Client_CloseMonitor :: "(string \<Rightarrow> conn_op \<Rightarrow> error option) \<Rightarrow> string \<Rightarrow> Client \<Rightarrow> (string \<times> conn_op \<times> error option) list \<times> Client" where
  "Client_CloseMonitor io la c = Client_wsClose io la c"

text \<open>\<open>CloseAllMonitor\<close> with what it sends, over the connections in an order of the map.\<close>

fun closeAll :: "(string \<Rightarrow> conn_op \<Rightarrow> error option) \<Rightarrow> string list \<Rightarrow> Client \<Rightarrow> (string \<times> conn_op \<times> error option) list \<times> Client" where
  "closeAll io [] c = ([], c)"
| "closeAll io (la # las) c =
     (case Client_wsClose io la c of
        (ops, c') \<Rightarrow> (case closeAll io las c' of (ops', c'') \<Rightarrow> (ops @ ops', c'')))"

lemma closeAll_client: "snd (closeAll io las c) = Client_CloseAllMonitor las c"
proof (induction las arbitrary: c)
  case (Cons la las)
  from Cons [of "Client_removeWsConn la c"] show ?case
    by (auto simp: Client_wsClose_def split: prod.split)
qed simp

text \<open>Each connection is sent the close frame and then closed, in the order taken.\<close>

lemma closeAll_ops:
  "map (\<lambda>(la, p, e). (la, p)) (fst (closeAll io las c)) = concat (map (\<lambda>la. [(la, WriteClose), (la, CloseConn)]) las)"
proof (induction las arbitrary: c)
  case (Cons la las)
  from Cons [of "Client_removeWsConn la c"] show ?case
    by (auto simp: Client_wsClose_def split: prod.split)
qed simp

text \<open>A connection that was closed is unknown, which ends its reading loop; the others are kept.\<close>

lemma removed_conns: "map_get (cl_conns (Client_removeWsConn la' c)) la = (if la = la' then None else map_get (cl_conns c) la)"
  by (cases "map_get (cl_conns c) la'") (auto simp: Client_removeWsConn_def)

lemma closed_unknown:
  "map_get (cl_conns (Client_CloseAllMonitor las c)) la = (if la \<in> set las then None else map_get (cl_conns c) la)"
proof (induction las arbitrary: c)
  case (Cons la' las)
  from Cons [of "Client_removeWsConn la' c"] show ?case
    by (auto simp: removed_conns)
qed simp

subsection \<open>What the guess is\<close>

lemma debug_parts_sound:
  "debug_parts ps = Some ps' \<Longrightarrow>
     \<exists>as bs. ps = as @ [''api'', ''v3''] @ bs \<and> ''api'' \<notin> set as \<and> ps' = as @ [''api'', ''v3d''] @ bs"
proof (induction ps arbitrary: ps')
  case (Cons v ps)
  show ?case
  proof (cases "v = ''api''")
    case True
    with Cons.prems obtain bs where "v # ps = [] @ [''api'', ''v3''] @ bs" "ps' = [] @ [''api'', ''v3d''] @ bs"
      by (auto split: list.splits if_splits)
    then show ?thesis
      by fastforce
  next
    case False
    with Cons.prems obtain qs where "debug_parts ps = Some qs" and ps': "ps' = v # qs"
      by auto
    from Cons.IH [OF this(1)] obtain as bs
      where "ps = as @ [''api'', ''v3''] @ bs" "''api'' \<notin> set as" "qs = as @ [''api'', ''v3d''] @ bs"
      by blast
    with False ps' have "v # ps = (v # as) @ [''api'', ''v3''] @ bs \<and> ''api'' \<notin> set (v # as) \<and> ps' = (v # as) @ [''api'', ''v3d''] @ bs"
      by simp
    then show ?thesis
      by blast
  qed
qed simp

lemma debug_parts_complete:
  "''api'' \<notin> set as \<Longrightarrow> debug_parts (as @ [''api'', ''v3''] @ bs) = Some (as @ [''api'', ''v3d''] @ bs)"
  by (induction as) auto

lemma Join_split_at: "strings_Join (split_at c s) [c] = s"
proof (induction s)
  case (Cons x s)
  obtain p ps where "split_at c s = p # ps"
    using split_at_neq_Nil by (cases "split_at c s") auto
  with Cons show ?case
    by (cases ps) auto
qed simp

end
