(* ===== verification/EvmClient.thy ===== *)
theory EvmClient
  imports RelayTypes
begin

text \<open>
  \<^verbatim>\<open>relayer/chains/evm/client.go\<close> and \<^verbatim>\<open>relayer/chains/evm/types\<close>: the client of an EVM chain.
  go-ethereum is a parameter: the pure functions of the library are the record \<open>Geth\<close>, a connection
  to a node is \<open>EthRpc\<close>; the bindings of the contract are the record \<open>Abi\<close>, which the generated code
  provides; each is a record of the methods the code calls. Hashes and addresses are byte strings, a
  \<open>big.Int\<close> is an integer.
\<close>

subsection \<open>Data of the library\<close>

record EthHeader =
  hd_Number :: int
  hd_GasUsed :: u64
  hd_Hash :: bytes

record EthLog =
  lg_Topics :: "bytes list"
  lg_Data :: bytes
  lg_BlockNumber :: u64

record EthReceipt =
  er_Status :: u64
  er_BlockNumber :: int
  er_TxHash :: bytes

record EthTx =
  etx_Hash :: bytes
  etx_GasPrice :: int

record FilterQuery =
  fq_FromBlock :: "int option"
  fq_ToBlock :: "int option"
  fq_Addresses :: "bytes list"
  fq_Topics :: "bytes list list"

record AbiMessage =
  am_TargetNetwork :: string
  am_Sn :: int
  am_Msg :: bytes

record TransactOpts =
  txo_From :: bytes
  txo_Nonce :: "int option"
  txo_GasPrice :: "int option"
  txo_GasLimit :: u64

record EvmBlock =
  eb_Transactions :: "string list"
  eb_GasUsed :: string

text \<open>\<open>Wrapf\<close> and \<open>Error\<close> are those of \<open>pkg/errors\<close> and of the error values.\<close>

record Geth =
  g_Keccak256Hash :: "string \<Rightarrow> bytes"
  g_HexToAddress :: "string \<Rightarrow> bytes"
  g_HexToHash :: "string \<Rightarrow> bytes"
  g_IsHexAddress :: "string \<Rightarrow> bool"
  g_HashString :: "bytes \<Rightarrow> string"
  g_NotFound :: error
  g_Transactor :: "bytes \<Rightarrow> int \<Rightarrow> error + TransactOpts"
  g_HexToECDSA :: "string \<Rightarrow> error + bytes"
  g_PubkeyToAddress :: "bytes \<Rightarrow> bytes"
  g_NewTransaction :: "u64 \<Rightarrow> bytes \<Rightarrow> int \<Rightarrow> u64 \<Rightarrow> int \<Rightarrow> bytes \<Rightarrow> EthTx"
  g_SignTx :: "EthTx \<Rightarrow> int \<Rightarrow> bytes \<Rightarrow> error + EthTx"
  g_Wrapf :: "error option \<Rightarrow> string \<Rightarrow> error option"
  g_Error :: "error \<Rightarrow> string"

record 'w EthRpc =
  eth_BlockNumber :: "'w \<Rightarrow> error + u64"
  eth_ChainID :: "'w \<Rightarrow> error + int"
  eth_BalanceAt :: "bytes \<Rightarrow> int option \<Rightarrow> 'w \<Rightarrow> error + int"
  eth_HeaderByNumber :: "int option \<Rightarrow> 'w \<Rightarrow> error + EthHeader"
  eth_FilterLogs :: "FilterQuery \<Rightarrow> 'w \<Rightarrow> error + EthLog list"
  eth_SuggestGasPrice :: "'w \<Rightarrow> error + int"
  eth_NonceAt :: "bytes \<Rightarrow> int option \<Rightarrow> 'w \<Rightarrow> error + u64"
  eth_TransactionByHash :: "bytes \<Rightarrow> 'w \<Rightarrow> error + (EthTx \<times> bool)"
  eth_CallContract :: "bytes \<Rightarrow> int option \<Rightarrow> 'w \<Rightarrow> error + bytes"
  eth_TransactionReceipt :: "bytes \<Rightarrow> 'w \<Rightarrow> error + EthReceipt"
  eth_TransactionCount :: "bytes \<Rightarrow> 'w \<Rightarrow> error + nat"
  eth_TransactionInBlock :: "bytes \<Rightarrow> nat \<Rightarrow> 'w \<Rightarrow> error + EthTx"
  eth_SendTransaction :: "EthTx \<Rightarrow> 'w \<Rightarrow> error option \<times> 'w"
  rpc_getBlockByHash :: "bytes \<Rightarrow> 'w \<Rightarrow> error + EvmBlock"

record 'w Abi =
  abi_ParseMessage :: "EthLog \<Rightarrow> error + AbiMessage"
  abi_SendMessage :: "TransactOpts \<Rightarrow> string \<Rightarrow> string \<Rightarrow> int \<Rightarrow> bytes option \<Rightarrow> 'w \<Rightarrow> (error + EthTx) \<times> 'w"
  abi_RecvMessage :: "TransactOpts \<Rightarrow> string \<Rightarrow> int \<Rightarrow> bytes option \<Rightarrow> 'w \<Rightarrow> (error + EthTx) \<times> 'w"
  abi_GetReceipt :: "string \<Rightarrow> int \<Rightarrow> 'w \<Rightarrow> error + bool"

subsection \<open>The client\<close>

record 'w EClient =
  cl_eth :: "'w EthRpc"
  cl_EVMChainID :: int
  cl_bridgeContract :: "'w Abi"

definition newClient ::
    "(string \<Rightarrow> error + 'w EthRpc) \<Rightarrow> (bytes \<Rightarrow> 'w EthRpc \<Rightarrow> error + 'w Abi) \<Rightarrow> Geth
       \<Rightarrow> string \<Rightarrow> string \<Rightarrow> 'w \<Rightarrow> error + 'w EClient" where
  "newClient dial newAbi g url contractAddress w =
     (case dial url of
        Inl e \<Rightarrow> Inl e
      | Inr cleth \<Rightarrow>
          (case newAbi (g_HexToAddress g contractAddress) cleth of
             Inl e \<Rightarrow> Inl (ErrMsg ''error occured when creating eth client'')
           | Inr bridge \<Rightarrow>
               (case eth_ChainID cleth w of
                  Inl e \<Rightarrow> Inl e
                | Inr evmChainId \<Rightarrow>
                    Inr \<lparr>cl_eth = cleth, cl_EVMChainID = evmChainId, cl_bridgeContract = bridge\<rparr>)))"

definition EClient_NonceAt :: "'w EClient \<Rightarrow> bytes \<Rightarrow> int option \<Rightarrow> 'w \<Rightarrow> error + u64" where
  "EClient_NonceAt cl = eth_NonceAt (cl_eth cl)"

definition EClient_ParseMessage :: "'w EClient \<Rightarrow> EthLog \<Rightarrow> error + AbiMessage" where
  "EClient_ParseMessage cl = abi_ParseMessage (cl_bridgeContract cl)"

definition EClient_TransactionCount :: "'w EClient \<Rightarrow> bytes \<Rightarrow> 'w \<Rightarrow> error + nat" where
  "EClient_TransactionCount cl = eth_TransactionCount (cl_eth cl)"

definition EClient_TransactionInBlock :: "'w EClient \<Rightarrow> bytes \<Rightarrow> nat \<Rightarrow> 'w \<Rightarrow> error + EthTx" where
  "EClient_TransactionInBlock cl = eth_TransactionInBlock (cl_eth cl)"

definition EClient_TransactionByHash :: "'w EClient \<Rightarrow> bytes \<Rightarrow> 'w \<Rightarrow> error + (EthTx \<times> bool)" where
  "EClient_TransactionByHash cl = eth_TransactionByHash (cl_eth cl)"

definition EClient_TransactionReceipt :: "'w EClient \<Rightarrow> bytes \<Rightarrow> 'w \<Rightarrow> error + EthReceipt" where
  "EClient_TransactionReceipt cl = eth_TransactionReceipt (cl_eth cl)"

definition EClient_CallContract :: "'w EClient \<Rightarrow> bytes \<Rightarrow> int option \<Rightarrow> 'w \<Rightarrow> error + bytes" where
  "EClient_CallContract cl = eth_CallContract (cl_eth cl)"

definition EClient_GetBalance :: "'w EClient \<Rightarrow> Geth \<Rightarrow> string \<Rightarrow> 'w \<Rightarrow> error + int" where
  "EClient_GetBalance cl g hexAddr w =
     (if g_IsHexAddress g hexAddr then eth_BalanceAt (cl_eth cl) (g_HexToAddress g hexAddr) None w
      else Inl (ErrMsg ''invalid hex address''))"

definition EClient_FilterLogs :: "'w EClient \<Rightarrow> FilterQuery \<Rightarrow> 'w \<Rightarrow> error + EthLog list" where
  "EClient_FilterLogs cl = eth_FilterLogs (cl_eth cl)"

definition EClient_GetBlockNumber :: "'w EClient \<Rightarrow> 'w \<Rightarrow> error + u64" where
  "EClient_GetBlockNumber cl w = eth_BlockNumber (cl_eth cl) w"

definition EClient_SuggestGasPrice :: "'w EClient \<Rightarrow> 'w \<Rightarrow> error + int" where
  "EClient_SuggestGasPrice cl = eth_SuggestGasPrice (cl_eth cl)"

definition EClient_GetBlockByHash :: "'w EClient \<Rightarrow> bytes \<Rightarrow> 'w \<Rightarrow> error + EvmBlock" where
  "EClient_GetBlockByHash cl hash w = rpc_getBlockByHash (cl_eth cl) hash w"

definition EClient_GetHeaderByHeight :: "'w EClient \<Rightarrow> int option \<Rightarrow> 'w \<Rightarrow> error + EthHeader" where
  "EClient_GetHeaderByHeight cl height w = eth_HeaderByNumber (cl_eth cl) height w"

definition EClient_GetChainID :: "'w EClient \<Rightarrow> int" where
  "EClient_GetChainID cl = cl_EVMChainID cl"

definition EClient_SendMessage ::
    "'w EClient \<Rightarrow> TransactOpts \<Rightarrow> string \<Rightarrow> string \<Rightarrow> int \<Rightarrow> bytes option \<Rightarrow> 'w \<Rightarrow> (error + EthTx) \<times> 'w" where
  "EClient_SendMessage cl = abi_SendMessage (cl_bridgeContract cl)"

definition EClient_ReceiveMessage ::
    "'w EClient \<Rightarrow> TransactOpts \<Rightarrow> string \<Rightarrow> int \<Rightarrow> bytes option \<Rightarrow> 'w \<Rightarrow> (error + EthTx) \<times> 'w" where
  "EClient_ReceiveMessage cl = abi_RecvMessage (cl_bridgeContract cl)"

definition EClient_SendTransaction :: "'w EClient \<Rightarrow> EthTx \<Rightarrow> 'w \<Rightarrow> error option \<times> 'w" where
  "EClient_SendTransaction cl = eth_SendTransaction (cl_eth cl)"

definition EClient_MessageReceived :: "'w EClient \<Rightarrow> string \<Rightarrow> int \<Rightarrow> 'w \<Rightarrow> error + bool" where
  "EClient_MessageReceived cl = abi_GetReceipt (cl_bridgeContract cl)"

subsection \<open>The receipts of a block\<close>

text \<open>
  One transaction of \<open>GetBlockReceipts\<close>, with the outcomes its attempts meet. The goroutine
  stores the error in the variable of the enclosing function and not in \<open>q.err\<close>, so a failed
  attempt leaves the request as it was at first, and it is started again without a limit. \<open>None\<close>
  is a loop that does not end.
\<close>

partial_function (option) fetch_receipt :: "(nat \<Rightarrow> error + EthReceipt) \<Rightarrow> nat \<Rightarrow> EthReceipt option" where
  "fetch_receipt outs i = (case outs i of Inr r \<Rightarrow> Some r | Inl e \<Rightarrow> fetch_receipt outs (i + 1))"

fun fetch_receipts :: "(string \<Rightarrow> nat \<Rightarrow> error + EthReceipt) \<Rightarrow> string list \<Rightarrow> EthReceipt list option" where
  "fetch_receipts outs [] = Some []"
| "fetch_receipts outs (txh # txhs) =
     (case fetch_receipt (outs txh) 0 of
        None \<Rightarrow> None
      | Some r \<Rightarrow> (case fetch_receipts outs txhs of None \<Rightarrow> None | Some rs \<Rightarrow> Some (r # rs)))"

text \<open>The channel is closed when the map has as many entries as there were requests, which with a
  hash that occurs twice it never has.\<close>

definition EClient_GetBlockReceipts ::
    "'w EClient \<Rightarrow> bytes \<Rightarrow> (string \<Rightarrow> nat \<Rightarrow> error + EthReceipt) \<Rightarrow> 'w \<Rightarrow> (error + EthReceipt list) option" where
  "EClient_GetBlockReceipts cl hash outs w =
     (case EClient_GetBlockByHash cl hash w of
        Inl e \<Rightarrow> Some (Inl e)
      | Inr hb \<Rightarrow>
          if eb_GasUsed hb = ''0x0'' \<or> eb_Transactions hb = [] then Some (Inr [])
          else if \<not> distinct (eb_Transactions hb) then None
          else map_option Inr (fetch_receipts outs (eb_Transactions hb)))"

text \<open>The index is computed in floating point, exactly for counts below \<open>2\<^sup>5\<^sup>3\<close>.\<close>

definition EClient_GetMedianGasPriceForBlock ::
    "'w EClient \<Rightarrow> 'w \<Rightarrow> int option \<times> int option \<times> error option" where
  "EClient_GetMedianGasPriceForBlock cl w =
     (case EClient_GetHeaderByHeight cl None w of
        Inl e \<Rightarrow> (Some 0, None, Some (ErrMsg ''GetHeaderByNumber''))
      | Inr header \<Rightarrow>
          (case EClient_TransactionCount cl (hd_Hash header) w of
             Inl e \<Rightarrow> (Some 0, None, Some (ErrMsg ''GetTransactionCount''))
           | Inr txnCount \<Rightarrow>
               if txnCount = 0 then (None, None, Some (ErrMsg ''TransactionCount is zero''))
               else
                 (case EClient_TransactionInBlock cl (hd_Hash header) (txnCount div 2) w of
                    Inl e \<Rightarrow> (None, None, Some (ErrMsg ''GetTransactionInBlock''))
                  | Inr txnS \<Rightarrow> (Some (etx_GasPrice txnS), Some (hd_Number header), None))))"

lemma fetch_receipt_first:
  "outs (i + k) = Inr r \<Longrightarrow> \<forall>j < k. \<exists>e. outs (i + j) = Inl e \<Longrightarrow> fetch_receipt outs i = Some r"
proof (induction k arbitrary: i)
  case 0
  then have "outs i = Inr r"
    by simp
  show ?case
    by (subst fetch_receipt.simps) (simp add: \<open>outs i = Inr r\<close>)
next
  case (Suc k)
  then obtain e where "outs i = Inl e"
    by force
  moreover have "fetch_receipt outs (i + 1) = Some r"
    using Suc.prems by (intro Suc.IH) force+
  ultimately show ?case
    by (subst fetch_receipt.simps) simp
qed

lemma fetch_receipt_sound:
  assumes "fetch_receipt outs i = Some r"
  shows "\<exists>j \<ge> i. outs j = Inr r"
proof (rule fetch_receipt.raw_induct [where P = "\<lambda>outs i r. \<exists>j \<ge> i. outs j = Inr r", OF _ assms])
  fix f :: "(nat \<Rightarrow> error + EthReceipt) \<Rightarrow> nat \<Rightarrow> EthReceipt option" and outs i r
  assume IH: "\<And>outs i r. f outs i = Some r \<Longrightarrow> \<exists>j \<ge> i. outs j = Inr r"
    and "(case outs i of Inl e \<Rightarrow> f outs (i + 1) | Inr r \<Rightarrow> Some r) = Some r"
  then consider "outs i = Inr r" | "f outs (Suc i) = Some r"
    by (auto split: sum.splits)
  then show "\<exists>j \<ge> i. outs j = Inr r"
  proof cases
    case 2
    with IH obtain j where "Suc i \<le> j" "outs j = Inr r"
      by blast
    then show ?thesis
      using Suc_leD by blast
  qed blast
qed

lemma first_answer:
  fixes outs :: "nat \<Rightarrow> 'e + 'r"
  assumes "outs k = Inr r"
  shows "\<exists>i r. outs i = Inr r \<and> (\<forall>j < i. \<exists>e. outs j = Inl e)"
  using assms
proof (induction k arbitrary: r rule: less_induct)
  case (less k)
  show ?case
  proof (cases "\<exists>j < k. \<exists>r. outs j = Inr r")
    case False
    then have "\<forall>j < k. \<exists>e. outs j = Inl e"
      by (metis sum.exhaust)
    with less.prems show ?thesis
      by blast
  qed (use less.IH in blast)
qed

lemma fetch_receipts_map:
  "fetch_receipts outs txhs = Some rs \<Longrightarrow> map Some rs = map (\<lambda>t. fetch_receipt (outs t) 0) txhs"
  by (induction txhs arbitrary: rs) (auto split: option.splits)

lemma fetch_receipts_all:
  "\<forall>t \<in> set txhs. \<exists>r. fetch_receipt (outs t) 0 = Some r \<Longrightarrow> \<exists>rs. fetch_receipts outs txhs = Some rs"
  by (induction txhs) auto

lemma fetch_receipts_stuck:
  "t \<in> set txhs \<Longrightarrow> fetch_receipt (outs t) 0 = None \<Longrightarrow> fetch_receipts outs txhs = None"
  by (induction txhs) (auto split: option.split)

text \<open>The receipts of a block. The call returns exactly when every transaction has a receipt at
  some attempt and no hash occurs twice, and then the receipts are the first that were had, in the
  order of the block; a node that never gives one of them keeps it in its loop, since the errors
  are written to the wrong variable and no retry is counted.\<close>

lemma GetBlockReceipts_returns:
  assumes "EClient_GetBlockByHash cl hash w = Inr hb"
    and "eb_GasUsed hb \<noteq> ''0x0''" and "eb_Transactions hb \<noteq> []"
  shows "(EClient_GetBlockReceipts cl hash outs w \<noteq> None \<longleftrightarrow>
      distinct (eb_Transactions hb) \<and> (\<forall>t \<in> set (eb_Transactions hb). \<exists>i r. outs t i = Inr r)) \<and>
    (\<forall>res. EClient_GetBlockReceipts cl hash outs w = Some res \<longrightarrow>
      (\<exists>rs. res = Inr rs \<and> length rs = length (eb_Transactions hb) \<and>
        (\<forall>n < length rs. \<exists>i. outs (eb_Transactions hb ! n) i = Inr (rs ! n) \<and>
           (\<forall>j < i. \<exists>e. outs (eb_Transactions hb ! n) j = Inl e))))"
proof -
  let ?txs = "eb_Transactions hb"
  have def: "EClient_GetBlockReceipts cl hash outs w =
      (if distinct ?txs then map_option Inr (fetch_receipts outs ?txs) else None)"
    using assms by (simp add: EClient_GetBlockReceipts_def)
  have first: "\<exists>i. outs t i = Inr r \<and> (\<forall>j < i. \<exists>e. outs t j = Inl e)"
    if f: "fetch_receipt (outs t) 0 = Some r" for t r
  proof -
    obtain j r' where "outs t j = Inr r'"
      using fetch_receipt_sound [OF f] by blast
    from first_answer [of "outs t" j r', OF \<open>outs t j = Inr r'\<close>] obtain i r1 where
      i: "outs t i = Inr r1" "\<forall>j < i. \<exists>e. outs t j = Inl e"
      by blast
    then have "fetch_receipt (outs t) 0 = Some r1"
      using fetch_receipt_first [of "outs t" 0 i r1] by simp
    then show ?thesis
      using f i by (intro exI [of _ i]) simp
  qed
  have some: "(\<exists>r. fetch_receipt (outs t) 0 = Some r) \<longleftrightarrow> (\<exists>i r. outs t i = Inr r)" for t
  proof
    assume "\<exists>i r. outs t i = Inr r"
    then obtain i r where i: "outs t i = Inr r" "\<forall>j < i. \<exists>e. outs t j = Inl e"
      using first_answer [of "outs t"] by metis
    then show "\<exists>r. fetch_receipt (outs t) 0 = Some r"
      using fetch_receipt_first [of "outs t" 0 i r] by auto
  qed (use first in blast)
  have "fetch_receipts outs ?txs \<noteq> None \<longleftrightarrow> (\<forall>t \<in> set ?txs. \<exists>i r. outs t i = Inr r)"
    using fetch_receipts_all [of ?txs outs] fetch_receipts_stuck [of _ ?txs outs] some by (metis not_None_eq)
  moreover have "length rs = length ?txs \<and>
        (\<forall>n < length rs. \<exists>i. outs (?txs ! n) i = Inr (rs ! n) \<and> (\<forall>j < i. \<exists>e. outs (?txs ! n) j = Inl e))"
    if rs: "fetch_receipts outs ?txs = Some rs" for rs
  proof -
    have m: "map Some rs = map (\<lambda>t. fetch_receipt (outs t) 0) ?txs"
      by (rule fetch_receipts_map [OF rs])
    then have len: "length rs = length ?txs"
      by (rule map_eq_imp_length_eq)
    have "fetch_receipt (outs (?txs ! n)) 0 = Some (rs ! n)" if "n < length rs" for n
      using arg_cong [OF m, of "\<lambda>l. l ! n"] that len by simp
    then show ?thesis
      using len first by simp
  qed
  ultimately show ?thesis
    unfolding def by auto
qed

end
