(* ===== verification/EvmProvider.thy ===== *)
theory EvmProvider
  imports EvmClient ChainRuntime
begin

text \<open>
  \<^verbatim>\<open>provider.go\<close>, \<^verbatim>\<open>query.go\<close>, \<^verbatim>\<open>route.go\<close>, \<^verbatim>\<open>events.go\<close> and \<^verbatim>\<open>event_parse.go\<close> of
  \<^verbatim>\<open>relayer/chains/evm\<close>: the provider of an EVM chain over its client. The wait for a transaction
  is a function of the rounds it meets; \<open>Route\<close> waits itself and calls back before it returns.
\<close>

subsection \<open>Configuration\<close>

record EVMProviderConfig =
  ec_ChainName :: string
  ec_RPCUrl :: string
  ec_VerifierRPCUrl :: string
  ec_StartHeight :: u64
  ec_Keystore :: string
  ec_Password :: string
  ec_GasPrice :: i64
  ec_GasLimit :: u64
  ec_ContractAddress :: string
  ec_Concurrency :: u64
  ec_FinalityBlock :: u64
  ec_NID :: string

definition DefaultFinalityBlock :: u64 where
  "DefaultFinalityBlock = 10"

definition EmitMessageSig :: string where
  "EmitMessageSig = ''Message(string,uint256,bytes)''"

definition eventSigToEventType :: "Geth \<Rightarrow> (bytes, string) gomap" where
  "eventSigToEventType g = [(g_Keccak256Hash g EmitMessageSig, EmitMessage)]"

definition MonitorEvents :: "Geth \<Rightarrow> bytes list" where
  "MonitorEvents g = [g_Keccak256Hash g EmitMessageSig]"

definition getEventFilterQuery :: "Geth \<Rightarrow> string \<Rightarrow> FilterQuery" where
  "getEventFilterQuery g contractAddress =
     \<lparr>fq_FromBlock = None, fq_ToBlock = None, fq_Addresses = [g_HexToAddress g contractAddress],
      fq_Topics = [MonitorEvents g]\<rparr>"

record EvmWallet =
  ew_Address :: bytes
  ew_PrivateKey :: bytes

record 'w EVMProvider =
  ep_client :: "'w EClient"
  ep_verifier :: "'w EClient"
  ep_cfg :: EVMProviderConfig
  ep_blockReq :: FilterQuery
  ep_wallet :: "EvmWallet option"

definition EVMProviderConfig_Validate :: "EVMProviderConfig \<Rightarrow> error option" where
  "EVMProviderConfig_Validate p = None"

text \<open>\<open>new url addr\<close> is \<open>newClient\<close> on the library and the world at hand.\<close>

definition EVMProviderConfig_NewProvider ::
    "(string \<Rightarrow> string \<Rightarrow> error + 'w EClient) \<Rightarrow> Geth \<Rightarrow> string \<Rightarrow> EVMProviderConfig \<Rightarrow> error + 'w EVMProvider" where
  "EVMProviderConfig_NewProvider new g chainName p =
     (case EVMProviderConfig_Validate p of
        Some e \<Rightarrow> Inl e
      | None \<Rightarrow>
          (case new (ec_RPCUrl p) (ec_ContractAddress p) of
             Inl e \<Rightarrow> Inl (ErrMsg ''error occured when creating client'')
           | Inr client \<Rightarrow>
               (case (if ec_VerifierRPCUrl p \<noteq> [] then new (ec_VerifierRPCUrl p) (ec_ContractAddress p) else Inr client) of
                  Inl e \<Rightarrow> Inl e
                | Inr verifierClient \<Rightarrow>
                    (let p1 = (if ec_FinalityBlock p = 0 then p\<lparr>ec_FinalityBlock := DefaultFinalityBlock\<rparr> else p)
                     in Inr \<lparr>ep_client = client, ep_verifier = verifierClient, ep_cfg = p1\<lparr>ec_ChainName := chainName\<rparr>,
                             ep_blockReq = getEventFilterQuery g (ec_ContractAddress p), ep_wallet = None\<rparr>))))"

text \<open>\<open>Init\<close>, with the key store that \<open>RestoreKey\<close> reads.\<close>

definition Evm_Init :: "(string \<Rightarrow> string \<Rightarrow> error + EvmWallet) \<Rightarrow> 'w EVMProvider \<Rightarrow> error + 'w EVMProvider" where
  "Evm_Init RestoreKey p =
     (case RestoreKey (ec_Keystore (ep_cfg p)) (ec_Password (ep_cfg p)) of
        Inl e \<Rightarrow> Inl (ErrMsg ''failed to restore evm wallet'')
      | Inr wallet \<Rightarrow> Inr (p\<lparr>ep_wallet := Some wallet\<rparr>))"

definition Evm_FinalityBlock :: "'w EVMProvider \<Rightarrow> u64" where
  "Evm_FinalityBlock p = ec_FinalityBlock (ep_cfg p)"

subsection \<open>Queries\<close>

definition Evm_QueryLatestHeight :: "'w EVMProvider \<Rightarrow> 'w \<Rightarrow> error + u64" where
  "Evm_QueryLatestHeight p w =
     (case EClient_GetBlockNumber (ep_client p) w of Inl e \<Rightarrow> Inl e | Inr height \<Rightarrow> Inr height)"

definition Evm_QueryBalance :: "'w EVMProvider \<Rightarrow> string \<Rightarrow> error + Coin option" where
  "Evm_QueryBalance p addr = Inr None"

definition Evm_ShouldReceiveMessage :: "'w EVMProvider \<Rightarrow> Message \<Rightarrow> bool \<times> error option" where
  "Evm_ShouldReceiveMessage p m = (True, None)"

definition Evm_ShouldSendMessage :: "'w EVMProvider \<Rightarrow> Message \<Rightarrow> bool \<times> error option" where
  "Evm_ShouldSendMessage p m = (True, None)"

definition Evm_MessageReceived :: "'w EVMProvider \<Rightarrow> 'w \<Rightarrow> MessageKey \<Rightarrow> bool \<times> error option" where
  "Evm_MessageReceived p w messageKey =
     (case EClient_MessageReceived (ep_client p) (key_Src messageKey) (sint (key_Sn messageKey)) w of
        Inl e \<Rightarrow> (False, Some e)
      | Inr received \<Rightarrow> (received, None))"

definition Evm_GenerateMessage ::
    "'w EVMProvider \<Rightarrow> MessageKeyWithMessageHeight \<Rightarrow> Message option \<times> error option" where
  "Evm_GenerateMessage p key = (None, None)"

definition Evm_QueryTransactionReceipt :: "'w EVMProvider \<Rightarrow> Geth \<Rightarrow> 'w \<Rightarrow> string \<Rightarrow> error + Receipt option" where
  "Evm_QueryTransactionReceipt p g w txHash =
     (case EClient_TransactionReceipt (ep_client p) (g_HexToHash g txHash) w of
        Inl e \<Rightarrow> Inl (ErrMsg ''queryTransactionReceipt'')
      | Inr receipt \<Rightarrow>
          Inr (Some \<lparr>rc_TxHash = txHash, rc_Height = of_int \<bar>er_BlockNumber receipt\<bar>, rc_Status = (er_Status receipt = 1)\<rparr>))"

subsection \<open>Events\<close>

definition getRelayMessageFromLog :: "'w EVMProvider \<Rightarrow> Geth \<Rightarrow> EthLog \<Rightarrow> error + Message" where
  "getRelayMessageFromLog p g log =
     (case lg_Topics log of
        [topic] \<Rightarrow>
          if topic = g_Keccak256Hash g EmitMessageSig then
            (case EClient_ParseMessage (ep_client p) log of
               Inl e \<Rightarrow> Inl (ErrMsg ''error parsing message'')
             | Inr msg \<Rightarrow>
                 Inr \<lparr>msg_Dst = am_TargetNetwork msg, msg_Src = ec_NID (ep_cfg p), msg_Sn = of_int \<bar>am_Sn msg\<bar>,
                      msg_Data = Some (am_Msg msg), msg_MessageHeight = lg_BlockNumber log,
                      msg_EventType = (case map_get (eventSigToEventType g) topic of None \<Rightarrow> [] | Some t \<Rightarrow> t)\<rparr>)
          else Inl (ErrMsg ''failed to match eventname'')
      | _ \<Rightarrow> Inl (ErrMsg ''topic length mismatch''))"

subsection \<open>Waiting for a transaction\<close>

text \<open>One round of the \<open>select\<close>; with the ticker, the answer the node has in that round.\<close>

datatype evm_wait_event = EvmCtxDone | EvmTick "error + EthReceipt"

fun evm_wait_rounds :: "Geth \<Rightarrow> (nat \<Rightarrow> evm_wait_event) \<Rightarrow> nat \<Rightarrow> nat \<Rightarrow> error + EthReceipt" where
  "evm_wait_rounds g ev i 0 =
     (case ev i of
        EvmCtxDone \<Rightarrow> Inl (ErrMsg ''Context Cancelled. ResultWait Exiting '')
      | EvmTick _ \<Rightarrow> Inl (ErrMsg ''Retry Limit Exceeded while waiting for results of transaction''))"
| "evm_wait_rounds g ev i (Suc n) =
     (case ev i of
        EvmCtxDone \<Rightarrow> Inl (ErrMsg ''Context Cancelled. ResultWait Exiting '')
      | EvmTick (Inl e) \<Rightarrow> if e = g_NotFound g then evm_wait_rounds g ev (Suc i) n else Inl e
      | EvmTick (Inr txr) \<Rightarrow> Inr txr)"

definition Evm_WaitForResults :: "Geth \<Rightarrow> (nat \<Rightarrow> evm_wait_event) \<Rightarrow> error + EthReceipt" where
  "Evm_WaitForResults g ev = evm_wait_rounds g ev 0 10"

definition Evm_WaitForTxResult ::
    "Geth \<Rightarrow> (nat \<Rightarrow> evm_wait_event) \<Rightarrow> EthTx \<Rightarrow> MessageKey \<Rightarrow> tx_callback list" where
  "Evm_WaitForTxResult g ev tx messageKey =
     (let res = zero_TxResponse\<lparr>tr_TxHash := g_HashString g (etx_Hash tx)\<rparr>
      in case Evm_WaitForResults g ev of
           Inl e \<Rightarrow> [(messageKey, res, Some e)]
         | Inr txReceipts \<Rightarrow>
             (let res1 = res\<lparr>tr_Height := of_int (er_BlockNumber txReceipts)\<rparr>
              in if er_Status txReceipts \<noteq> 1
                 then [(messageKey, res1, Some (ErrMsg ''transaction failed to execute''))]
                 else [(messageKey, res1\<lparr>tr_Code := Success\<rparr>, None)]))"

subsection \<open>Routing\<close>

text \<open>The error of \<open>SuggestGasPrice\<close> is dropped: the gas price is then nil.\<close>

definition newTransactOpts :: "'w EVMProvider \<Rightarrow> Geth \<Rightarrow> EvmWallet \<Rightarrow> 'w \<Rightarrow> error + TransactOpts" where
  "newTransactOpts p g wal w =
     (case g_Transactor g (ew_PrivateKey wal) (EClient_GetChainID (ep_client p)) of
        Inl e \<Rightarrow> Inl e
      | Inr txo \<Rightarrow>
          Inr (txo\<lparr>txo_GasPrice :=
            (case EClient_SuggestGasPrice (ep_client p) w of Inl e \<Rightarrow> None | Inr price \<Rightarrow> Some price)\<rparr>))"

definition Evm_GetTransationOpts :: "'w EVMProvider \<Rightarrow> Geth \<Rightarrow> 'w \<Rightarrow> (error + TransactOpts) go" where
  "Evm_GetTransationOpts p g w =
     (case Evm_QueryLatestHeight p w of
        Inl e \<Rightarrow> Some (Inl e)
      | Inr h \<Rightarrow>
          (case ep_wallet p of
             None \<Rightarrow> None
           | Some wal \<Rightarrow>
               (case EClient_NonceAt (ep_client p) (ew_Address wal) (Some (sint h)) w of
                  Inl e \<Rightarrow> Some (Inl e)
                | Inr non \<Rightarrow>
                    (case newTransactOpts p g wal w of
                       Inl e \<Rightarrow> Some (Inl e)
                     | Inr txOpts \<Rightarrow>
                         (let o1 = txOpts\<lparr>txo_Nonce := Some (sint non)\<rparr>;
                              o2 = (if 0 < sint (ec_GasPrice (ep_cfg p))
                                    then o1\<lparr>txo_GasPrice := Some (sint (ec_GasPrice (ep_cfg p)))\<rparr> else o1);
                              o3 = (if 0 < ec_GasLimit (ep_cfg p)
                                    then o2\<lparr>txo_GasLimit := ec_GasLimit (ep_cfg p)\<rparr> else o2)
                          in Some (Inr o3))))))"

definition Evm_SendTransaction ::
    "'w EVMProvider \<Rightarrow> TransactOpts \<Rightarrow> Message \<Rightarrow> 'w \<Rightarrow> (error + EthTx) \<times> 'w" where
  "Evm_SendTransaction p opts message w =
     (if msg_EventType message = EmitMessage then
        (case EClient_ReceiveMessage (ep_client p) opts (msg_Src message) (sint (msg_Sn message)) (msg_Data message) w of
           (Inl e, w') \<Rightarrow> (Inl e, w')
         | (Inr tx, w') \<Rightarrow> (Inr tx, w'))
      else (Inl (ErrMsg (''contract method missing for eventtype: '' @ msg_EventType message)), w))"

text \<open>\<open>ev tx\<close> are the rounds of the wait for \<open>tx\<close>.\<close>

definition Evm_Route ::
    "'w EVMProvider \<Rightarrow> Geth \<Rightarrow> (EthTx \<Rightarrow> nat \<Rightarrow> evm_wait_event) \<Rightarrow> 'w \<Rightarrow> Message option
       \<Rightarrow> (tx_callback list \<times> error option \<times> 'w) go" where
  "Evm_Route p g ev w message =
     (case Evm_GetTransationOpts p g w of
        None \<Rightarrow> None
      | Some (Inl e) \<Rightarrow> Some ([], Some (ErrMsg ''routing failed''), w)
      | Some (Inr opts) \<Rightarrow>
          (case message of
             None \<Rightarrow> None
           | Some m \<Rightarrow>
               (case Evm_SendTransaction p opts m w of
                  (Inl e, w') \<Rightarrow> Some ([], Some (ErrMsg ''routing failed''), w')
                | (Inr tx, w') \<Rightarrow> Some (Evm_WaitForTxResult g (ev tx) tx (Message_MessageKey m), None, w'))))"

definition Evm_transferBalance ::
    "'w EVMProvider \<Rightarrow> Geth \<Rightarrow> string \<Rightarrow> string \<Rightarrow> int \<Rightarrow> 'w \<Rightarrow> (error + bytes) \<times> 'w" where
  "Evm_transferBalance p g senderKey recepientAddress amount w =
     (case g_HexToECDSA g senderKey of
        Inl e \<Rightarrow> (Inl e, w)
      | Inr from \<Rightarrow>
          (case EClient_NonceAt (ep_client p) (g_PubkeyToAddress g from) None w of
             Inl e \<Rightarrow> (Inl (ErrMsg ''PendingNonceAt ''), w)
           | Inr nonce \<Rightarrow>
               (case EClient_SuggestGasPrice (ep_client p) w of
                  Inl e \<Rightarrow> (Inl (ErrMsg ''SuggestGasPrice ''), w)
                | Inr gasPrice \<Rightarrow>
                    (let tx = g_NewTransaction g nonce (g_HexToAddress g recepientAddress) amount 30000000 gasPrice []
                     in case g_SignTx g tx (EClient_GetChainID (ep_client p)) from of
                          Inl e \<Rightarrow> (Inl (ErrMsg ''SignTx ''), w)
                        | Inr signedTx \<Rightarrow>
                            (case EClient_SendTransaction (ep_client p) signedTx w of
                               (Some e, w') \<Rightarrow> (Inl (ErrMsg ''SendTransaction ''), w')
                             | (None, w') \<Rightarrow> (Inr (etx_Hash signedTx), w'))))))"

subsection \<open>The provider\<close>

definition evm_provider :: "'w EVMProvider \<Rightarrow> Geth \<Rightarrow> (EthTx \<Rightarrow> nat \<Rightarrow> evm_wait_event) \<Rightarrow> 'w ChainProvider" where
  "evm_provider p g ev =
     \<lparr>NID = ec_NID (ep_cfg p), ChainName = ec_ChainName (ep_cfg p),
      FinalityBlock = (\<lambda>w. Evm_FinalityBlock p),
      QueryLatestHeight = Evm_QueryLatestHeight p,
      QueryTransactionReceipt = Evm_QueryTransactionReceipt p g,
      ShouldReceiveMessage = (\<lambda>w m. Evm_ShouldReceiveMessage p m),
      ShouldSendMessage = (\<lambda>w m. Evm_ShouldSendMessage p m),
      MessageReceived = Evm_MessageReceived p,
      GenerateMessage = (\<lambda>w k. Evm_GenerateMessage p k),
      Route = Evm_Route p g ev\<rparr>"

subsection \<open>Waiting and routing\<close>

text \<open>The wait ends with a receipt exactly when one comes before the retries are used up, after
  nothing but \<open>NotFound\<close>.\<close>

lemma evm_wait_rounds_receipt:
  "evm_wait_rounds g ev i n = Inr r \<longleftrightarrow>
     (\<exists>k < n. map (\<lambda>j. ev (i + j)) [0..<k] = replicate k (EvmTick (Inl (g_NotFound g))) \<and> ev (i + k) = EvmTick (Inr r))"
proof (induction n arbitrary: i)
  case 0
  then show ?case
    by (simp split: evm_wait_event.split)
next
  case (Suc n)
  have step: "map (\<lambda>j. ev (i + j)) [0..<Suc k] = ev i # map (\<lambda>j. ev (Suc i + j)) [0..<k]" for k
    by (simp only: map_upt_Suc) simp
  show ?case
  proof (cases "ev i = EvmTick (Inl (g_NotFound g))")
    case True
    then have "evm_wait_rounds g ev i (Suc n) = evm_wait_rounds g ev (Suc i) n"
      by simp
    moreover have "(\<exists>k < Suc n. map (\<lambda>j. ev (i + j)) [0..<k] = replicate k (EvmTick (Inl (g_NotFound g))) \<and> ev (i + k) = EvmTick (Inr r))
      \<longleftrightarrow> (\<exists>k < n. map (\<lambda>j. ev (i + j)) [0..<Suc k] = replicate (Suc k) (EvmTick (Inl (g_NotFound g))) \<and>
             ev (i + Suc k) = EvmTick (Inr r))"
      unfolding Ex_less_Suc2 using True by (simp del: upt_Suc)
    ultimately show ?thesis
      using True Suc.IH [of "Suc i"] unfolding step by simp
  next
    case False
    have "(\<exists>k < Suc n. map (\<lambda>j. ev (i + j)) [0..<k] = replicate k (EvmTick (Inl (g_NotFound g))) \<and> ev (i + k) = EvmTick (Inr r))
      \<longleftrightarrow> ev i = EvmTick (Inr r)"
      unfolding Ex_less_Suc2 using False by (simp add: step del: upt_Suc)
    then show ?thesis
      using False by (auto split: evm_wait_event.split sum.split)
  qed
qed

lemma Evm_WaitForResults_receipt:
  "Evm_WaitForResults g ev = Inr r \<longleftrightarrow>
     (\<exists>k < 10. map ev [0..<k] = replicate k (EvmTick (Inl (g_NotFound g))) \<and> ev k = EvmTick (Inr r))"
  by (simp add: Evm_WaitForResults_def evm_wait_rounds_receipt)

lemma Evm_WaitForTxResult_one:
  "\<exists>cb. Evm_WaitForTxResult g ev tx key = [cb] \<and> fst cb = key \<and> tr_TxHash (fst (snd cb)) = g_HashString g (etx_Hash tx) \<and>
     (tr_Code (fst (snd cb)) = Success \<longleftrightarrow> snd (snd cb) = None) \<and>
     (snd (snd cb) = None \<longleftrightarrow> (\<exists>r. Evm_WaitForResults g ev = Inr r \<and> er_Status r = 1))"
  by (cases "Evm_WaitForResults g ev")
    (simp_all add: Evm_WaitForTxResult_def Let_def zero_TxResponse_def Success_def Failed_def)

lemma Evm_SendTransaction_call:
  "Evm_SendTransaction p opts m w = (Inr tx, w') \<longleftrightarrow>
     msg_EventType m = EmitMessage \<and>
     abi_RecvMessage (cl_bridgeContract (ep_client p)) opts (msg_Src m) (sint (msg_Sn m)) (msg_Data m) w = (Inr tx, w')"
  by (auto simp: Evm_SendTransaction_def EClient_ReceiveMessage_def split: prod.splits sum.splits)

lemma Evm_GetTransationOpts_panic: "Evm_GetTransationOpts p g w = None \<Longrightarrow> ep_wallet p = None"
  by (auto simp: Evm_GetTransationOpts_def Let_def split: sum.splits option.splits)

text \<open>C18: Routing a message to an EVM chain. Without an error the message, of the known event type, was
  sent in one call of the contract with its source, its serial number as a signed 64-bit integer
  and its data, and the callback is called once, under the key of the message and with the hash of
  the transaction: with success exactly when a receipt of status one comes within ten rounds, after
  nothing but not found. With an error nothing is called back; only a nil message or a provider
  without its wallet panics.\<close>

theorem Evm_Route_reports:
  "case Evm_Route p g ev w message of
     None \<Rightarrow> message = None \<or> ep_wallet p = None
   | Some (cbs, Some e, w') \<Rightarrow> cbs = []
   | Some (cbs, None, w') \<Rightarrow>
       (\<exists>m opts tx res err. message = Some m \<and> msg_EventType m = EmitMessage \<and>
          Evm_GetTransationOpts p g w = Some (Inr opts) \<and>
          abi_RecvMessage (cl_bridgeContract (ep_client p)) opts (msg_Src m) (sint (msg_Sn m)) (msg_Data m) w = (Inr tx, w') \<and>
          cbs = [(Message_MessageKey m, res, err)] \<and> tr_TxHash res = g_HashString g (etx_Hash tx) \<and>
          (tr_Code res = Success \<longleftrightarrow> err = None) \<and>
          (err = None \<longleftrightarrow> (\<exists>r. er_Status r = 1 \<and> (\<exists>k < 10.
             map (ev tx) [0..<k] = replicate k (EvmTick (Inl (g_NotFound g))) \<and> ev tx k = EvmTick (Inr r)))))"
proof (cases "Evm_Route p g ev w message")
  case None
  then have "message = None \<or> ep_wallet p = None"
    by (auto simp: Evm_Route_def split: option.splits sum.splits prod.splits dest: Evm_GetTransationOpts_panic)
  with None show ?thesis
    by simp
next
  case (Some t)
  obtain cbs err w' where t: "t = (cbs, err, w')"
    using prod_cases3 by blast
  show ?thesis
  proof (cases err)
    case err: (Some e)
    then have "cbs = []"
      using Some t by (auto simp: Evm_Route_def split: option.splits sum.splits prod.splits)
    then show ?thesis
      using Some t err by simp
  next
    case None
    then obtain opts m tx where run: "Evm_GetTransationOpts p g w = Some (Inr opts)" "message = Some m"
      "Evm_SendTransaction p opts m w = (Inr tx, w')" "cbs = Evm_WaitForTxResult g (ev tx) tx (Message_MessageKey m)"
      using Some t by (auto simp: Evm_Route_def split: option.splits sum.splits prod.splits)
    from Evm_WaitForTxResult_one [of g "ev tx" tx "Message_MessageKey m", folded run(4)]
    obtain cb where cb: "cbs = [cb]" "fst cb = Message_MessageKey m" "tr_TxHash (fst (snd cb)) = g_HashString g (etx_Hash tx)"
      "tr_Code (fst (snd cb)) = Success \<longleftrightarrow> snd (snd cb) = None"
      "snd (snd cb) = None \<longleftrightarrow> (\<exists>r. Evm_WaitForResults g (ev tx) = Inr r \<and> er_Status r = 1)"
      by (elim exE conjE)
    have "cbs = [(Message_MessageKey m, fst (snd cb), snd (snd cb))]"
      using cb(1,2) by (simp add: prod_eq_iff)
    moreover have "snd (snd cb) = None \<longleftrightarrow> (\<exists>r. er_Status r = 1 \<and> (\<exists>k < 10.
        map (ev tx) [0..<k] = replicate k (EvmTick (Inl (g_NotFound g))) \<and> ev tx k = EvmTick (Inr r)))"
      unfolding cb(5) Evm_WaitForResults_receipt by blast
    ultimately show ?thesis
      unfolding Some t None option.case prod.case
      using run(1,2) run(3) [unfolded Evm_SendTransaction_call] cb(3,4)
      by (intro exI [of _ m] exI [of _ opts] exI [of _ tx] exI [of _ "fst (snd cb)"] exI [of _ "snd (snd cb)"])
        (simp only: simp_thms)
  qed
qed

end
