(* ===== verification/EvmListener.thy ===== *)
theory EvmListener
  imports EvmProvider Batches
begin

text \<open>
  \<^verbatim>\<open>relayer/chains/evm/listener.go\<close>: how the blocks of an EVM chain reach the relayer. The main
  loop guesses the latest height with a ticker and a poll, fetches headers and logs for a batch of
  heights in goroutines, sorts the answers and forwards those that continue the next height, and
  serves the relayer one block behind. The goroutines of a batch share the filter query of the
  provider without a lock, so the heights one of them asks for may be those another wrote.
\<close>

definition monitorBlockMaxConcurrency :: u64 where
  "monitorBlockMaxConcurrency = 10"

record EvmBlockNotification =
  bno_Height :: u64
  bno_Header :: "EthHeader option"
  bno_Logs :: "EthLog list"

subsection \<open>Before the loop\<close>

definition Evm_latestHeight :: "'w EVMProvider \<Rightarrow> 'w \<Rightarrow> u64" where
  "Evm_latestHeight r w = (case EClient_GetBlockNumber (ep_client r) w of Inl e \<Rightarrow> 0 | Inr height \<Rightarrow> height)"

definition Evm_GetConcurrency :: "'w EVMProvider \<Rightarrow> u64 \<Rightarrow> u64 \<Rightarrow> i64" where
  "Evm_GetConcurrency p startHeight currentHeight =
     (let concurrency = (if ec_Concurrency (ep_cfg p) = 0 then monitorBlockMaxConcurrency else ec_Concurrency (ep_cfg p));
          heightTosync = currentHeight - startHeight
      in if heightTosync < 1 then 1 else if heightTosync < concurrency then heightTosync else concurrency)"

definition Evm_startFromHeight :: "'w EVMProvider \<Rightarrow> 'w \<Rightarrow> u64 \<Rightarrow> error + u64" where
  "Evm_startFromHeight p w lastSavedHeight =
     (case Evm_QueryLatestHeight p w of
        Inl e \<Rightarrow> Inl e
      | Inr latestHeight \<Rightarrow>
          (let latestQueryHeight = latestHeight - ec_FinalityBlock (ep_cfg p)
           in if lastSavedHeight \<noteq> 0 \<and> lastSavedHeight < latestQueryHeight then Inr lastSavedHeight
              else if ec_StartHeight (ep_cfg p) \<noteq> 0 \<and> ec_StartHeight (ep_cfg p) < latestQueryHeight
                then Inr (ec_StartHeight (ep_cfg p))
              else Inr latestQueryHeight))"

subsection \<open>Messages of a block\<close>

fun find_messages :: "'w EVMProvider \<Rightarrow> Geth \<Rightarrow> EthLog list \<Rightarrow> error + Message list" where
  "find_messages p g [] = Inr []"
| "find_messages p g (log # logs) =
     (case getRelayMessageFromLog p g log of
        Inl e \<Rightarrow> Inl e
      | Inr message \<Rightarrow>
          (case find_messages p g logs of Inl e \<Rightarrow> Inl e | Inr ms \<Rightarrow> Inr (message # ms)))"

text \<open>The guard is a conjunction, so a nil notification is read.\<close>

definition Evm_FindMessages :: "'w EVMProvider \<Rightarrow> Geth \<Rightarrow> EvmBlockNotification option \<Rightarrow> (error + Message list) go" where
  "Evm_FindMessages p g lbn =
     (case lbn of None \<Rightarrow> None | Some b \<Rightarrow> Some (find_messages p g (bno_Logs b)))"

subsection \<open>One request\<close>

text \<open>
  One attempt: the world it meets, and the heights the shared query has when it is read. The
  notification is filled as far as the attempt gets.
\<close>

record 'w bnq_env =
  be_world :: 'w
  be_from :: u64
  be_to :: u64

definition bnq_attempt ::
    "'w EVMProvider \<Rightarrow> Geth \<Rightarrow> 'w bnq_env \<Rightarrow> u64 \<Rightarrow> EvmBlockNotification \<times> error option" where
  "bnq_attempt r g env h =
     (let v = \<lparr>bno_Height = h, bno_Header = None, bno_Logs = []\<rparr>
      in case EClient_GetHeaderByHeight (ep_client r) (Some (uint h)) (be_world env) of
           Inl e \<Rightarrow> (v, g_Wrapf g (Some e) ''GetEvmHeaderByHeight'')
         | Inr header \<Rightarrow>
             (let v1 = v\<lparr>bno_Header := Some header\<rparr>
              in if 0 < hd_GasUsed header then
                   (case EClient_FilterLogs (ep_client r)
                           ((ep_blockReq r)\<lparr>fq_FromBlock := Some (sint (be_from env)), fq_ToBlock := Some (sint (be_to env))\<rparr>)
                           (be_world env) of
                      Inl e \<Rightarrow> (v1, g_Wrapf g (Some e) ''FilterLogs'')
                    | Inr logs \<Rightarrow> (v1\<lparr>bno_Logs := logs\<rparr>, None))
                 else (v1, None)))"

definition strings_HasSuffix :: "string \<Rightarrow> string \<Rightarrow> bool" where
  "strings_HasSuffix s suf \<longleftrightarrow> length suf \<le> length s \<and> drop (length s - length suf) s = suf"

definition block_ahead_text :: string where
  "block_ahead_text = ''requested block number greater than current block number''"

text \<open>
  The life of a request on \<open>qch\<close>: an attempt with an error is repeated while retries are left, but
  not when the error says that the block is not there yet.
\<close>

datatype bnq_result = BnqBlock EvmBlockNotification | BnqFailed | BnqAhead

fun bnq_rounds ::
    "'w EVMProvider \<Rightarrow> Geth \<Rightarrow> (nat \<Rightarrow> 'w bnq_env) \<Rightarrow> nat \<Rightarrow> u64 \<Rightarrow> nat \<Rightarrow> bnq_result" where
  "bnq_rounds r g envs n h 0 =
     (case bnq_attempt r g (envs n) h of
        (v, None) \<Rightarrow> BnqBlock v
      | (v, Some e) \<Rightarrow> BnqFailed)"
| "bnq_rounds r g envs n h (Suc retry) =
     (case bnq_attempt r g (envs n) h of
        (v, None) \<Rightarrow> BnqBlock v
      | (v, Some e) \<Rightarrow>
          if \<not> strings_HasSuffix (g_Error g e) block_ahead_text then bnq_rounds r g envs (Suc n) h retry
          else BnqAhead)"

definition run_bnq :: "'w EVMProvider \<Rightarrow> Geth \<Rightarrow> (nat \<Rightarrow> 'w bnq_env) \<Rightarrow> u64 \<Rightarrow> bnq_result" where
  "run_bnq r g envs h = bnq_rounds r g envs 0 h 3"

subsection \<open>A batch\<close>

text \<open>The heights asked for: from \<open>i\<close> on, below the latest, as many as the channel has room for.\<close>

fun bnq_heights :: "nat \<Rightarrow> u64 \<Rightarrow> u64 \<Rightarrow> u64 list" where
  "bnq_heights 0 i latest = []"
| "bnq_heights (Suc k) i latest = (if i < latest then i # bnq_heights k (i + 1) latest else [])"

text \<open>A request for a block that is not there yet takes the latest height below it.\<close>

fun lower_latest :: "(u64 \<times> bnq_result) list \<Rightarrow> u64 \<Rightarrow> u64" where
  "lower_latest [] latest = latest"
| "lower_latest ((h, res) # qs) latest =
     lower_latest qs (case res of BnqAhead \<Rightarrow> if h \<le> latest then h - 1 else latest | _ \<Rightarrow> latest)"

definition bnq_block :: "bnq_result \<Rightarrow> EvmBlockNotification option" where
  "bnq_block res = (case res of BnqBlock v \<Rightarrow> Some v | _ \<Rightarrow> None)"

text \<open>Sort and forward.\<close>

definition evm_forward :: "u64 \<Rightarrow> EvmBlockNotification option list \<Rightarrow> EvmBlockNotification list" where
  "evm_forward next bns =
     (let sorted = sort_key (\<lambda>v. uint (bno_Height v)) (map the (filter (\<lambda>v. v \<noteq> None) bns))
      in map snd (filter (\<lambda>(i, v). bno_Height v = next + of_nat i) (enumerate 0 sorted)))"

subsection \<open>The loop\<close>

record EvmListener =
  el_cap :: nat
  el_next :: u64
  el_latest :: u64
  el_bnch :: "EvmBlockNotification list"
  el_lbn :: "EvmBlockNotification option"
  el_sent :: "BlockInfo list"
  el_returned :: "error option"

text \<open>
  The notifications on the channel, one by one: each sends the block before it. An event that is
  no message ends the listener.
\<close>

fun evm_deliver ::
    "'w EVMProvider \<Rightarrow> Geth \<Rightarrow> EvmBlockNotification list \<Rightarrow> EvmListener \<Rightarrow> EvmListener go" where
  "evm_deliver r g [] s = Some s"
| "evm_deliver r g (bn # bns) s =
     (case el_lbn s of
        None \<Rightarrow> evm_deliver r g bns (s\<lparr>el_lbn := Some bn, el_next := el_next s + 1\<rparr>)
      | Some lbn \<Rightarrow>
          if bno_Header lbn = None then None
          else
            (case Evm_FindMessages r g (Some lbn) of
               None \<Rightarrow> None
             | Some (Inl e) \<Rightarrow> Some (s\<lparr>el_returned := g_Wrapf g (Some e) ''receiveLoop: callback''\<rparr>)
             | Some (Inr messages) \<Rightarrow>
                 evm_deliver r g bns
                   (s\<lparr>el_sent := el_sent s @ [\<lparr>bi_Height = bno_Height lbn, bi_Messages = map Some messages\<rparr>],
                      el_lbn := Some bn, el_next := el_next s + 1\<rparr>)))"

datatype 'w ev_label = EvTick | EvPoll 'w | EvDeliver | EvBatch

text \<open>
  The cases of the \<open>select\<close>. \<open>EvTick\<close>: another block is assumed. \<open>EvPoll w\<close>: the node is asked, in
  the world \<open>w\<close>. \<open>EvDeliver\<close>: the channel is emptied. \<open>EvBatch\<close>: nothing being ready, the next
  heights are fetched; \<open>outcome\<close> is what each request comes to and \<open>qs\<close> the order in which they
  come back; the heights in the shared query are those of some requests of the batch.
\<close>

inductive evm_step :: "'w EVMProvider \<Rightarrow> Geth \<Rightarrow> EvmListener \<Rightarrow> 'w ev_label \<Rightarrow> EvmListener \<Rightarrow> bool" for r g where
  ev_tick: "el_returned s = None \<Longrightarrow> evm_step r g s EvTick (s\<lparr>el_latest := el_latest s + 1\<rparr>)"
| ev_poll: "el_returned s = None \<Longrightarrow> height = Evm_latestHeight r w \<Longrightarrow>
    evm_step r g s (EvPoll w) (s\<lparr>el_latest := (if el_latest s < height then height else el_latest s)\<rparr>)"
| ev_deliver: "el_returned s = None \<Longrightarrow> el_bnch s \<noteq> [] \<Longrightarrow>
    evm_deliver r g (el_bnch s) (s\<lparr>el_bnch := []\<rparr>) = Some s' \<Longrightarrow> evm_step r g s EvDeliver s'"
| ev_batch: "el_returned s = None \<Longrightarrow> el_bnch s = [] \<Longrightarrow> el_next s < el_latest s \<Longrightarrow>
    hs = bnq_heights (el_cap s) (el_next s) (el_latest s) \<Longrightarrow>
    \<forall>h \<in> set hs. \<exists>envs. (\<forall>n. be_from (envs n) \<in> set hs \<and> be_to (envs n) \<in> set hs) \<and>
       run_bnq r g envs h = outcome h \<Longrightarrow>
    mset qs = mset hs \<Longrightarrow>
    evm_step r g s EvBatch
      (s\<lparr>el_latest := lower_latest (map (\<lambda>h. (h, outcome h)) qs) (el_latest s),
         el_bnch := evm_forward (el_next s) (map (\<lambda>h. bnq_block (outcome h)) qs)\<rparr>)"

inductive evm_run :: "'w EVMProvider \<Rightarrow> Geth \<Rightarrow> EvmListener \<Rightarrow> 'w ev_label list \<Rightarrow> EvmListener \<Rightarrow> bool" for r g s where
  evm_nil: "evm_run r g s [] s"
| evm_cons: "evm_run r g s ls s1 \<Longrightarrow> evm_step r g s1 l s2 \<Longrightarrow> evm_run r g s (ls @ [l]) s2"

inductive_cases evm_batchE: "evm_step r g s EvBatch s'"

text \<open>\<open>Listener\<close> up to its loop: making the channel panics when its capacity is negative as an
  \<open>int\<close>. Two calls to the node, in the worlds \<open>w\<close> and \<open>w'\<close>.\<close>

definition evm_listener_start ::
    "'w EVMProvider \<Rightarrow> 'w \<Rightarrow> 'w \<Rightarrow> u64 \<Rightarrow> (error + EvmListener) go" where
  "evm_listener_start r w w' lastSavedHeight =
     (case Evm_startFromHeight r w lastSavedHeight of
        Inl e \<Rightarrow> Some (Inl e)
      | Inr startHeight \<Rightarrow>
          (let latest = Evm_latestHeight r w';
               concurrency = Evm_GetConcurrency r startHeight latest
           in if sint concurrency < 0 then None
              else Some (Inr \<lparr>el_cap = unat concurrency, el_next = startHeight, el_latest = latest, el_bnch = [],
                              el_lbn = None, el_sent = [], el_returned = None\<rparr>)))"

subsection \<open>Heights of a batch\<close>

lemma bnq_attempt_height: "bnq_attempt r g env h = (v, err) \<Longrightarrow> bno_Height v = h"
  by (auto simp: bnq_attempt_def Let_def split: sum.splits if_splits)

lemma bnq_rounds_height: "bnq_rounds r g envs n h retry = BnqBlock v \<Longrightarrow> bno_Height v = h"
  by (induction retry arbitrary: n)
    (auto split: prod.splits option.splits if_splits dest: bnq_attempt_height)

lemma bnq_heights_unfold:
  "map uint (bnq_heights k i latest) = map (\<lambda>j. uint i + int j) [0..<length (bnq_heights k i latest)] \<and>
   (i \<le> latest \<longrightarrow> length (bnq_heights k i latest) = min k (nat (uint latest - uint i)))"
proof (induction k arbitrary: i)
  case (Suc k)
  show ?case
  proof (cases "i < latest")
    case True
    then have i1: "uint (i + 1) = uint i + 1" "i + 1 \<le> latest"
      using uint_bounded [of latest] uint_bounded [of i]
      by (simp_all add: word_less_def word_le_def uint_word_ariths mod_pos_pos_trivial)
    let ?hs = "bnq_heights k (i + 1) latest"
    have "[0..<Suc (length ?hs)] = 0 # map Suc [0..<length ?hs]"
      by (simp add: map_Suc_upt upt_conv_Cons del: upt_Suc)
    moreover have "min (Suc k) (nat (uint latest - uint i)) = Suc (min k (nat (uint latest - uint (i + 1))))"
      using True i1 by (simp add: word_less_def)
    ultimately show ?thesis
      using Suc.IH [of "i + 1"] True i1 by (simp add: comp_def algebra_simps del: upt_Suc)
  qed (auto simp: word_less_def word_le_def)
qed simp

lemma bnq_block_iff [simp]: "bnq_block res = Some v \<longleftrightarrow> res = BnqBlock v"
  by (cases res) (simp_all add: bnq_block_def)

interpretation evm_batch: request_batch uint "\<lambda>v. uint (bno_Height v)"
    "\<lambda>h res. \<exists>envs. bnq_block (run_bnq r g envs h) = res" for r g
proof unfold_locales
  fix r :: "'w EVMProvider" and g h v
  assume "\<exists>envs. bnq_block (run_bnq r g envs h) = Some v"
  then obtain envs where "run_bnq r g envs h = BnqBlock v"
    unfolding bnq_block_iff by (elim exE)
  then show "uint (bno_Height v) = uint h"
    unfolding run_bnq_def by (simp add: bnq_rounds_height)
qed

lemma in_place_words:
  fixes nx :: u64
  assumes "uint nx + int (length vs) < 2 ^ 64 + 1"
  shows "filter (\<lambda>(i, v). bno_Height v = nx + of_nat i) (enumerate 0 vs)
    = filter (\<lambda>(i, v). uint (bno_Height v) = uint nx + int i) (enumerate 0 vs)"
proof (rule filter_cong [OF refl], clarify)
  fix i v assume "(i, v) \<in> set (enumerate 0 vs)"
  then have "i < length vs"
    by (simp add: in_set_enumerate_eq)
  with assms have small: "uint nx + int i < 2 ^ 64"
    by simp
  moreover have "int i \<le> uint nx + int i"
    by simp
  ultimately have "int i < 2 ^ 64"
    by linarith
  then have "i < 2 ^ 64"
    by simp
  then have "take_bit 64 i = i"
    by (simp add: take_bit_nat_eq_self)
  with small have "uint (nx + of_nat i) = uint nx + int i"
    by (simp add: uint_word_ariths unsigned_of_nat mod_pos_pos_trivial)
  then show "(bno_Height v = nx + of_nat i) = (uint (bno_Height v) = uint nx + int i)"
    by (metis word_uint_eq_iff)
qed

lemma evm_forward_in_place:
  assumes "length bns \<le> nat (2 ^ 64 - uint nx)"
  shows "evm_forward nx bns = in_place (\<lambda>v. uint (bno_Height v)) (uint nx) (answered bns)"
proof -
  let ?vs = "sort_key (\<lambda>v. uint (bno_Height v)) (answered bns)"
  have "length ?vs \<le> length bns"
    by (simp add: answered_def)
  moreover have "0 \<le> 2 ^ 64 - uint nx"
    using uint_bounded [of nx] by simp
  ultimately have "uint nx + int (length ?vs) < 2 ^ 64 + 1"
    using assms by linarith
  from in_place_words [OF this] show ?thesis
    by (simp add: evm_forward_def in_place_def answered_def)
qed

text \<open>What a batch forwards continues the next height; it is the whole batch when all of it is answered.\<close>

lemma batch_in_place:
  fixes hs qs :: "u64 list"
  assumes hs: "hs = bnq_heights k nx latest" and "nx \<le> latest"
    and out: "\<forall>h \<in> set hs. \<exists>envs. run_bnq r g envs h = outcome h" and perm: "mset qs = mset hs"
  shows "map uint hs = map (\<lambda>i. uint nx + int i) [0..<length hs]"
    and "\<forall>h \<in> set hs. \<exists>envs. bnq_block (run_bnq r g envs h) = bnq_block (outcome h)"
    and "mset (map (\<lambda>h. bnq_block (outcome h)) qs) = mset (map (\<lambda>h. bnq_block (outcome h)) hs)"
    and "evm_forward nx (map (\<lambda>h. bnq_block (outcome h)) qs)
      = in_place (\<lambda>v. uint (bno_Height v)) (uint nx) (answered (map (\<lambda>h. bnq_block (outcome h)) qs))"
proof -
  show "map uint hs = map (\<lambda>i. uint nx + int i) [0..<length hs]"
    using bnq_heights_unfold [of k nx latest] by (simp add: hs)
  have len: "length hs \<le> nat (uint latest - uint nx)"
    using bnq_heights_unfold [of k nx latest] assms(2) by (simp add: hs)
  have "length qs = length hs"
    using arg_cong [OF perm, of size] by simp
  moreover have "nat (uint latest - uint nx) \<le> nat (2 ^ 64 - uint nx)"
    using uint_bounded [of latest] by (intro nat_mono) simp
  ultimately show "evm_forward nx (map (\<lambda>h. bnq_block (outcome h)) qs)
      = in_place (\<lambda>v. uint (bno_Height v)) (uint nx) (answered (map (\<lambda>h. bnq_block (outcome h)) qs))"
    using len by (intro evm_forward_in_place) simp
  show "\<forall>h \<in> set hs. \<exists>envs. bnq_block (run_bnq r g envs h) = bnq_block (outcome h)"
    using out by metis
  show "mset (map (\<lambda>h. bnq_block (outcome h)) qs) = mset (map (\<lambda>h. bnq_block (outcome h)) hs)"
    using perm by (metis mset_map)
qed

lemma batch_in_order:
  fixes hs qs :: "u64 list"
  assumes "hs = bnq_heights k nx latest" and "nx \<le> latest"
    and "\<forall>h \<in> set hs. \<exists>envs. run_bnq r g envs h = outcome h" and "mset qs = mset hs"
    and "fw = evm_forward nx (map (\<lambda>h. bnq_block (outcome h)) qs)"
  shows "fw = map (the \<circ> (\<lambda>h. bnq_block (outcome h))) (takeWhile (\<lambda>h. bnq_block (outcome h) \<noteq> None) hs)"
  using evm_batch.forwarded_in_order [OF batch_in_place(1-3) [OF assms(1-4)]]
  by (simp only: assms(5) batch_in_place(4) [OF assms(1-4)])

lemma batch_forwarded:
  fixes hs qs :: "u64 list"
  assumes hs: "hs = bnq_heights k nx latest" and "nx \<le> latest"
    and out: "\<forall>h \<in> set hs. \<exists>envs. run_bnq r g envs h = outcome h" and perm: "mset qs = mset hs"
    and fw: "fw = evm_forward nx (map (\<lambda>h. bnq_block (outcome h)) qs)"
  shows "map bno_Height fw = map (\<lambda>i. nx + of_nat i) [0..<length fw]"
    and "\<forall>h \<in> set hs. outcome h \<noteq> BnqFailed \<and> outcome h \<noteq> BnqAhead \<Longrightarrow> length fw = length hs"
proof -
  note heights = batch_in_place(1) [OF assms(1-4)] and ans = batch_in_place(2) [OF assms(1-4)]
    and m = batch_in_place(3) [OF assms(1-4)]
  have fw': "fw = in_place (\<lambda>v. uint (bno_Height v)) (uint nx) (answered (map (\<lambda>h. bnq_block (outcome h)) qs))"
    unfolding fw by (rule batch_in_place(4) [OF assms(1-4)])
  from evm_batch.forwarded_consecutive(1) [OF heights ans m fw']
  have "map (\<lambda>v. uint (bno_Height v)) fw = map (\<lambda>i. uint nx + int i) [0..<length fw]" .
  then have "map (\<lambda>v. word_of_int (uint (bno_Height v)) :: u64) fw = map (\<lambda>i. word_of_int (uint nx + int i)) [0..<length fw]"
    by (metis (no_types, lifting) list.map_comp comp_def map_eq_conv)
  then show "map bno_Height fw = map (\<lambda>i. nx + of_nat i) [0..<length fw]"
    by (simp add: wi_hom_add [symmetric])
  assume "\<forall>h \<in> set hs. outcome h \<noteq> BnqFailed \<and> outcome h \<noteq> BnqAhead"
  then have "\<forall>h \<in> set hs. bnq_block (outcome h) \<noteq> None"
    by (auto simp: bnq_block_def split: bnq_result.split)
  from evm_batch.forwarded_complete [OF heights ans m this] show "length fw = length hs"
    unfolding fw' .
qed

text \<open>The reference for a batch: the heights one after the other, up to the first that fails.\<close>

fun fetch_in_order :: "'w EVMProvider \<Rightarrow> Geth \<Rightarrow> 'w \<Rightarrow> u64 list \<Rightarrow> EvmBlockNotification list" where
  "fetch_in_order r g w [] = []"
| "fetch_in_order r g w (h # hs) =
     (case bnq_attempt r g \<lparr>be_world = w, be_from = h, be_to = h\<rparr> h of
        (v, None) \<Rightarrow> v # fetch_in_order r g w hs
      | (v, Some e) \<Rightarrow> [])"

lemma bnq_rounds_steady:
  "\<forall>n. bnq_attempt r g (envs n) h = a \<Longrightarrow>
     bnq_block (bnq_rounds r g envs n h retry) = (case a of (v, None) \<Rightarrow> Some v | (v, Some e) \<Rightarrow> None)"
  by (induction retry arbitrary: n) (auto simp: bnq_block_def split: prod.splits option.splits)

lemma fetch_in_order_takeWhile:
  "\<forall>h \<in> set hs. res h = (case bnq_attempt r g \<lparr>be_world = w, be_from = h, be_to = h\<rparr> h of (v, None) \<Rightarrow> Some v | (v, Some e) \<Rightarrow> None) \<Longrightarrow>
     map (the \<circ> res) (takeWhile (\<lambda>h. res h \<noteq> None) hs) = fetch_in_order r g w hs"
  by (induction hs) (auto split: prod.splits option.splits)

text \<open>One block behind: \<open>el_lbn\<close> is the block before the next one, and all before it were sent.\<close>

definition evm_served :: "u64 \<Rightarrow> EvmListener \<Rightarrow> bool" where
  "evm_served n0 s \<longleftrightarrow>
     map bi_Height (el_sent s) = map (\<lambda>i. n0 + of_nat i) [0..<length (el_sent s)] \<and>
     (case el_lbn s of
        None \<Rightarrow> el_sent s = [] \<and> el_next s = n0
      | Some b \<Rightarrow> bno_Height b = n0 + of_nat (length (el_sent s)) \<and> el_next s = n0 + of_nat (length (el_sent s)) + 1)"

definition evm_inv :: "u64 \<Rightarrow> EvmListener \<Rightarrow> bool" where
  "evm_inv n0 s \<longleftrightarrow> evm_served n0 s \<and>
     map bno_Height (el_bnch s) = map (\<lambda>i. el_next s + of_nat i) [0..<length (el_bnch s)]"

lemma evm_deliver_served:
  "evm_deliver r g bns s = Some s' \<Longrightarrow> map bno_Height bns = map (\<lambda>i. el_next s + of_nat i) [0..<length bns] \<Longrightarrow>
     evm_served n0 s \<Longrightarrow> evm_served n0 s' \<and> el_bnch s' = el_bnch s"
proof (induction bns arbitrary: s)
  case (Cons bn bns)
  have "[0..<length (bn # bns)] = 0 # map Suc [0..<length bns]"
    by (simp add: map_Suc_upt upt_conv_Cons del: upt_Suc)
  then have bn: "bno_Height bn = el_next s"
    and bns: "map bno_Height bns = map (\<lambda>i. el_next s + 1 + of_nat i) [0..<length bns]"
    using Cons.prems(2) by (simp_all add: comp_def add.assoc del: upt_Suc)
  show ?case
  proof (cases "el_lbn s")
    case None
    then have "evm_deliver r g bns (s\<lparr>el_lbn := Some bn, el_next := el_next s + 1\<rparr>) = Some s'"
      using Cons.prems(1) by simp
    from Cons.IH [OF this] bn bns None Cons.prems(3) show ?thesis
      by (simp add: evm_served_def split: option.splits)
  next
    case (Some lbn)
    then consider (stop) e where "s' = s\<lparr>el_returned := g_Wrapf g (Some e) ''receiveLoop: callback''\<rparr>"
      | (go) ms where "evm_deliver r g bns
          (s\<lparr>el_sent := el_sent s @ [\<lparr>bi_Height = bno_Height lbn, bi_Messages = map Some ms\<rparr>],
             el_lbn := Some bn, el_next := el_next s + 1\<rparr>) = Some s'"
      using Cons.prems(1) by (auto split: if_splits option.splits sum.splits)
    then show ?thesis
    proof cases
      case stop
      then show ?thesis
        using Cons.prems(3) by (simp add: evm_served_def split: option.splits)
    next
      case go
      from Cons.IH [OF go] bn bns Some Cons.prems(3) show ?thesis
        by (simp add: evm_served_def algebra_simps split: option.splits)
    qed
  qed
qed simp

lemma evm_step_inv:
  assumes "evm_step r g s l s'" and "evm_inv n0 s"
  shows "evm_inv n0 s'"
  using assms(1)
proof (cases rule: evm_step.cases)
  case ev_deliver
  have "evm_served n0 (s\<lparr>el_bnch := []\<rparr>)"
    using assms(2) by (simp add: evm_inv_def evm_served_def split: option.splits)
  moreover have "map bno_Height (el_bnch s) = map (\<lambda>i. el_next (s\<lparr>el_bnch := []\<rparr>) + of_nat i) [0..<length (el_bnch s)]"
    using assms(2) by (simp add: evm_inv_def)
  ultimately show ?thesis
    using evm_deliver_served [OF ev_deliver(4)] by (simp add: evm_inv_def)
next
  case (ev_batch hs outcome qs)
  have "\<forall>h \<in> set hs. \<exists>envs. run_bnq r g envs h = outcome h"
    using ev_batch(7) by blast
  from batch_forwarded(1) [OF ev_batch(6) _ this ev_batch(8) refl] show ?thesis
    using assms(2) ev_batch(2,5) by (simp add: evm_inv_def evm_served_def split: option.splits)
qed (use assms(2) in \<open>simp_all add: evm_inv_def evm_served_def split: option.splits\<close>)

lemma evm_run_inv: "evm_run r g s ls s' \<Longrightarrow> evm_inv n0 s \<Longrightarrow> evm_inv n0 s'"
  by (induction rule: evm_run.induct) (auto intro: evm_step_inv)

lemma lower_latest_same: "\<forall>q \<in> set qs. snd q \<noteq> BnqAhead \<Longrightarrow> lower_latest qs latest = latest"
  by (induction qs latest rule: lower_latest.induct) (auto split: bnq_result.split)

lemma run_bnq_first:
  "bnq_attempt r g (envs 0) h = (v, None) \<Longrightarrow> run_bnq r g envs h = BnqBlock v"
  by (simp add: run_bnq_def numeral_eq_Suc)

lemma hd_bnq_heights: "i < latest \<Longrightarrow> 0 < k \<Longrightarrow> i \<in> set (bnq_heights k i latest)"
  by (cases k) simp_all

text \<open>A batch of two blocks and its delivery: the first is sent, the second kept.\<close>

lemma evm_two_blocks:
  assumes "el_returned s = None" and "el_bnch s = []" and "el_lbn s = None" and "el_cap s = 2"
    and "el_next s + 1 < el_latest s" and "el_next s < el_next s + 1"
    and attempt: "\<forall>h \<in> {el_next s, el_next s + 1}. be_from (env h) \<in> {el_next s, el_next s + 1} \<and>
        be_to (env h) \<in> {el_next s, el_next s + 1} \<and> bnq_attempt r g (env h) h = (v h, None)"
    and "bno_Header (v (el_next s)) \<noteq> None" and "find_messages r g (bno_Logs (v (el_next s))) = Inr ms"
  shows "evm_run r g s [EvBatch, EvDeliver]
    (s\<lparr>el_bnch := [], el_sent := el_sent s @ [\<lparr>bi_Height = el_next s, bi_Messages = map Some ms\<rparr>],
       el_lbn := Some (v (el_next s + 1)), el_next := el_next s + 1 + 1\<rparr>)"
proof -
  let ?n = "el_next s" and ?l = "el_latest s"
  let ?out = "\<lambda>h. run_bnq r g (\<lambda>_. env h) h"
  have lt: "?n < ?l"
    using assms(5,6) by (rule less_trans [rotated])
  have hs: "bnq_heights 2 ?n ?l = [?n, ?n + 1]"
    using assms(5) lt by (simp add: numeral_eq_Suc)
  have blk: "?out h = BnqBlock (v h)" "bno_Height (v h) = h" if "h \<in> {?n, ?n + 1}" for h
  proof -
    have a: "bnq_attempt r g (env h) h = (v h, None)"
      using attempt that by blast
    show "?out h = BnqBlock (v h)"
      by (rule run_bnq_first [OF a])
    show "bno_Height (v h) = h"
      by (rule bnq_attempt_height [OF a])
  qed
  have s1: "evm_step r g s EvBatch
      (s\<lparr>el_latest := lower_latest (map (\<lambda>h. (h, ?out h)) [?n, ?n + 1]) ?l,
         el_bnch := evm_forward ?n (map (\<lambda>h. bnq_block (?out h)) [?n, ?n + 1])\<rparr>)"
  proof (rule ev_batch [OF assms(1,2) lt _ _ refl])
    show "[?n, ?n + 1] = bnq_heights (el_cap s) ?n ?l"
      by (simp add: assms(4) hs)
    show "\<forall>h \<in> set [?n, ?n + 1]. \<exists>envs. (\<forall>n. be_from (envs n) \<in> set [?n, ?n + 1] \<and>
        be_to (envs n) \<in> set [?n, ?n + 1]) \<and> run_bnq r g envs h = ?out h"
    proof
      fix h assume "h \<in> set [?n, ?n + 1]"
      then show "\<exists>envs. (\<forall>n. be_from (envs n) \<in> set [?n, ?n + 1] \<and>
        be_to (envs n) \<in> set [?n, ?n + 1]) \<and> run_bnq r g envs h = ?out h"
        using attempt by (intro exI [of _ "\<lambda>_. env h"]) auto
    qed
  qed
  have "?n \<noteq> ?n + 1" "uint ?n < uint (?n + 1)"
    using assms(6) by (simp_all add: word_less_def)
  then have "evm_forward ?n [Some (v ?n), Some (v (?n + 1))] = [v ?n, v (?n + 1)]"
    using blk(2) by (simp add: evm_forward_def)
  moreover have "lower_latest (map (\<lambda>h. (h, ?out h)) [?n, ?n + 1]) ?l = ?l"
    by (rule lower_latest_same) (auto simp: blk)
  moreover have "map (\<lambda>h. bnq_block (?out h)) [?n, ?n + 1] = [Some (v ?n), Some (v (?n + 1))]"
    by (simp add: blk)
  ultimately have s1': "evm_step r g s EvBatch (s\<lparr>el_latest := ?l, el_bnch := [v ?n, v (?n + 1)]\<rparr>)"
    using s1 by metis
  let ?s1 = "s\<lparr>el_latest := ?l, el_bnch := [v ?n, v (?n + 1)]\<rparr>"
  let ?s2 = "s\<lparr>el_bnch := [], el_sent := el_sent s @ [\<lparr>bi_Height = ?n, bi_Messages = map Some ms\<rparr>],
      el_lbn := Some (v (?n + 1)), el_next := ?n + 1 + 1\<rparr>"
  have "evm_deliver r g (el_bnch ?s1) (?s1\<lparr>el_bnch := []\<rparr>) = Some ?s2"
    using assms(3,8,9) blk(2) by (simp add: Evm_FindMessages_def)
  then have s2: "evm_step r g ?s1 EvDeliver ?s2"
    using assms(1) by (intro ev_deliver) simp_all
  have "evm_run r g s (([] @ [EvBatch]) @ [EvDeliver]) ?s2"
    by (rule evm_cons [OF evm_cons [OF evm_nil s1'] s2])
  then show ?thesis
    by simp
qed

subsection \<open>An example\<close>

definition sample_geth :: Geth where
  "sample_geth =
     \<lparr>g_Keccak256Hash = (\<lambda>s. s), g_HexToAddress = (\<lambda>s. s), g_HexToHash = (\<lambda>s. s), g_IsHexAddress = (\<lambda>s. True),
      g_HashString = (\<lambda>h. h), g_NotFound = ErrNotFound,
      g_Transactor = (\<lambda>k c. Inr \<lparr>txo_From = k, txo_Nonce = None, txo_GasPrice = None, txo_GasLimit = 0\<rparr>),
      g_HexToECDSA = Inr, g_PubkeyToAddress = (\<lambda>k. k), g_NewTransaction = (\<lambda>n t a gl gp d. \<lparr>etx_Hash = d, etx_GasPrice = gp\<rparr>),
      g_SignTx = (\<lambda>tx c k. Inr tx), g_Wrapf = (\<lambda>e m. map_option (\<lambda>_. ErrMsg m) e),
      g_Error = (\<lambda>e. case e of ErrMsg m \<Rightarrow> m | _ \<Rightarrow> [])\<rparr>"

definition sample_log :: EthLog where
  "sample_log = \<lparr>lg_Topics = [EmitMessageSig], lg_Data = [], lg_BlockNumber = 3\<rparr>"

text \<open>A chain of \<open>latest\<close> blocks with one message, in block 3.\<close>

definition sample_eth :: "u64 \<Rightarrow> unit EthRpc" where
  "sample_eth latest =
     \<lparr>eth_BlockNumber = (\<lambda>_. Inr latest), eth_ChainID = (\<lambda>_. Inr 1), eth_BalanceAt = (\<lambda>_ _ _. Inr 0),
      eth_HeaderByNumber = (\<lambda>n _. Inr \<lparr>hd_Number = (case n of None \<Rightarrow> uint latest | Some i \<Rightarrow> i), hd_GasUsed = 1, hd_Hash = []\<rparr>),
      eth_FilterLogs = (\<lambda>q _. Inr (if fq_FromBlock q = Some 3 then [sample_log] else [])),
      eth_SuggestGasPrice = (\<lambda>_. Inr 1), eth_NonceAt = (\<lambda>_ _ _. Inr 0),
      eth_TransactionByHash = (\<lambda>_ _. Inl ErrNotFound), eth_CallContract = (\<lambda>_ _ _. Inr []),
      eth_TransactionReceipt = (\<lambda>_ _. Inr \<lparr>er_Status = 0, er_BlockNumber = 3, er_TxHash = []\<rparr>),
      eth_TransactionCount = (\<lambda>_ _. Inr 1), eth_TransactionInBlock = (\<lambda>_ _ _. Inl ErrNotFound),
      eth_SendTransaction = (\<lambda>_ w. (None, w)), rpc_getBlockByHash = (\<lambda>_ _. Inl ErrNotFound)\<rparr>"

definition sample_abi :: "unit Abi" where
  "sample_abi =
     \<lparr>abi_ParseMessage = (\<lambda>log. Inr \<lparr>am_TargetNetwork = ''icon'', am_Sn = 7, am_Msg = ''hi''\<rparr>),
      abi_SendMessage = (\<lambda>_ _ _ _ _ w. (Inr \<lparr>etx_Hash = ''tx'', etx_GasPrice = 1\<rparr>, w)),
      abi_RecvMessage = (\<lambda>_ _ _ _ w. (Inr \<lparr>etx_Hash = ''tx'', etx_GasPrice = 1\<rparr>, w)),
      abi_GetReceipt = (\<lambda>_ _ _. Inr False)\<rparr>"

definition sample_evm :: "u64 \<Rightarrow> unit EVMProvider" where
  "sample_evm latest =
     (let cl = \<lparr>cl_eth = sample_eth latest, cl_EVMChainID = 1, cl_bridgeContract = sample_abi\<rparr>
      in \<lparr>ep_client = cl, ep_verifier = cl,
          ep_cfg = \<lparr>ec_ChainName = ''avalanche'', ec_RPCUrl = ''http://x'', ec_VerifierRPCUrl = [], ec_StartHeight = 0,
            ec_Keystore = [], ec_Password = [], ec_GasPrice = 0, ec_GasLimit = 0, ec_ContractAddress = ''0x1'',
            ec_Concurrency = 2, ec_FinalityBlock = 10, ec_NID = ''avax''\<rparr>,
          ep_blockReq = getEventFilterQuery sample_geth ''0x1'', ep_wallet = None\<rparr>)"

definition sample_evm_state :: EvmListener where
  "sample_evm_state = \<lparr>el_cap = 2, el_next = 2, el_latest = 12, el_bnch = [], el_lbn = None, el_sent = [], el_returned = None\<rparr>"

lemma sample_evm_start: "evm_listener_start (sample_evm 12) () () 0 = Some (Inr sample_evm_state)"
  by (simp add: evm_listener_start_def Evm_startFromHeight_def Evm_QueryLatestHeight_def Evm_latestHeight_def
      Evm_GetConcurrency_def EClient_GetBlockNumber_def sample_evm_def sample_eth_def sample_evm_state_def Let_def)

lemma sample_evm_attempt:
  "bnq_attempt (sample_evm 12) sample_geth \<lparr>be_world = (), be_from = f, be_to = t\<rparr> h =
     (\<lparr>bno_Height = h, bno_Header = Some \<lparr>hd_Number = uint h, hd_GasUsed = 1, hd_Hash = []\<rparr>,
       bno_Logs = (if sint f = 3 then [sample_log] else [])\<rparr>, None)"
proof -
  have "EClient_GetHeaderByHeight (ep_client (sample_evm 12)) (Some i) () =
      Inr \<lparr>hd_Number = i, hd_GasUsed = 1, hd_Hash = []\<rparr>" for i
    by (simp add: sample_evm_def Let_def sample_eth_def EClient_GetHeaderByHeight_def Let_def)
  moreover have "EClient_FilterLogs (ep_client (sample_evm 12)) q () =
      Inr (if fq_FromBlock q = Some 3 then [sample_log] else [])" for q
    by (simp add: sample_evm_def Let_def sample_eth_def EClient_FilterLogs_def Let_def)
  ultimately show ?thesis
    by (simp add: bnq_attempt_def)
qed

lemma sample_evm_message:
  "find_messages (sample_evm 12) sample_geth [sample_log] = Inr
     [\<lparr>msg_Dst = ''icon'', msg_Src = ''avax'', msg_Sn = 7, msg_Data = Some ''hi'', msg_MessageHeight = 3, msg_EventType = EmitMessage\<rparr>]"
  by (simp add: getRelayMessageFromLog_def sample_log_def sample_geth_def EClient_ParseMessage_def sample_evm_def Let_def
      sample_abi_def eventSigToEventType_def Let_def)

subsection \<open>Properties\<close>

text \<open>C9: The blocks an EVM chain sends the relayer are consecutive from the start height on, with no gap
  and no repetition, one behind the next height, however the ticker and the polls move the
  latest height, requests fail, are repeated or are ahead of the chain, and answers come back in
  any order.\<close>

theorem evm_blocks_consecutive:
  assumes "evm_listener_start r w w' saved = Some (Inr s0)" and "evm_run r g s0 ls s"
  shows "map bi_Height (el_sent s) = map (\<lambda>i. el_next s0 + of_nat i) [0..<length (el_sent s)] \<and>
     (el_sent s \<noteq> [] \<longrightarrow> el_next s = el_next s0 + of_nat (length (el_sent s)) + 1)"
proof -
  have "evm_inv (el_next s0) s0"
    using assms(1) by (auto simp: evm_listener_start_def evm_inv_def evm_served_def Let_def split: sum.splits if_splits)
  from evm_run_inv [OF assms(2) this] show ?thesis
    by (auto simp: evm_inv_def evm_served_def split: option.splits)
qed

theorem evm_blocks_consecutive_witness:
  "\<exists>s. evm_run (sample_evm 12) sample_geth sample_evm_state [EvBatch, EvDeliver] s \<and>
     map bi_Height (el_sent s) = [2] \<and> el_next s = 4"
proof -
  let ?v = "\<lambda>h. fst (bnq_attempt (sample_evm 12) sample_geth \<lparr>be_world = (), be_from = h, be_to = h\<rparr> h)"
  have "evm_run (sample_evm 12) sample_geth sample_evm_state [EvBatch, EvDeliver]
    (sample_evm_state\<lparr>el_bnch := [], el_sent := el_sent sample_evm_state @ [\<lparr>bi_Height = el_next sample_evm_state, bi_Messages = map Some []\<rparr>],
       el_lbn := Some (?v (el_next sample_evm_state + 1)), el_next := el_next sample_evm_state + 1 + 1\<rparr>)"
    by (rule evm_two_blocks [where env = "\<lambda>h. \<lparr>be_world = (), be_from = h, be_to = h\<rparr>"])
      (simp_all add: sample_evm_state_def sample_evm_attempt)
  from evm_blocks_consecutive [OF sample_evm_start this] this show ?thesis
    by (intro exI conjI) (assumption, simp_all add: sample_evm_state_def)
qed

text \<open>C17: A batch makes progress. When the node answers every attempt, a batch is possible whenever the
  next height is below the latest and the channel is empty, and every batch forwards as many
  consecutive blocks as the channel has room for and the chain has, and leaves the latest height.\<close>

theorem evm_batch_progress:
  assumes "el_returned s = None" and "el_bnch s = []" and "el_next s < el_latest s" and "0 < el_cap s"
    and "\<forall>env. \<forall>h < el_latest s. snd (bnq_attempt r g env h) = None"
  shows "(\<exists>s'. evm_step r g s EvBatch s') \<and>
    (\<forall>s'. evm_step r g s EvBatch s' \<longrightarrow> el_latest s' = el_latest s \<and>
       map bno_Height (el_bnch s') =
         map (\<lambda>i. el_next s + of_nat i) [0..<min (el_cap s) (unat (el_latest s) - unat (el_next s))])"
proof -
  let ?hs = "bnq_heights (el_cap s) (el_next s) (el_latest s)"
  have below: "h < el_latest s" if "h \<in> set (bnq_heights k i (el_latest s))" for h k i
    using that by (induction k arbitrary: i) (auto split: if_splits)
  have block: "\<exists>v. run_bnq r g envs h = BnqBlock v" if "h \<in> set ?hs" for envs h
  proof -
    have "snd (bnq_attempt r g (envs 0) h) = None"
      using assms(5) below [OF that] by blast
    then show ?thesis
      using run_bnq_first [of r g envs h "fst (bnq_attempt r g (envs 0) h)"] by (metis prod.collapse)
  qed
  let ?env = "\<lambda>_ :: nat. \<lparr>be_world = undefined, be_from = el_next s, be_to = el_next s\<rparr>"
  have "el_next s \<in> set ?hs"
    by (rule hd_bnq_heights [OF assms(3,4)])
  then have "\<forall>h \<in> set ?hs. \<exists>envs. (\<forall>n. be_from (envs n) \<in> set ?hs \<and> be_to (envs n) \<in> set ?hs) \<and>
      run_bnq r g envs h = run_bnq r g ?env h"
    by (intro ballI exI [of _ ?env]) simp
  then have "\<exists>s'. evm_step r g s EvBatch s'"
    using ev_batch [OF assms(1-3) refl, of r g "run_bnq r g ?env" ?hs] by blast
  moreover have "el_latest s' = el_latest s \<and> map bno_Height (el_bnch s') =
      map (\<lambda>i. el_next s + of_nat i) [0..<min (el_cap s) (unat (el_latest s) - unat (el_next s))]"
    if step: "evm_step r g s EvBatch s'" for s'
  proof (rule evm_batchE [OF step], goal_cases)
    case (1 outcome qs)
    have out: "\<forall>h \<in> set ?hs. \<exists>envs. run_bnq r g envs h = outcome h"
      using 1(5) by blast
    then have blocks: "\<forall>h \<in> set ?hs. outcome h \<noteq> BnqFailed \<and> outcome h \<noteq> BnqAhead"
      using block by (metis bnq_result.distinct(1,3))
    have "set qs = set ?hs"
      using 1(6) by (rule mset_eq_setD)
    then have same: "lower_latest (map (\<lambda>h. (h, outcome h)) qs) (el_latest s) = el_latest s"
      using blocks by (intro lower_latest_same) auto
    have le: "el_next s \<le> el_latest s"
      using assms(3) by simp
    note fw = batch_forwarded [OF refl le out 1(6) refl]
    have "length ?hs = min (el_cap s) (nat (uint (el_latest s) - uint (el_next s)))"
      using conjunct2 [OF bnq_heights_unfold] le by blast
    then have "length (evm_forward (el_next s) (map (\<lambda>h. bnq_block (outcome h)) qs))
        = min (el_cap s) (unat (el_latest s) - unat (el_next s))"
      using fw(2) [OF blocks] by (simp add: nat_diff_distrib' flip: unat_eq_nat_uint)
    with fw(1) same show ?thesis
      unfolding 1(1) by simp
  qed
  ultimately show ?thesis
    by blast
qed

theorem evm_batch_progress_witness:
  "\<exists>s'. evm_step (sample_evm 12) sample_geth sample_evm_state EvBatch s' \<and>
     map bno_Height (el_bnch s') = [2, 3] \<and> el_latest s' = 12"
proof -
  have "snd (bnq_attempt (sample_evm 12) sample_geth env h) = None" for env h
    using sample_evm_attempt [of "be_from env" "be_to env" h] by (cases env) simp
  then have "\<forall>env. \<forall>h < el_latest sample_evm_state. snd (bnq_attempt (sample_evm 12) sample_geth env h) = None"
    by blast
  from evm_batch_progress [OF _ _ _ _ this] obtain s' where
    "evm_step (sample_evm 12) sample_geth sample_evm_state EvBatch s'" "el_latest s' = el_latest sample_evm_state"
    "map bno_Height (el_bnch s') = map (\<lambda>i. el_next sample_evm_state + of_nat i)
       [0..<min (el_cap sample_evm_state) (unat (el_latest sample_evm_state) - unat (el_next sample_evm_state))]"
    by (auto simp: sample_evm_state_def)
  moreover have "min 2 (unat (12 :: u64) - unat (2 :: u64)) = 2" "map (\<lambda>i. 2 + of_nat i :: u64) [0..<2] = [2, 3]"
    by (simp_all add: upt_rec)
  ultimately show ?thesis
    by (intro exI [of _ s']) (simp add: sample_evm_state_def del: upt_Suc)
qed



text \<open>C24: The shared filter query loses messages. Two requests of one batch run beside each other; when
  the second has written its height into the query before the first reads it, both blocks are
  filled with the logs of the second: its messages are sent with the first block, kept for the
  second, and those of the first block are never asked for.\<close>

theorem evm_race_swaps_logs:
  assumes "el_returned s = None" and "el_bnch s = []" and "el_lbn s = None" and "el_cap s = 2"
    and "el_next s + 1 < el_latest s" and "el_next s < el_next s + 1"
    and "\<forall>h \<in> {el_next s, el_next s + 1}. EClient_GetHeaderByHeight (ep_client r) (Some (uint h)) w = Inr (hdr h) \<and>
        0 < hd_GasUsed (hdr h)"
    and "EClient_FilterLogs (ep_client r) ((ep_blockReq r)\<lparr>fq_FromBlock := Some (sint (el_next s + 1)),
          fq_ToBlock := Some (sint (el_next s + 1))\<rparr>) w = Inr logs"
    and "find_messages r g logs = Inr ms"
  shows "\<exists>s'. evm_run r g s [EvBatch, EvDeliver] s' \<and>
     el_sent s' = el_sent s @ [\<lparr>bi_Height = el_next s, bi_Messages = map Some ms\<rparr>] \<and>
     el_lbn s' = Some \<lparr>bno_Height = el_next s + 1, bno_Header = Some (hdr (el_next s + 1)), bno_Logs = logs\<rparr>"
proof -
  let ?v = "\<lambda>h. \<lparr>bno_Height = h, bno_Header = Some (hdr h), bno_Logs = logs\<rparr>"
  let ?env = "\<lparr>be_world = w, be_from = el_next s + 1, be_to = el_next s + 1\<rparr>"
  have attempt: "bnq_attempt r g ?env h = (?v h, None)" if "h \<in> {el_next s, el_next s + 1}" for h
  proof -
    have "EClient_GetHeaderByHeight (ep_client r) (Some (uint h)) w = Inr (hdr h)" "0 < hd_GasUsed (hdr h)"
      using assms(7) that by blast+
    then show ?thesis
      using assms(8) by (simp add: bnq_attempt_def)
  qed
  show ?thesis
    using evm_two_blocks [OF assms(1-6), of "\<lambda>_. ?env" r g ?v ms] attempt assms(9)
    by (intro exI [of _ "s\<lparr>el_bnch := [], el_sent := el_sent s @ [\<lparr>bi_Height = el_next s, bi_Messages = map Some ms\<rparr>],
      el_lbn := Some (?v (el_next s + 1)), el_next := el_next s + 1 + 1\<rparr>"]) simp
qed

theorem evm_race_swaps_logs_witness:
  "\<exists>s'. evm_run (sample_evm 12) sample_geth sample_evm_state [EvBatch, EvDeliver] s' \<and>
     el_sent s' = [\<lparr>bi_Height = 2, bi_Messages = [Some
       \<lparr>msg_Dst = ''icon'', msg_Src = ''avax'', msg_Sn = 7, msg_Data = Some ''hi'', msg_MessageHeight = 3,
        msg_EventType = EmitMessage\<rparr>]\<rparr>] \<and>
     map_option bno_Logs (el_lbn s') = Some [sample_log]"
  using evm_race_swaps_logs [OF _ _ _ _ _ _ _ _ sample_evm_message, where s = sample_evm_state and w = "()"
      and hdr = "\<lambda>h. \<lparr>hd_Number = uint h, hd_GasUsed = 1, hd_Hash = []\<rparr>"]
  by (auto simp: sample_evm_state_def sample_evm_def Let_def sample_eth_def EClient_GetHeaderByHeight_def EClient_FilterLogs_def)

text \<open>Where the listener starts. On a chain with at least as many blocks as its finality it starts no
  later than the block that is final. On a shorter chain the subtraction wraps around: with
  nothing saved and no start height configured, the listener starts at a height near \<open>2\<^sup>6\<^sup>4\<close> and
  cannot fetch a block.\<close>

lemma evm_start_height:
  assumes "Evm_QueryLatestHeight r w = Inr latest"
  shows "(ec_FinalityBlock (ep_cfg r) \<le> latest \<longrightarrow>
      (\<exists>h. Evm_startFromHeight r w saved = Inr h \<and> uint h \<le> uint latest - uint (ec_FinalityBlock (ep_cfg r)))) \<and>
    (latest < ec_FinalityBlock (ep_cfg r) \<and> saved = 0 \<and> ec_StartHeight (ep_cfg r) = 0 \<longrightarrow>
      (\<exists>h. Evm_startFromHeight r w saved = Inr h \<and>
         uint h = 2 ^ 64 + uint latest - uint (ec_FinalityBlock (ep_cfg r))) \<and>
      (\<forall>s0 s'. evm_listener_start r w w saved = Some (Inr s0) \<longrightarrow> \<not> evm_step r g s0 EvBatch s'))"
proof -
  let ?f = "ec_FinalityBlock (ep_cfg r)"
  have node: "Evm_latestHeight r w = latest"
    using assms by (simp add: Evm_latestHeight_def Evm_QueryLatestHeight_def split: sum.splits)
  have "uint (latest - ?f) = uint latest - uint ?f" if "?f \<le> latest"
    using that by (simp add: uint_minus_simple_alt)
  then have "\<exists>h. Evm_startFromHeight r w saved = Inr h \<and> uint h \<le> uint latest - uint ?f" if "?f \<le> latest"
    using that assms by (auto simp: Evm_startFromHeight_def Let_def word_less_def)
  moreover
  { assume short: "latest < ?f" "saved = 0" "ec_StartHeight (ep_cfg r) = 0"
    have "uint (latest - ?f) = (uint latest - uint ?f) mod 2 ^ 64"
      by (simp add: uint_word_ariths)
    also have "\<dots> = (2 ^ 64 + uint latest - uint ?f) mod 2 ^ 64"
      by (metis add_diff_eq mod_add_self1)
    also have "\<dots> = 2 ^ 64 + uint latest - uint ?f"
    proof (rule mod_pos_pos_trivial)
      have "uint ?f < 2 ^ 64" "uint latest < uint ?f" "0 \<le> uint latest"
        using uint_bounded [of ?f] short(1) by (simp_all add: word_less_def)
      then show "0 \<le> 2 ^ 64 + uint latest - uint ?f" "2 ^ 64 + uint latest - uint ?f < 2 ^ 64"
        by linarith+
    qed
    finally have h: "uint (latest - ?f) = 2 ^ 64 + uint latest - uint ?f" .
    have start: "Evm_startFromHeight r w saved = Inr (latest - ?f)"
      using assms short by (simp add: Evm_startFromHeight_def)
    have "\<not> evm_step r g s0 EvBatch s'" if "evm_listener_start r w w saved = Some (Inr s0)" for s0 s'
    proof
      assume "evm_step r g s0 EvBatch s'"
      then have "el_next s0 < el_latest s0"
        by (cases rule: evm_batchE)
      moreover have "el_next s0 = latest - ?f" "el_latest s0 = latest"
        using that start node by (auto simp: evm_listener_start_def Let_def split: if_splits)
      ultimately show False
        using h uint_bounded [of ?f] by (simp add: word_less_def)
    qed
    with start h have "(\<exists>h. Evm_startFromHeight r w saved = Inr h \<and> uint h = 2 ^ 64 + uint latest - uint ?f) \<and>
        (\<forall>s0 s'. evm_listener_start r w w saved = Some (Inr s0) \<longrightarrow> \<not> evm_step r g s0 EvBatch s')"
      by blast }
  ultimately show ?thesis
    by blast
qed

lemma evm_start_height_instance:
  "\<exists>h. Evm_startFromHeight (sample_evm 3) () 0 = Inr h \<and> uint h = 2 ^ 64 - 7"
proof -
  have "Evm_QueryLatestHeight (sample_evm 3) () = Inr 3"
    by (simp add: Evm_QueryLatestHeight_def EClient_GetBlockNumber_def sample_evm_def Let_def sample_eth_def)
  from evm_start_height [OF this, of 0] show ?thesis
    by (simp add: sample_evm_def Let_def)
qed

end
