(* ===== verification/RelayEvm.thy ===== *)
theory RelayEvm
  imports RelaySample EvmListener
begin

text \<open>
  The relayer with EVM chains: a delivery to one from the cache to the transaction that waits for
  finality, and a transaction of one that fails.
\<close>

lemma evm_provider_sel [simp]:
  "NID (evm_provider p g ev) = ec_NID (ep_cfg p)"
  "FinalityBlock (evm_provider p g ev) w = ec_FinalityBlock (ep_cfg p)"
  "QueryTransactionReceipt (evm_provider p g ev) = Evm_QueryTransactionReceipt p g"
  "GenerateMessage (evm_provider p g ev) w k = (None, None)"
  "Route (evm_provider p g ev) = Evm_Route p g ev"
  by (simp_all add: evm_provider_def Evm_FinalityBlock_def Evm_GenerateMessage_def)

lemma Evm_WaitForTxResult_success:
  assumes "Evm_WaitForResults g ev = Inr receipt" and "er_Status receipt = 1"
  shows "Evm_WaitForTxResult g ev tx key =
    [(key, zero_TxResponse\<lparr>tr_Height := of_int (er_BlockNumber receipt), tr_TxHash := g_HashString g (etx_Hash tx),
       tr_Code := Success\<rparr>, None)]"
  using assms by (simp add: Evm_WaitForTxResult_def Let_def zero_TxResponse_def)

text \<open>A delivery to an EVM chain from end to end. A cached message is handed to the bridge contract with
  its source, serial number and data; when the transaction is mined with success within the
  rounds of the wait, the message leaves the cache of its source and the database of failed
  messages, and the transaction is stored, under the destination and serial number, with its hash
  and block and with the height of the message, to wait for finality.\<close>

lemma evm_delivery:
  assumes "kv_reliable S view" and "relayer_wf r" and "chain_at r dst = Some dc"
    and "cr_Provider dc = evm_provider p g ev" and "chain_at r src = Some sc"
    and "map_get (cr_MessageCache sc) (Message_MessageKey m) = Some a"
    and "heap_get (rl_heap r) a = Some x" and "rm_Message x = Some m" and "msg_EventType m = EmitMessage"
    and "Evm_GetTransationOpts p g (rl_world r) = Some (Inr opts)"
    and "abi_RecvMessage (cl_bridgeContract (ep_client p)) opts (msg_Src m) (sint (msg_Sn m)) (msg_Data m) (rl_world r)
        = (Inr tx, w')"
    and "Evm_WaitForResults g (ev tx) = Inr receipt" and "er_Status receipt = 1"
    and "0 < ec_FinalityBlock (ep_cfg p)"
  shows "\<exists>r'. Relayer_RouteMessage S a dst src r = Some r' \<and>
     (\<forall>n k. in_cache r' n k \<longleftrightarrow> in_cache r n k \<and> \<not> (n = src \<and> k = Message_MessageKey m)) \<and>
     failed_msgs (view (rl_db r')) = (failed_msgs (view (rl_db r)))((msg_Src m, msg_Sn m) := None) \<and>
     pending_txs (view (rl_db r')) = (pending_txs (view (rl_db r)))((msg_Dst m, msg_Sn m) \<mapsto>
       TransactionObject_clean (NewTransactionObject
         (NewMessagekeyWithMessageHeight (Message_MessageKey m) (msg_MessageHeight m))
         (g_HashString g (etx_Hash tx)) (of_int (er_BlockNumber receipt))))"
proof -
  let ?r1 = "mark_route a r" and ?key = "Message_MessageKey m"
  let ?r2 = "?r1\<lparr>rl_world := w'\<rparr>"
  let ?resp = "zero_TxResponse\<lparr>tr_Height := of_int (er_BlockNumber receipt), tr_TxHash := g_HashString g (etx_Hash tx),
       tr_Code := Success\<rparr>"
  let ?x = "x\<lparr>rm_Retry := rm_Retry x + 1, rm_IsProcessing := True\<rparr>"
  have x: "heap_get (rl_heap ?r1) a = Some ?x"
    using assms(7) by (simp add: mark_route_def RouteMessage_IncrementRetry_def RouteMessage_SetIsProcessing_def)
  have chains: "chain_at ?r1 n = chain_at r n" "rl_world ?r1 = rl_world r" "rl_db ?r1 = rl_db r" for n
    by (simp_all add: mark_route_def)
  have wf: "relayer_wf ?r2"
    by (rule keepsD [OF keeps_trans [OF keeps_mark_route keeps_world] assms(2)])
  have cached: "cached ?r2 src ?key = Some ?x"
    using x assms(5,6) by (simp add: cached_def chains cache_view_def)
  have dc: "chain_at ?r2 dst = Some dc" and sc: "chain_at ?r2 src = Some sc"
    using assms(3,5) chains(1) by simp_all
  have fin: "FinalityBlock (cr_Provider dc) (rl_world ?r2) > 0"
    using assms(4,14) by simp
  have resp: "tr_Code ?resp = Success" "tr_TxHash ?resp = g_HashString g (etx_Hash tx)"
    "tr_Height ?resp = of_int (er_BlockNumber receipt)"
    by simp_all
  obtain r' m' where r': "Relayer_callback S dst src ?key ?resp ?r2 = Some r'" "rm_Message ?x = Some m'"
    "\<And>n k. in_cache r' n k \<longleftrightarrow> in_cache ?r2 n k \<and> \<not> (n = src \<and> k = ?key)"
    "failed_msgs (view (rl_db r')) = (failed_msgs (view (rl_db ?r2)))((key_Src ?key, key_Sn ?key) := None)"
    "pending_txs (view (rl_db r')) = (pending_txs (view (rl_db ?r2)))((key_Dst ?key, key_Sn ?key) \<mapsto>
      TransactionObject_clean (NewTransactionObject
        (NewMessagekeyWithMessageHeight ?key (msg_MessageHeight m')) (tr_TxHash ?resp) (tr_Height ?resp)))"
    by (rule kv_reliable.callback_delivered [OF assms(1) wf dc sc resp(1) cached fin]) (rule that; assumption)
  have m': "m' = m"
    using r'(2) assms(8) by simp
  have "Evm_Route p g ev (rl_world ?r1) (Some m) = Some ([(?key, ?resp, None)], None, w')"
    using assms(9-11) by (simp add: Evm_Route_def chains Evm_SendTransaction_def EClient_ReceiveMessage_def
        Evm_WaitForTxResult_success [OF assms(12,13)])
  then have "Relayer_RouteMessage S a dst src r = Some r'"
    using r'(1) assms(3,4,8) x chains(1) by (simp add: Relayer_RouteMessage_def RouteMessage_GetMessage_def Let_def)
  moreover have "in_cache ?r2 = in_cache r"
    by (simp add: mark_route_def)
  moreover have "key_Src ?key = msg_Src m" "key_Sn ?key = msg_Sn m" "key_Dst ?key = msg_Dst m"
    by (simp_all add: Message_MessageKey_def NewMessageKey_def)
  ultimately show ?thesis
    using r'(3-5) chains(3) unfolding m' resp by (intro exI [of _ r']) simp
qed

text \<open>The relayer with two EVM chains: the sample message waits in the cache of the first.\<close>

definition sample_evm_chain :: "string \<Rightarrow> unit EVMProvider" where
  "sample_evm_chain nid =
     (sample_evm 12)\<lparr>ep_cfg := (ep_cfg (sample_evm 12))\<lparr>ec_NID := nid\<rparr>,
       ep_wallet := Some \<lparr>ew_Address = ''a'', ew_PrivateKey = ''k''\<rparr>\<rparr>"

definition sample_evm_events :: "u64 \<Rightarrow> EthTx \<Rightarrow> nat \<Rightarrow> evm_wait_event" where
  "sample_evm_events status tx i = EvmTick (Inr \<lparr>er_Status = status, er_BlockNumber = 9, er_TxHash = etx_Hash tx\<rparr>)"

definition sample_evm_Runtime :: "string \<Rightarrow> MessageCache \<Rightarrow> unit ChainRuntime" where
  "sample_evm_Runtime nid mc =
     \<lparr>cr_Provider = evm_provider (sample_evm_chain nid) sample_geth (sample_evm_events 1),
      LastBlockHeight = 0, LastSavedHeight = 0, cr_MessageCache = mc\<rparr>"

definition sample_evm_Relayer :: "(kvs, unit) Relayer" where
  "sample_evm_Relayer =
     \<lparr>rl_chains = [(''eth'', sample_evm_Runtime ''eth'' [(Message_MessageKey sample_Message, 0)]),
                    (''icon'', sample_evm_Runtime ''icon'' [])],
      rl_heap = [sample_RouteMessage], rl_db = [], rl_world = (), rl_go = []\<rparr>"

lemma sample_evm_chain_at:
  "chain_at sample_evm_Relayer nid =
     (if nid = ''eth'' then Some (sample_evm_Runtime ''eth'' [(Message_MessageKey sample_Message, 0)])
      else if nid = ''icon'' then Some (sample_evm_Runtime ''icon'' []) else None)"
  by (simp add: chain_at_def sample_evm_Relayer_def)

lemma sample_evm_Runtime_sel [simp]:
  "cr_Provider (sample_evm_Runtime nid mc) = evm_provider (sample_evm_chain nid) sample_geth (sample_evm_events 1)"
  "cr_MessageCache (sample_evm_Runtime nid mc) = mc"
  by (simp_all add: sample_evm_Runtime_def)

lemma sample_evm_chain_sel [simp]:
  "ec_NID (ep_cfg (sample_evm_chain nid)) = nid" "ec_FinalityBlock (ep_cfg (sample_evm_chain nid)) = 10"
  "ep_client (sample_evm_chain nid) = \<lparr>cl_eth = sample_eth 12, cl_EVMChainID = 1, cl_bridgeContract = sample_abi\<rparr>"
  by (simp_all add: sample_evm_chain_def sample_evm_def Let_def)

lemma sample_evm_wf: "relayer_wf sample_evm_Relayer"
  by (auto simp: relayer_wf_def caches_wf_def sample_evm_chain_at cache_wf_def RouteMessage_MessageKey_def)
    (simp_all add: sample_evm_Relayer_def heap_get_def)

lemma evm_delivery_instance:
  "\<exists>r'. Relayer_RouteMessage memS 0 ''icon'' ''eth'' sample_evm_Relayer = Some r' \<and>
     \<not> in_cache r' ''eth'' (Message_MessageKey sample_Message) \<and>
     map_option to_TxHeight (pending_txs (map_of (rl_db r')) (''icon'', 1)) = Some 9"
proof -
  let ?p = "sample_evm_chain ''icon''"
  have h: "heap_get (rl_heap sample_evm_Relayer) 0 = Some sample_RouteMessage"
    by (simp add: sample_evm_Relayer_def heap_get_def)
  have opts: "Evm_GetTransationOpts ?p sample_geth (rl_world sample_evm_Relayer)
      = Some (Inr \<lparr>txo_From = ''k'', txo_Nonce = Some 0, txo_GasPrice = Some 1, txo_GasLimit = 0\<rparr>)"
  proof -
    have "Evm_QueryLatestHeight ?p () = Inr 12" "EClient_NonceAt (ep_client ?p) x n () = Inr 0"
      "newTransactOpts ?p sample_geth wal () = Inr \<lparr>txo_From = ew_PrivateKey wal, txo_Nonce = None, txo_GasPrice = Some 1, txo_GasLimit = 0\<rparr>"
      for x n wal
      by (simp_all add: Evm_QueryLatestHeight_def EClient_GetBlockNumber_def EClient_NonceAt_def newTransactOpts_def
          EClient_GetChainID_def EClient_SuggestGasPrice_def sample_eth_def sample_geth_def)
    moreover have "ep_wallet ?p = Some \<lparr>ew_Address = ''a'', ew_PrivateKey = ''k''\<rparr>"
      "ec_GasPrice (ep_cfg ?p) = 0" "ec_GasLimit (ep_cfg ?p) = 0"
      by (simp_all add: sample_evm_chain_def sample_evm_def Let_def)
    ultimately show ?thesis
      by (simp add: Evm_GetTransationOpts_def Let_def)
  qed
  have wait: "Evm_WaitForResults sample_geth (sample_evm_events 1 tx) = Inr \<lparr>er_Status = 1, er_BlockNumber = 9, er_TxHash = etx_Hash tx\<rparr>" for tx
    by (simp add: Evm_WaitForResults_def sample_evm_events_def numeral_eq_Suc)
  have "\<exists>r'. Relayer_RouteMessage memS 0 ''icon'' ''eth'' sample_evm_Relayer = Some r' \<and>
     (\<forall>n k. in_cache r' n k \<longleftrightarrow> in_cache sample_evm_Relayer n k \<and> \<not> (n = ''eth'' \<and> k = Message_MessageKey sample_Message)) \<and>
     failed_msgs (map_of (rl_db r')) = (failed_msgs (map_of (rl_db sample_evm_Relayer)))((msg_Src sample_Message, msg_Sn sample_Message) := None) \<and>
     pending_txs (map_of (rl_db r')) = (pending_txs (map_of (rl_db sample_evm_Relayer)))((msg_Dst sample_Message, msg_Sn sample_Message) \<mapsto>
       TransactionObject_clean (NewTransactionObject
         (NewMessagekeyWithMessageHeight (Message_MessageKey sample_Message) (msg_MessageHeight sample_Message))
         (g_HashString sample_geth (etx_Hash \<lparr>etx_Hash = ''tx'', etx_GasPrice = 1\<rparr>)) (of_int 9)))"
  proof -
    have c: "chain_at sample_evm_Relayer ''icon'' = Some (sample_evm_Runtime ''icon'' [])"
      "chain_at sample_evm_Relayer ''eth'' = Some (sample_evm_Runtime ''eth'' [(Message_MessageKey sample_Message, 0)])"
      by (simp_all add: sample_evm_chain_at)
    have call: "abi_RecvMessage (cl_bridgeContract (ep_client ?p)) opts (msg_Src sample_Message) (sint (msg_Sn sample_Message))
        (msg_Data sample_Message) (rl_world sample_evm_Relayer) = (Inr \<lparr>etx_Hash = ''tx'', etx_GasPrice = 1\<rparr>, ())" for opts
      by (simp add: sample_abi_def)
    show ?thesis
      by (rule evm_delivery [OF mem_rel sample_evm_wf c(1) sample_evm_Runtime_sel(1) c(2) _ h _ _ opts call wait, simplified EthReceipt.simps])
        (simp_all add: sample_Message_def)
  qed
  then show ?thesis
    by (auto simp: sample_Message_def sample_geth_def NewTransactionObject_def TransactionObject_clean_def)
qed

text \<open>C25: A transaction that failed crashes the relayer when its source is an EVM chain: the finality check
  asks the source to generate the message again, which the provider of EVM chains answers with
  neither a message nor an error, and the merge reads the nil message.\<close>

theorem failed_transaction_from_evm_crashes:
  assumes "kv_reliable S view" and "chain_at r nid = Some c" and "to_TxHeight t \<noteq> 0"
    and "to_TxHeight t + finalityBlock \<le> latestHeight"
    and "QueryTransactionReceipt (cr_Provider c) (rl_world r) (to_TxHash t) = Inr (Some receipt)"
    and "\<not> rc_Status receipt" and "chain_at r (key_Src (mk_Key (to_Key t))) = Some sc"
    and "cr_Provider sc = evm_provider p g ev"
  shows "check_tx S nid finalityBlock latestHeight t r = None"
proof -
  obtain d where d: "FinalityStore_DeleteTxObject S prefixFinalityStore (rl_db r) (mk_Key (to_Key t)) = (None, d)"
    by (rule kv_reliable.delete_tx [OF assms(1)])
  have nil: "merge_into n [None] q = None" for n and q :: "('a, 'b) Relayer"
    by (simp add: merge_into_def mergeMessages_nil del: mergeMessages.simps split: option.split)
  show ?thesis
    using assms(2-8) by (simp add: check_tx_def d nil not_less Let_def)
qed

theorem failed_transaction_from_evm_crashes_witness:
  "check_tx memS ''icon'' 2 20 sample_TransactionObject sample_evm_Relayer = None"
proof -
  have t: "to_TxHeight sample_TransactionObject = 9" "key_Src (mk_Key (to_Key sample_TransactionObject)) = ''eth''"
    by (simp_all add: sample_TransactionObject_def NewTransactionObject_def NewMessagekeyWithMessageHeight_def NewMessageKey_def)
  have c: "chain_at sample_evm_Relayer ''icon'' = Some (sample_evm_Runtime ''icon'' [])"
    "chain_at sample_evm_Relayer (key_Src (mk_Key (to_Key sample_TransactionObject)))
      = Some (sample_evm_Runtime ''eth'' [(Message_MessageKey sample_Message, 0)])"
    by (simp_all add: sample_evm_chain_at t)
  have q: "QueryTransactionReceipt (cr_Provider (sample_evm_Runtime ''icon'' [])) (rl_world sample_evm_Relayer) h
      = Inr (Some \<lparr>rc_TxHash = h, rc_Height = 3, rc_Status = False\<rparr>)" for h
    by (simp add: Evm_QueryTransactionReceipt_def EClient_TransactionReceipt_def sample_eth_def)
  show ?thesis
    using failed_transaction_from_evm_crashes [OF mem_rel c(1) _ _ q _ c(2) sample_evm_Runtime_sel(1), where finalityBlock = 2 and latestHeight = 20] t(1)
    by simp
qed

end
