(* ===== verification/EvmBinding.thy ===== *)
theory EvmBinding
  imports EvmListener
begin

text \<open>
  \<^verbatim>\<open>relayer/chains/evm/abi/bridgeContract.go\<close>: the bindings that abigen generated for the bridge
  contract. go-ethereum's bound contract is the record \<open>BoundContract\<close> of the calls the bindings
  make; a value of \<open>interface{}\<close> is a \<open>go_value\<close>. A call that returns nothing or a value of another
  type panics, as the index and the assertion do. \<open>bridge_of\<close> is what the client of
  \<^verbatim>\<open>relayer/chains/evm/client.go\<close> uses of the bindings.
\<close>

subsection \<open>The bound contract\<close>

datatype go_value = GoAddress bytes | GoBig int | GoString string | GoBytes "bytes option" | GoBool bool

record CallOpts =
  co_Pending :: bool
  co_From :: bytes
  co_BlockNumber :: "int option"

record FilterOpts =
  fo_Start :: u64
  fo_End :: "u64 option"

record AbiInitialized =
  ai_Version :: u8
  ai_Raw :: EthLog

record AbiMessageEvent = AbiMessage +
  ame_Raw :: EthLog

definition zero_log :: EthLog where
  "zero_log = \<lparr>lg_Topics = [], lg_Data = [], lg_BlockNumber = 0\<rparr>"

text \<open>
  \<open>UnpackLog\<close> fills the struct it is given: it returns what it leaves there, and an error. The channel
  of a filter has buffered logs; its subscription has ended with the error it was closed with, or not.
\<close>

record log_source =
  ls_logs :: "EthLog list"
  ls_sub :: "error option option"

record 'w BoundContract =
  bc_Call :: "CallOpts option \<Rightarrow> string \<Rightarrow> go_value list \<Rightarrow> 'w \<Rightarrow> error + go_value list"
  bc_Transact :: "TransactOpts \<Rightarrow> string \<Rightarrow> go_value list \<Rightarrow> 'w \<Rightarrow> (error + EthTx) \<times> 'w"
  bc_Transfer :: "TransactOpts \<Rightarrow> 'w \<Rightarrow> (error + EthTx) \<times> 'w"
  bc_UnpackInitialized :: "string \<Rightarrow> EthLog \<Rightarrow> AbiInitialized \<Rightarrow> error option \<times> AbiInitialized"
  bc_UnpackMessage :: "string \<Rightarrow> EthLog \<Rightarrow> AbiMessageEvent \<Rightarrow> error option \<times> AbiMessageEvent"
  bc_FilterLogs :: "FilterOpts \<Rightarrow> string \<Rightarrow> 'w \<Rightarrow> error + log_source"
  bc_WatchLogs :: "u64 option \<Rightarrow> string \<Rightarrow> 'w \<Rightarrow> error option"

text \<open>A caller, a transactor and a filterer are each a bound contract, the whole binding all three.\<close>

type_synonym 'w AbiCaller = "'w BoundContract"
type_synonym 'w AbiTransactor = "'w BoundContract"
type_synonym 'w AbiFilterer = "'w BoundContract"

record 'w AbiBinding =
  ab_Caller :: "'w AbiCaller"
  ab_Transactor :: "'w AbiTransactor"
  ab_Filterer :: "'w AbiFilterer"

record 'w AbiSession =
  as_Contract :: "'w AbiBinding"
  as_CallOpts :: CallOpts
  as_TransactOpts :: TransactOpts

record 'w AbiCallerSession =
  acs_Contract :: "'w AbiCaller"
  acs_CallOpts :: CallOpts

record 'w AbiTransactorSession =
  ats_Contract :: "'w AbiTransactor"
  ats_TransactOpts :: TransactOpts

record 'w AbiRaw =
  ar_Contract :: "'w AbiBinding"

record 'w AbiCallerRaw =
  acr_Contract :: "'w AbiCaller"

record 'w AbiTransactorRaw =
  atr_Contract :: "'w AbiTransactor"

subsection \<open>Binding\<close>

text \<open>\<open>GetAbi\<close> parses the ABI of the metadata; a nil backend is \<open>None\<close>.\<close>

record ('a, 'c, 'w) bind_lib =
  bind_GetAbi :: "error + 'a"
  bind_NewBoundContract :: "bytes \<Rightarrow> 'a \<Rightarrow> 'c option \<Rightarrow> 'c option \<Rightarrow> 'c option \<Rightarrow> 'w BoundContract"

definition bindAbi ::
    "('a, 'c, 'w) bind_lib \<Rightarrow> bytes \<Rightarrow> 'c option \<Rightarrow> 'c option \<Rightarrow> 'c option \<Rightarrow> error + 'w BoundContract" where
  "bindAbi B address caller transactor filterer =
     (case bind_GetAbi B of
        Inl e \<Rightarrow> Inl e
      | Inr parsed \<Rightarrow> Inr (bind_NewBoundContract B address parsed caller transactor filterer))"

definition NewAbi :: "('a, 'c, 'w) bind_lib \<Rightarrow> bytes \<Rightarrow> 'c \<Rightarrow> error + 'w AbiBinding" where
  "NewAbi B address backend =
     (case bindAbi B address (Some backend) (Some backend) (Some backend) of
        Inl e \<Rightarrow> Inl e
      | Inr contract \<Rightarrow> Inr \<lparr>ab_Caller = contract, ab_Transactor = contract, ab_Filterer = contract\<rparr>)"

definition NewAbiCaller :: "('a, 'c, 'w) bind_lib \<Rightarrow> bytes \<Rightarrow> 'c \<Rightarrow> error + 'w AbiCaller" where
  "NewAbiCaller B address caller =
     (case bindAbi B address (Some caller) None None of Inl e \<Rightarrow> Inl e | Inr contract \<Rightarrow> Inr contract)"

definition NewAbiTransactor :: "('a, 'c, 'w) bind_lib \<Rightarrow> bytes \<Rightarrow> 'c \<Rightarrow> error + 'w AbiTransactor" where
  "NewAbiTransactor B address transactor =
     (case bindAbi B address None (Some transactor) None of Inl e \<Rightarrow> Inl e | Inr contract \<Rightarrow> Inr contract)"

definition NewAbiFilterer :: "('a, 'c, 'w) bind_lib \<Rightarrow> bytes \<Rightarrow> 'c \<Rightarrow> error + 'w AbiFilterer" where
  "NewAbiFilterer B address filterer =
     (case bindAbi B address None None (Some filterer) of Inl e \<Rightarrow> Inl e | Inr contract \<Rightarrow> Inr contract)"

subsection \<open>The raw methods\<close>

definition AbiRaw_Call :: "'w AbiRaw \<Rightarrow> CallOpts option \<Rightarrow> string \<Rightarrow> go_value list \<Rightarrow> 'w \<Rightarrow> error + go_value list" where
  "AbiRaw_Call raw opts name params w = bc_Call (ab_Caller (ar_Contract raw)) opts name params w"

definition AbiRaw_Transfer :: "'w AbiRaw \<Rightarrow> TransactOpts \<Rightarrow> 'w \<Rightarrow> (error + EthTx) \<times> 'w" where
  "AbiRaw_Transfer raw opts w = bc_Transfer (ab_Transactor (ar_Contract raw)) opts w"

definition AbiRaw_Transact :: "'w AbiRaw \<Rightarrow> TransactOpts \<Rightarrow> string \<Rightarrow> go_value list \<Rightarrow> 'w \<Rightarrow> (error + EthTx) \<times> 'w" where
  "AbiRaw_Transact raw opts name params w = bc_Transact (ab_Transactor (ar_Contract raw)) opts name params w"

definition AbiCallerRaw_Call :: "'w AbiCallerRaw \<Rightarrow> CallOpts option \<Rightarrow> string \<Rightarrow> go_value list \<Rightarrow> 'w \<Rightarrow> error + go_value list" where
  "AbiCallerRaw_Call raw opts name params w = bc_Call (acr_Contract raw) opts name params w"

definition AbiTransactorRaw_Transfer :: "'w AbiTransactorRaw \<Rightarrow> TransactOpts \<Rightarrow> 'w \<Rightarrow> (error + EthTx) \<times> 'w" where
  "AbiTransactorRaw_Transfer raw opts w = bc_Transfer (atr_Contract raw) opts w"

definition AbiTransactorRaw_Transact ::
    "'w AbiTransactorRaw \<Rightarrow> TransactOpts \<Rightarrow> string \<Rightarrow> go_value list \<Rightarrow> 'w \<Rightarrow> (error + EthTx) \<times> 'w" where
  "AbiTransactorRaw_Transact raw opts name params w = bc_Transact (atr_Contract raw) opts name params w"

subsection \<open>Reading\<close>

definition AbiCaller_Admin :: "'w AbiCaller \<Rightarrow> CallOpts option \<Rightarrow> 'w \<Rightarrow> (error + bytes) go" where
  "AbiCaller_Admin c opts w =
     (case bc_Call c opts ''admin'' [] w of
        Inl e \<Rightarrow> Some (Inl e)
      | Inr out \<Rightarrow> (case out of GoAddress out0 # _ \<Rightarrow> Some (Inr out0) | _ \<Rightarrow> None))"

definition AbiSession_Admin :: "'w AbiSession \<Rightarrow> 'w \<Rightarrow> (error + bytes) go" where
  "AbiSession_Admin s w = AbiCaller_Admin (ab_Caller (as_Contract s)) (Some (as_CallOpts s)) w"

definition AbiCallerSession_Admin :: "'w AbiCallerSession \<Rightarrow> 'w \<Rightarrow> (error + bytes) go" where
  "AbiCallerSession_Admin s w = AbiCaller_Admin (acs_Contract s) (Some (acs_CallOpts s)) w"

definition AbiCaller_ConnSn :: "'w AbiCaller \<Rightarrow> CallOpts option \<Rightarrow> 'w \<Rightarrow> (error + int) go" where
  "AbiCaller_ConnSn c opts w =
     (case bc_Call c opts ''connSn'' [] w of
        Inl e \<Rightarrow> Some (Inl e)
      | Inr out \<Rightarrow> (case out of GoBig out0 # _ \<Rightarrow> Some (Inr out0) | _ \<Rightarrow> None))"

definition AbiSession_ConnSn :: "'w AbiSession \<Rightarrow> 'w \<Rightarrow> (error + int) go" where
  "AbiSession_ConnSn s w = AbiCaller_ConnSn (ab_Caller (as_Contract s)) (Some (as_CallOpts s)) w"

definition AbiCallerSession_ConnSn :: "'w AbiCallerSession \<Rightarrow> 'w \<Rightarrow> (error + int) go" where
  "AbiCallerSession_ConnSn s w = AbiCaller_ConnSn (acs_Contract s) (Some (acs_CallOpts s)) w"

definition AbiCaller_GetFee :: "'w AbiCaller \<Rightarrow> CallOpts option \<Rightarrow> string \<Rightarrow> bool \<Rightarrow> 'w \<Rightarrow> (error + int) go" where
  "AbiCaller_GetFee c opts to response w =
     (case bc_Call c opts ''getFee'' [GoString to, GoBool response] w of
        Inl e \<Rightarrow> Some (Inl e)
      | Inr out \<Rightarrow> (case out of GoBig out0 # _ \<Rightarrow> Some (Inr out0) | _ \<Rightarrow> None))"

definition AbiSession_GetFee :: "'w AbiSession \<Rightarrow> string \<Rightarrow> bool \<Rightarrow> 'w \<Rightarrow> (error + int) go" where
  "AbiSession_GetFee s to response w = AbiCaller_GetFee (ab_Caller (as_Contract s)) (Some (as_CallOpts s)) to response w"

definition AbiCallerSession_GetFee :: "'w AbiCallerSession \<Rightarrow> string \<Rightarrow> bool \<Rightarrow> 'w \<Rightarrow> (error + int) go" where
  "AbiCallerSession_GetFee s to response w = AbiCaller_GetFee (acs_Contract s) (Some (acs_CallOpts s)) to response w"

definition AbiCaller_GetReceipt :: "'w AbiCaller \<Rightarrow> CallOpts option \<Rightarrow> string \<Rightarrow> int \<Rightarrow> 'w \<Rightarrow> (error + bool) go" where
  "AbiCaller_GetReceipt c opts srcNetwork connSn w =
     (case bc_Call c opts ''getReceipt'' [GoString srcNetwork, GoBig connSn] w of
        Inl e \<Rightarrow> Some (Inl e)
      | Inr out \<Rightarrow> (case out of GoBool out0 # _ \<Rightarrow> Some (Inr out0) | _ \<Rightarrow> None))"

definition AbiSession_GetReceipt :: "'w AbiSession \<Rightarrow> string \<Rightarrow> int \<Rightarrow> 'w \<Rightarrow> (error + bool) go" where
  "AbiSession_GetReceipt s srcNetwork connSn w = AbiCaller_GetReceipt (ab_Caller (as_Contract s)) (Some (as_CallOpts s)) srcNetwork connSn w"

definition AbiCallerSession_GetReceipt :: "'w AbiCallerSession \<Rightarrow> string \<Rightarrow> int \<Rightarrow> 'w \<Rightarrow> (error + bool) go" where
  "AbiCallerSession_GetReceipt s srcNetwork connSn w = AbiCaller_GetReceipt (acs_Contract s) (Some (acs_CallOpts s)) srcNetwork connSn w"

subsection \<open>Transactions\<close>

definition AbiTransactor_ClaimFees :: "'w AbiTransactor \<Rightarrow> TransactOpts \<Rightarrow> 'w \<Rightarrow> (error + EthTx) \<times> 'w" where
  "AbiTransactor_ClaimFees t opts w = bc_Transact t opts ''claimFees'' [] w"

definition AbiSession_ClaimFees :: "'w AbiSession \<Rightarrow> 'w \<Rightarrow> (error + EthTx) \<times> 'w" where
  "AbiSession_ClaimFees s w = AbiTransactor_ClaimFees (ab_Transactor (as_Contract s)) (as_TransactOpts s) w"

definition AbiTransactorSession_ClaimFees :: "'w AbiTransactorSession \<Rightarrow> 'w \<Rightarrow> (error + EthTx) \<times> 'w" where
  "AbiTransactorSession_ClaimFees s w = AbiTransactor_ClaimFees (ats_Contract s) (ats_TransactOpts s) w"

definition AbiTransactor_Initialize :: "'w AbiTransactor \<Rightarrow> TransactOpts \<Rightarrow> bytes \<Rightarrow> bytes \<Rightarrow> 'w \<Rightarrow> (error + EthTx) \<times> 'w" where
  "AbiTransactor_Initialize t opts relayer xCall w = bc_Transact t opts ''initialize'' [GoAddress relayer, GoAddress xCall] w"

definition AbiSession_Initialize :: "'w AbiSession \<Rightarrow> bytes \<Rightarrow> bytes \<Rightarrow> 'w \<Rightarrow> (error + EthTx) \<times> 'w" where
  "AbiSession_Initialize s relayer xCall w = AbiTransactor_Initialize (ab_Transactor (as_Contract s)) (as_TransactOpts s) relayer xCall w"

definition AbiTransactorSession_Initialize :: "'w AbiTransactorSession \<Rightarrow> bytes \<Rightarrow> bytes \<Rightarrow> 'w \<Rightarrow> (error + EthTx) \<times> 'w" where
  "AbiTransactorSession_Initialize s relayer xCall w = AbiTransactor_Initialize (ats_Contract s) (ats_TransactOpts s) relayer xCall w"

definition AbiTransactor_RecvMessage :: "'w AbiTransactor \<Rightarrow> TransactOpts \<Rightarrow> string \<Rightarrow> int \<Rightarrow> bytes option \<Rightarrow> 'w \<Rightarrow> (error + EthTx) \<times> 'w" where
  "AbiTransactor_RecvMessage t opts srcNetwork connSn msg w = bc_Transact t opts ''recvMessage'' [GoString srcNetwork, GoBig connSn, GoBytes msg] w"

definition AbiSession_RecvMessage :: "'w AbiSession \<Rightarrow> string \<Rightarrow> int \<Rightarrow> bytes option \<Rightarrow> 'w \<Rightarrow> (error + EthTx) \<times> 'w" where
  "AbiSession_RecvMessage s srcNetwork connSn msg w = AbiTransactor_RecvMessage (ab_Transactor (as_Contract s)) (as_TransactOpts s) srcNetwork connSn msg w"

definition AbiTransactorSession_RecvMessage :: "'w AbiTransactorSession \<Rightarrow> string \<Rightarrow> int \<Rightarrow> bytes option \<Rightarrow> 'w \<Rightarrow> (error + EthTx) \<times> 'w" where
  "AbiTransactorSession_RecvMessage s srcNetwork connSn msg w = AbiTransactor_RecvMessage (ats_Contract s) (ats_TransactOpts s) srcNetwork connSn msg w"

definition AbiTransactor_RevertMessage :: "'w AbiTransactor \<Rightarrow> TransactOpts \<Rightarrow> int \<Rightarrow> 'w \<Rightarrow> (error + EthTx) \<times> 'w" where
  "AbiTransactor_RevertMessage t opts sn w = bc_Transact t opts ''revertMessage'' [GoBig sn] w"

definition AbiSession_RevertMessage :: "'w AbiSession \<Rightarrow> int \<Rightarrow> 'w \<Rightarrow> (error + EthTx) \<times> 'w" where
  "AbiSession_RevertMessage s sn w = AbiTransactor_RevertMessage (ab_Transactor (as_Contract s)) (as_TransactOpts s) sn w"

definition AbiTransactorSession_RevertMessage :: "'w AbiTransactorSession \<Rightarrow> int \<Rightarrow> 'w \<Rightarrow> (error + EthTx) \<times> 'w" where
  "AbiTransactorSession_RevertMessage s sn w = AbiTransactor_RevertMessage (ats_Contract s) (ats_TransactOpts s) sn w"

definition AbiTransactor_SendMessage :: "'w AbiTransactor \<Rightarrow> TransactOpts \<Rightarrow> string \<Rightarrow> string \<Rightarrow> int \<Rightarrow> bytes option \<Rightarrow> 'w \<Rightarrow> (error + EthTx) \<times> 'w" where
  "AbiTransactor_SendMessage t opts to svc sn msg w = bc_Transact t opts ''sendMessage'' [GoString to, GoString svc, GoBig sn, GoBytes msg] w"

definition AbiSession_SendMessage :: "'w AbiSession \<Rightarrow> string \<Rightarrow> string \<Rightarrow> int \<Rightarrow> bytes option \<Rightarrow> 'w \<Rightarrow> (error + EthTx) \<times> 'w" where
  "AbiSession_SendMessage s to svc sn msg w = AbiTransactor_SendMessage (ab_Transactor (as_Contract s)) (as_TransactOpts s) to svc sn msg w"

definition AbiTransactorSession_SendMessage :: "'w AbiTransactorSession \<Rightarrow> string \<Rightarrow> string \<Rightarrow> int \<Rightarrow> bytes option \<Rightarrow> 'w \<Rightarrow> (error + EthTx) \<times> 'w" where
  "AbiTransactorSession_SendMessage s to svc sn msg w = AbiTransactor_SendMessage (ats_Contract s) (ats_TransactOpts s) to svc sn msg w"

definition AbiTransactor_SetAdmin :: "'w AbiTransactor \<Rightarrow> TransactOpts \<Rightarrow> bytes \<Rightarrow> 'w \<Rightarrow> (error + EthTx) \<times> 'w" where
  "AbiTransactor_SetAdmin t opts address w = bc_Transact t opts ''setAdmin'' [GoAddress address] w"

definition AbiSession_SetAdmin :: "'w AbiSession \<Rightarrow> bytes \<Rightarrow> 'w \<Rightarrow> (error + EthTx) \<times> 'w" where
  "AbiSession_SetAdmin s address w = AbiTransactor_SetAdmin (ab_Transactor (as_Contract s)) (as_TransactOpts s) address w"

definition AbiTransactorSession_SetAdmin :: "'w AbiTransactorSession \<Rightarrow> bytes \<Rightarrow> 'w \<Rightarrow> (error + EthTx) \<times> 'w" where
  "AbiTransactorSession_SetAdmin s address w = AbiTransactor_SetAdmin (ats_Contract s) (ats_TransactOpts s) address w"

definition AbiTransactor_SetFee :: "'w AbiTransactor \<Rightarrow> TransactOpts \<Rightarrow> string \<Rightarrow> int \<Rightarrow> int \<Rightarrow> 'w \<Rightarrow> (error + EthTx) \<times> 'w" where
  "AbiTransactor_SetFee t opts networkId messageFee responseFee w = bc_Transact t opts ''setFee'' [GoString networkId, GoBig messageFee, GoBig responseFee] w"

definition AbiSession_SetFee :: "'w AbiSession \<Rightarrow> string \<Rightarrow> int \<Rightarrow> int \<Rightarrow> 'w \<Rightarrow> (error + EthTx) \<times> 'w" where
  "AbiSession_SetFee s networkId messageFee responseFee w = AbiTransactor_SetFee (ab_Transactor (as_Contract s)) (as_TransactOpts s) networkId messageFee responseFee w"

definition AbiTransactorSession_SetFee :: "'w AbiTransactorSession \<Rightarrow> string \<Rightarrow> int \<Rightarrow> int \<Rightarrow> 'w \<Rightarrow> (error + EthTx) \<times> 'w" where
  "AbiTransactorSession_SetFee s networkId messageFee responseFee w = AbiTransactor_SetFee (ats_Contract s) (ats_TransactOpts s) networkId messageFee responseFee w"

subsection \<open>Events\<close>

text \<open>A new struct is filled by \<open>UnpackLog\<close>; the log is kept with it when that succeeds.\<close>

definition unpack_Initialized :: "'w AbiFilterer \<Rightarrow> string \<Rightarrow> EthLog \<Rightarrow> error option \<times> AbiInitialized" where
  "unpack_Initialized c name log =
     (case bc_UnpackInitialized c name log \<lparr>ai_Version = 0, ai_Raw = zero_log\<rparr> of
        (Some e, ev) \<Rightarrow> (Some e, ev)
      | (None, ev) \<Rightarrow> (None, ev\<lparr>ai_Raw := log\<rparr>))"

definition unpack_Message :: "'w AbiFilterer \<Rightarrow> string \<Rightarrow> EthLog \<Rightarrow> error option \<times> AbiMessageEvent" where
  "unpack_Message c name log =
     (case bc_UnpackMessage c name log \<lparr>am_TargetNetwork = [], am_Sn = 0, am_Msg = [], ame_Raw = zero_log\<rparr> of
        (Some e, ev) \<Rightarrow> (Some e, ev)
      | (None, ev) \<Rightarrow> (None, ev\<lparr>ame_Raw := log\<rparr>))"

definition AbiFilterer_ParseInitialized :: "'w AbiFilterer \<Rightarrow> EthLog \<Rightarrow> error + AbiInitialized" where
  "AbiFilterer_ParseInitialized c log =
     (case unpack_Initialized c ''Initialized'' log of (Some e, ev) \<Rightarrow> Inl e | (None, ev) \<Rightarrow> Inr ev)"

definition AbiFilterer_ParseMessage :: "'w AbiFilterer \<Rightarrow> EthLog \<Rightarrow> error + AbiMessageEvent" where
  "AbiFilterer_ParseMessage c log =
     (case unpack_Message c ''Message'' log of (Some e, ev) \<Rightarrow> Inl e | (None, ev) \<Rightarrow> Inr ev)"

subsection \<open>Iterating over events\<close>

text \<open>
  The two iterators differ in the event. \<open>Next\<close> waits for a log or the end of the subscription: where
  both are there, \<open>pick\<close> is the choice of the \<open>select\<close>; where neither is, it does not return.
\<close>

datatype 'a blocking = Blocks | Returns 'a

record 'v log_iterator =
  it_Event :: "'v option"
  it_event :: string
  it_logs :: "EthLog list"
  it_sub :: "error option option"
  it_done :: bool
  it_fail :: "error option"
  it_unsubscribed :: bool

definition take_log :: "(EthLog \<Rightarrow> error option \<times> 'v) \<Rightarrow> EthLog \<Rightarrow> EthLog list \<Rightarrow> 'v log_iterator \<Rightarrow> bool \<times> 'v log_iterator" where
  "take_log unpack log logs it =
     (case unpack log of
        (Some e, ev) \<Rightarrow> (False, it\<lparr>it_logs := logs, it_Event := Some ev, it_fail := Some e\<rparr>)
      | (None, ev) \<Rightarrow> (True, it\<lparr>it_logs := logs, it_Event := Some ev\<rparr>))"

function iterator_Next :: "(EthLog \<Rightarrow> error option \<times> 'v) \<Rightarrow> bool \<Rightarrow> 'v log_iterator \<Rightarrow> (bool \<times> 'v log_iterator) blocking" where
  "iterator_Next unpack pick it =
     (if it_fail it \<noteq> None then Returns (False, it)
      else if it_done it then
        (case it_logs it of
           log # logs \<Rightarrow> Returns (take_log unpack log logs it)
         | [] \<Rightarrow> Returns (False, it))
      else
        (case (it_logs it, it_sub it) of
           ([], None) \<Rightarrow> Blocks
         | (log # logs, None) \<Rightarrow> Returns (take_log unpack log logs it)
         | ([], Some err) \<Rightarrow> iterator_Next unpack pick (it\<lparr>it_done := True, it_fail := err\<rparr>)
         | (log # logs, Some err) \<Rightarrow>
             if pick then Returns (take_log unpack log logs it)
             else iterator_Next unpack pick (it\<lparr>it_done := True, it_fail := err\<rparr>)))"
  by pat_completeness auto

termination by (relation "measure (\<lambda>(unpack, pick, it). if it_done it then 0 else 1)") auto

declare iterator_Next.simps [simp del]

definition AbiInitializedIterator_Next ::
    "'w AbiFilterer \<Rightarrow> bool \<Rightarrow> AbiInitialized log_iterator \<Rightarrow> (bool \<times> AbiInitialized log_iterator) blocking" where
  "AbiInitializedIterator_Next c pick it = iterator_Next (unpack_Initialized c (it_event it)) pick it"

definition AbiMessageIterator_Next ::
    "'w AbiFilterer \<Rightarrow> bool \<Rightarrow> AbiMessageEvent log_iterator \<Rightarrow> (bool \<times> AbiMessageEvent log_iterator) blocking" where
  "AbiMessageIterator_Next c pick it = iterator_Next (unpack_Message c (it_event it)) pick it"

definition iterator_Error :: "'v log_iterator \<Rightarrow> error option" where
  "iterator_Error it = it_fail it"

definition iterator_Close :: "'v log_iterator \<Rightarrow> error option \<times> 'v log_iterator" where
  "iterator_Close it = (None, it\<lparr>it_unsubscribed := True\<rparr>)"

definition new_iterator :: "string \<Rightarrow> log_source \<Rightarrow> 'v log_iterator" where
  "new_iterator name src =
     \<lparr>it_Event = None, it_event = name, it_logs = ls_logs src, it_sub = ls_sub src, it_done = False, it_fail = None,
      it_unsubscribed = False\<rparr>"

definition AbiFilterer_FilterInitialized :: "'w AbiFilterer \<Rightarrow> FilterOpts \<Rightarrow> 'w \<Rightarrow> error + AbiInitialized log_iterator" where
  "AbiFilterer_FilterInitialized c opts w =
     (case bc_FilterLogs c opts ''Initialized'' w of Inl e \<Rightarrow> Inl e | Inr src \<Rightarrow> Inr (new_iterator ''Initialized'' src))"

definition AbiFilterer_FilterMessage :: "'w AbiFilterer \<Rightarrow> FilterOpts \<Rightarrow> 'w \<Rightarrow> error + AbiMessageEvent log_iterator" where
  "AbiFilterer_FilterMessage c opts w =
     (case bc_FilterLogs c opts ''Message'' w of Inl e \<Rightarrow> Inl e | Inr src \<Rightarrow> Inr (new_iterator ''Message'' src))"

subsection \<open>Watching for events\<close>

text \<open>
  The producer of a subscription, over what each \<open>select\<close> receives: a log, for which the second
  \<open>select\<close> hands the event to the sink or is told to end, an error of the subscription, or the end.
  It unsubscribes when it ends.
\<close>

datatype sink_round = Sunk | SinkErr "error option" | SinkQuit

datatype watch_round = WatchLog EthLog sink_round | WatchErr "error option" | WatchQuit

datatype watch_exit = StillWatching | WatchEnded "error option"

fun watch_loop :: "(EthLog \<Rightarrow> error option \<times> 'v) \<Rightarrow> watch_round list \<Rightarrow> 'v list \<times> watch_exit" where
  "watch_loop unpack [] = ([], StillWatching)"
| "watch_loop unpack (WatchLog log s # rs) =
     (case unpack log of
        (Some e, ev) \<Rightarrow> ([], WatchEnded (Some e))
      | (None, ev) \<Rightarrow>
          (case s of
             Sunk \<Rightarrow> (case watch_loop unpack rs of (evs, ex) \<Rightarrow> (ev # evs, ex))
           | SinkErr e \<Rightarrow> ([], WatchEnded e)
           | SinkQuit \<Rightarrow> ([], WatchEnded None)))"
| "watch_loop unpack (WatchErr e # rs) = ([], WatchEnded e)"
| "watch_loop unpack (WatchQuit # rs) = ([], WatchEnded None)"

definition AbiFilterer_WatchInitialized ::
    "'w AbiFilterer \<Rightarrow> u64 option \<Rightarrow> watch_round list \<Rightarrow> 'w \<Rightarrow> error + (AbiInitialized list \<times> watch_exit)" where
  "AbiFilterer_WatchInitialized c opts rs w =
     (case bc_WatchLogs c opts ''Initialized'' w of
        Some e \<Rightarrow> Inl e
      | None \<Rightarrow> Inr (watch_loop (unpack_Initialized c ''Initialized'') rs))"

definition AbiFilterer_WatchMessage ::
    "'w AbiFilterer \<Rightarrow> u64 option \<Rightarrow> watch_round list \<Rightarrow> 'w \<Rightarrow> error + (AbiMessageEvent list \<times> watch_exit)" where
  "AbiFilterer_WatchMessage c opts rs w =
     (case bc_WatchLogs c opts ''Message'' w of
        Some e \<Rightarrow> Inl e
      | None \<Rightarrow> Inr (watch_loop (unpack_Message c ''Message'') rs))"

subsection \<open>What the iterators deliver\<close>

text \<open>The caller's loop \<open>for it.Next()\<close>, with the choices of its \<open>select\<close>s.\<close>

fun iterate :: "(EthLog \<Rightarrow> error option \<times> 'v) \<Rightarrow> bool list \<Rightarrow> 'v log_iterator \<Rightarrow> 'v option list \<times> 'v log_iterator" where
  "iterate unpack [] it = ([], it)"
| "iterate unpack (pick # ps) it =
     (case iterator_Next unpack pick it of
        Returns (True, it') \<Rightarrow> (case iterate unpack ps it' of (evs, it'') \<Rightarrow> (it_Event it' # evs, it''))
      | Returns (False, it') \<Rightarrow> ([], it')
      | Blocks \<Rightarrow> ([], it))"

text \<open>
  When the subscription ends without an error and every log unpacks, the loop sees the event of every
  log once, in order, whatever is chosen, and ends without an error.
\<close>

lemma Next_done:
  assumes "it_fail it = None" and "it_done it"
  shows "iterator_Next unpack pick it =
    (case it_logs it of [] \<Rightarrow> Returns (False, it) | log # logs \<Rightarrow> Returns (take_log unpack log logs it))"
  by (subst iterator_Next.simps) (use assms in simp)

lemma Next_ended:
  assumes "it_fail it = None" and "it_sub it = Some None"
  shows "iterator_Next unpack pick it =
    (case it_logs it of
       [] \<Rightarrow> Returns (False, it\<lparr>it_done := True\<rparr>)
     | log # logs \<Rightarrow> Returns (take_log unpack log logs (if it_done it \<or> pick then it else it\<lparr>it_done := True\<rparr>)))"
proof (cases "it_done it")
  case True
  then have same: "it\<lparr>it_done := True\<rparr> = it"
    by simp
  show ?thesis
    unfolding Next_done [OF assms(1) True] same by (simp add: True)
next
  case False
  have same: "it\<lparr>it_done := True, it_fail := None\<rparr> = it\<lparr>it_done := True\<rparr>"
    using assms(1) by simp
  have "iterator_Next unpack p (it\<lparr>it_done := True, it_fail := None\<rparr>) =
      (case it_logs it of [] \<Rightarrow> Returns (False, it\<lparr>it_done := True\<rparr>)
       | log # logs \<Rightarrow> Returns (take_log unpack log logs (it\<lparr>it_done := True\<rparr>)))" for p
    unfolding same using Next_done [of "it\<lparr>it_done := True\<rparr>" unpack p] assms(1) by simp
  then show ?thesis
    by (subst iterator_Next.simps) (use False assms in \<open>simp split: list.split\<close>)
qed

lemma iterate_all:
  assumes "it_fail it = None" and "it_sub it = Some None" and "\<forall>log \<in> set (it_logs it). fst (unpack log) = None"
    and "length (it_logs it) < length ps"
  shows "\<exists>it'. iterate unpack ps it = (map (\<lambda>log. Some (snd (unpack log))) (it_logs it), it')
    \<and> iterator_Error it' = None \<and> it_logs it' = []"
  using assms
proof (induction ps arbitrary: it)
  case (Cons p ps)
  show ?case
  proof (cases "it_logs it")
    case Nil
    with Cons.prems show ?thesis
      by (simp add: Next_ended iterator_Error_def)
  next
    case l: (Cons log logs)
    obtain ev where ev: "unpack log = (None, ev)"
      using Cons.prems(3) l by (metis list.set_intros(1) prod.collapse)
    let ?it1 = "(if it_done it \<or> p then it else it\<lparr>it_done := True\<rparr>)\<lparr>it_logs := logs, it_Event := Some ev\<rparr>"
    have "\<exists>it'. iterate unpack ps ?it1 = (map (\<lambda>log. Some (snd (unpack log))) (it_logs ?it1), it')
        \<and> iterator_Error it' = None \<and> it_logs it' = []"
      by (rule Cons.IH) (use Cons.prems l in auto)
    then obtain it' where "iterate unpack ps ?it1 = (map (\<lambda>log. Some (snd (unpack log))) logs, it')"
        "iterator_Error it' = None" "it_logs it' = []"
      by auto
    moreover have "iterator_Next unpack p it = Returns (True, ?it1)"
      using Next_ended [OF Cons.prems(1,2)] l ev by (simp add: take_log_def)
    ultimately show ?thesis
      using l ev by simp
  qed
qed simp

text \<open>A watcher hands over the events of the logs in order until the first thing that is not a log handed over.\<close>

lemma watch_all:
  "\<forall>log \<in> set logs. fst (unpack log) = None \<Longrightarrow>
     watch_loop unpack (map (\<lambda>log. WatchLog log Sunk) logs @ rs) =
       (case watch_loop unpack rs of (evs, ex) \<Rightarrow> (map (snd \<circ> unpack) logs @ evs, ex))"
proof (induction logs)
  case (Cons log logs)
  obtain ev where "unpack log = (None, ev)"
    using Cons.prems by (metis list.set_intros(1) prod.collapse)
  with Cons show ?case
    by (simp split: prod.split)
qed (simp split: prod.split)

subsection \<open>The bridge of the client\<close>

text \<open>The bindings answer as the methods the client calls: those of \<open>A\<close>.\<close>

definition binds :: "'w AbiBinding \<Rightarrow> 'w Abi \<Rightarrow> bool" where
  "binds b A \<longleftrightarrow>
     (\<forall>log. abi_ParseMessage A log = map_sum id AbiMessage.truncate (AbiFilterer_ParseMessage (ab_Filterer b) log)) \<and>
     (\<forall>opts dst svc sn msg w. abi_SendMessage A opts dst svc sn msg w = AbiTransactor_SendMessage (ab_Transactor b) opts dst svc sn msg w) \<and>
     (\<forall>opts src sn msg w. abi_RecvMessage A opts src sn msg w = AbiTransactor_RecvMessage (ab_Transactor b) opts src sn msg w) \<and>
     (\<forall>src sn w. Some (abi_GetReceipt A src sn w) = AbiCaller_GetReceipt (ab_Caller b) None src sn w)"

lemma binds_simps:
  assumes "binds b A"
  shows "abi_RecvMessage A opts src sn msg w =
      bc_Transact (ab_Transactor b) opts ''recvMessage'' [GoString src, GoBig sn, GoBytes msg] w"
    and "abi_SendMessage A opts dst svc sn msg w =
      bc_Transact (ab_Transactor b) opts ''sendMessage'' [GoString dst, GoString svc, GoBig sn, GoBytes msg] w"
    and "abi_GetReceipt A src sn w = Inr r \<longleftrightarrow>
      (\<exists>out. bc_Call (ab_Caller b) None ''getReceipt'' [GoString src, GoBig sn] w = Inr (GoBool r # out))"
proof -
  show "abi_RecvMessage A opts src sn msg w =
      bc_Transact (ab_Transactor b) opts ''recvMessage'' [GoString src, GoBig sn, GoBytes msg] w"
    and "abi_SendMessage A opts dst svc sn msg w =
      bc_Transact (ab_Transactor b) opts ''sendMessage'' [GoString dst, GoString svc, GoBig sn, GoBytes msg] w"
    using assms by (simp_all add: binds_def AbiTransactor_RecvMessage_def AbiTransactor_SendMessage_def)
  have "AbiCaller_GetReceipt (ab_Caller b) None src sn w = Some (abi_GetReceipt A src sn w)"
    using assms by (simp add: binds_def)
  then show "abi_GetReceipt A src sn w = Inr r \<longleftrightarrow>
      (\<exists>out. bc_Call (ab_Caller b) None ''getReceipt'' [GoString src, GoBig sn] w = Inr (GoBool r # out))"
    by (auto simp: AbiCaller_GetReceipt_def split: sum.splits list.splits go_value.splits)
qed

subsection \<open>A bridge\<close>

text \<open>A contract that records what it receives and answers whether it has.\<close>

type_synonym receipts = "(string \<times> int) list"

definition sample_contract :: "receipts BoundContract" where
  "sample_contract =
     \<lparr>bc_Call = (\<lambda>opts name ps w. case ps of [GoString s, GoBig n] \<Rightarrow> Inr [GoBool ((s, n) \<in> set w)] | _ \<Rightarrow> Inl ErrNotFound),
      bc_Transact = (\<lambda>opts name ps w.
        case ps of
          [GoString s, GoBig n, GoBytes d] \<Rightarrow> (Inr \<lparr>etx_Hash = ''tx'', etx_GasPrice = 1\<rparr>, (s, n) # w)
        | _ \<Rightarrow> (Inr \<lparr>etx_Hash = ''tx'', etx_GasPrice = 1\<rparr>, w)),
      bc_Transfer = (\<lambda>opts w. (Inl ErrNotFound, w)),
      bc_UnpackInitialized = (\<lambda>name log ev. (None, ev\<lparr>ai_Version := 1\<rparr>)),
      bc_UnpackMessage = (\<lambda>name log ev.
        if lg_Data log = [] then (Some ErrNotFound, ev) else (None, ev\<lparr>am_TargetNetwork := ''icon'', am_Sn := 7, am_Msg := lg_Data log\<rparr>)),
      bc_FilterLogs = (\<lambda>opts name w. Inr \<lparr>ls_logs = [], ls_sub = Some None\<rparr>),
      bc_WatchLogs = (\<lambda>start name w. None)\<rparr>"

definition sample_lib :: "(unit, unit, receipts) bind_lib" where
  "sample_lib = \<lparr>bind_GetAbi = Inr (), bind_NewBoundContract = (\<lambda>addr a c t f. sample_contract)\<rparr>"

definition sample_binding :: "receipts AbiBinding" where
  "sample_binding = \<lparr>ab_Caller = sample_contract, ab_Transactor = sample_contract, ab_Filterer = sample_contract\<rparr>"

definition sample_bridge :: "receipts Abi" where
  "sample_bridge =
     \<lparr>abi_ParseMessage = (\<lambda>log. map_sum id AbiMessage.truncate (AbiFilterer_ParseMessage sample_contract log)),
      abi_SendMessage = AbiTransactor_SendMessage sample_contract,
      abi_RecvMessage = AbiTransactor_RecvMessage sample_contract,
      abi_GetReceipt = (\<lambda>s n w. Inr ((s, n) \<in> set w))\<rparr>"

lemma sample_NewAbi: "NewAbi sample_lib addr () = Inr sample_binding"
  by (simp add: NewAbi_def bindAbi_def sample_lib_def sample_binding_def)

lemma sample_binds: "binds sample_binding sample_bridge"
  by (simp add: binds_def sample_binding_def sample_bridge_def AbiCaller_GetReceipt_def sample_contract_def)

definition receipts_eth :: "receipts EthRpc" where
  "receipts_eth =
     \<lparr>eth_BlockNumber = (\<lambda>_. Inr 12), eth_ChainID = (\<lambda>_. Inr 1), eth_BalanceAt = (\<lambda>_ _ _. Inr 0),
      eth_HeaderByNumber = (\<lambda>n _. Inr \<lparr>hd_Number = 12, hd_GasUsed = 1, hd_Hash = []\<rparr>),
      eth_FilterLogs = (\<lambda>q _. Inr []), eth_SuggestGasPrice = (\<lambda>_. Inr 1), eth_NonceAt = (\<lambda>_ _ _. Inr 0),
      eth_TransactionByHash = (\<lambda>_ _. Inl ErrNotFound), eth_CallContract = (\<lambda>_ _ _. Inr []),
      eth_TransactionReceipt = (\<lambda>_ _. Inr \<lparr>er_Status = 1, er_BlockNumber = 3, er_TxHash = []\<rparr>),
      eth_TransactionCount = (\<lambda>_ _. Inr 1), eth_TransactionInBlock = (\<lambda>_ _ _. Inl ErrNotFound),
      eth_SendTransaction = (\<lambda>_ w. (None, w)), rpc_getBlockByHash = (\<lambda>_ _. Inl ErrNotFound)\<rparr>"

definition bound_evm :: "receipts EVMProvider" where
  "bound_evm =
     (let cl = \<lparr>cl_eth = receipts_eth, cl_EVMChainID = 1, cl_bridgeContract = sample_bridge\<rparr>
      in \<lparr>ep_client = cl, ep_verifier = cl, ep_cfg = ep_cfg (sample_evm 12),
          ep_blockReq = getEventFilterQuery sample_geth ''0x1'',
          ep_wallet = Some \<lparr>ew_Address = ''0xw'', ew_PrivateKey = ''k''\<rparr>\<rparr>)"

definition bound_message :: Message where
  "bound_message =
     \<lparr>msg_Dst = ''avax'', msg_Src = ''icon'', msg_Sn = 7, msg_Data = Some ''hi'', msg_MessageHeight = 3, msg_EventType = EmitMessage\<rparr>"

subsection \<open>Properties\<close>

text \<open>C7: Down to the contract. Over the generated bindings, routing a message to an EVM chain that
  reports no error has sent exactly one transaction, a call of \<open>recvMessage\<close> with the source of the
  message, its serial number and its data; whether a message was received is what the contract
  answers to \<open>getReceipt\<close> for its source and serial number; and a log becomes a message only when
  it unpacks as the contract's event, with the target network, the serial number and the bytes
  of the event and the height of the log.\<close>

theorem evm_contract_calls:
  assumes "binds b (cl_bridgeContract (ep_client p))"
  shows "(\<forall>g ev w message cbs w'. Evm_Route p g ev w message = Some (cbs, None, w') \<longrightarrow>
       (\<exists>m opts tx. message = Some m \<and> Evm_GetTransationOpts p g w = Some (Inr opts) \<and>
          bc_Transact (ab_Transactor b) opts ''recvMessage''
            [GoString (msg_Src m), GoBig (sint (msg_Sn m)), GoBytes (msg_Data m)] w = (Inr tx, w'))) \<and>
     (\<forall>w key r. Evm_MessageReceived p w key = (r, None) \<longleftrightarrow>
       (\<exists>out. bc_Call (ab_Caller b) None ''getReceipt'' [GoString (key_Src key), GoBig (sint (key_Sn key))] w =
          Inr (GoBool r # out))) \<and>
     (\<forall>g log m. getRelayMessageFromLog p g log = Inr m \<longrightarrow>
       (\<exists>e. AbiFilterer_ParseMessage (ab_Filterer b) log = Inr e \<and> msg_Dst m = am_TargetNetwork e \<and>
          msg_Sn m = of_int \<bar>am_Sn e\<bar> \<and> msg_Data m = Some (am_Msg e) \<and> msg_MessageHeight m = lg_BlockNumber log))"
proof (intro conjI allI impI)
  fix g ev w message cbs w'
  assume "Evm_Route p g ev w message = Some (cbs, None, w')"
  then obtain m opts tx where "message = Some m" "Evm_GetTransationOpts p g w = Some (Inr opts)"
      "Evm_SendTransaction p opts m w = (Inr tx, w')"
    by (auto simp: Evm_Route_def split: option.splits sum.splits prod.splits)
  then show "\<exists>m opts tx. message = Some m \<and> Evm_GetTransationOpts p g w = Some (Inr opts) \<and>
      bc_Transact (ab_Transactor b) opts ''recvMessage''
        [GoString (msg_Src m), GoBig (sint (msg_Sn m)), GoBytes (msg_Data m)] w = (Inr tx, w')"
    by (auto simp: Evm_SendTransaction_call binds_simps(1) [OF assms])
next
  fix w key r
  show "Evm_MessageReceived p w key = (r, None) \<longleftrightarrow>
     (\<exists>out. bc_Call (ab_Caller b) None ''getReceipt'' [GoString (key_Src key), GoBig (sint (key_Sn key))] w =
        Inr (GoBool r # out))"
    unfolding binds_simps(3) [OF assms, symmetric]
    by (auto simp: Evm_MessageReceived_def EClient_MessageReceived_def split: sum.splits)
next
  fix g log m
  assume "getRelayMessageFromLog p g log = Inr m"
  then obtain am where am: "abi_ParseMessage (cl_bridgeContract (ep_client p)) log = Inr am" "msg_Dst m = am_TargetNetwork am"
      "msg_Sn m = of_int \<bar>am_Sn am\<bar>" "msg_Data m = Some (am_Msg am)" "msg_MessageHeight m = lg_BlockNumber log"
    by (auto simp: getRelayMessageFromLog_def EClient_ParseMessage_def split: list.splits if_splits sum.splits)
  from am(1) obtain e where "AbiFilterer_ParseMessage (ab_Filterer b) log = Inr e" "am = AbiMessage.truncate e"
    using assms by (cases "AbiFilterer_ParseMessage (ab_Filterer b) log") (auto simp: binds_def)
  with am(2-) show "\<exists>e. AbiFilterer_ParseMessage (ab_Filterer b) log = Inr e \<and> msg_Dst m = am_TargetNetwork e \<and>
      msg_Sn m = of_int \<bar>am_Sn e\<bar> \<and> msg_Data m = Some (am_Msg e) \<and> msg_MessageHeight m = lg_BlockNumber log"
    by (simp add: AbiMessage.truncate_def)
qed

theorem evm_contract_calls_witness:
  "(\<exists>cbs w'. Evm_Route bound_evm sample_geth (\<lambda>tx k. EvmCtxDone) [] (Some bound_message) = Some (cbs, None, w') \<and>
      Evm_MessageReceived bound_evm w' (Message_MessageKey bound_message) = (True, None))
   \<and> Evm_MessageReceived bound_evm [] (Message_MessageKey bound_message) = (False, None)"
proof -
  have binds: "binds sample_binding (cl_bridgeContract (ep_client bound_evm))"
    using sample_binds by (simp add: bound_evm_def Let_def)
  note all = evm_contract_calls [OF binds]
  have answers: "bc_Call (ab_Caller sample_binding) None ''getReceipt'' [GoString s, GoBig n] w = Inr (GoBool ((s, n) \<in> set w) # [])" for s n w
    by (simp add: sample_binding_def sample_contract_def)
  have received: "Evm_MessageReceived bound_evm w key = ((key_Src key, sint (key_Sn key)) \<in> set w, None)" for w key
    using all answers by blast
  have "\<exists>cbs w'. Evm_Route bound_evm sample_geth (\<lambda>tx k. EvmCtxDone) [] (Some bound_message) = Some (cbs, None, w')"
    by (simp add: Evm_Route_def Evm_GetTransationOpts_def Evm_QueryLatestHeight_def Evm_SendTransaction_def newTransactOpts_def
        EClient_GetBlockNumber_def EClient_NonceAt_def EClient_SuggestGasPrice_def EClient_ReceiveMessage_def EClient_GetChainID_def
        bound_evm_def receipts_eth_def sample_geth_def sample_bridge_def AbiTransactor_RecvMessage_def sample_contract_def
        bound_message_def Let_def)
  then obtain cbs w' where run: "Evm_Route bound_evm sample_geth (\<lambda>tx k. EvmCtxDone) [] (Some bound_message) = Some (cbs, None, w')"
    by blast
  with all obtain opts tx where "bc_Transact (ab_Transactor sample_binding) opts ''recvMessage''
      [GoString (msg_Src bound_message), GoBig (sint (msg_Sn bound_message)), GoBytes (msg_Data bound_message)] [] = (Inr tx, w')"
    by blast
  then have "w' = [(msg_Src bound_message, sint (msg_Sn bound_message))]"
    by (simp add: sample_binding_def sample_contract_def)
  with run show ?thesis
    by (auto simp: received)
qed

end
