(* ===== verification/EndToEnd.thy ===== *)
theory EndToEnd
  imports RelayEvm EvmBinding
begin

text \<open>
  From the block of one chain to the contract of another: the listener's block, the merge into the
  cache, the tick of the router, the delivery through the generated bindings, and the callback, as
  one run of the relayer.
\<close>

lemma world_callback:
  "Relayer_callback S dst src key response r = Some r' \<Longrightarrow> rl_world r' = rl_world r"
  unfolding Relayer_callback_def ClearMessages_eq Relayer_HandleMessageFailed_def
  by (auto split: option.splits if_splits prod.splits sum.splits simp: Let_def)

lemma world_run_callbacks: "run_callbacks S dst src cbs r = Some r' \<Longrightarrow> rl_world r' = rl_world r"
  by (induction cbs arbitrary: r) (auto split: option.splits dest: world_callback)

lemma world_RouteMessage:
  assumes "Relayer_RouteMessage S a dst src r = Some r'" and "heap_get (rl_heap r) a = Some x" and "rm_Message x = Some m"
    and "chain_at r dst = Some dc" and "Route (cr_Provider dc) (rl_world r) (Some m) = Some (cbs, None, w)"
  shows "rl_world r' = w"
proof -
  have chains: "chain_at (mark_route a r) dst = Some dc" "rl_world (mark_route a r) = rl_world r"
    using assms(4) by (simp_all add: mark_route_def)
  obtain y where y: "heap_get (rl_heap (mark_route a r)) a = Some y" "RouteMessage_GetMessage y = Some m"
    using assms(2,3) by (simp add: mark_route_def RouteMessage_IncrementRetry_def RouteMessage_SetIsProcessing_def RouteMessage_GetMessage_def)
  have "run_callbacks S dst src cbs ((mark_route a r)\<lparr>rl_world := w\<rparr>) = Some r'"
    using assms(1,5) y chains by (auto simp: Relayer_RouteMessage_def Let_def split: option.splits)
  from world_run_callbacks [OF this] show ?thesis
    by simp
qed

lemma go_ok_go [simp]: "go_ok (r\<lparr>rl_go := gs\<rparr>) g = go_ok r g"
  by (cases g) simp_all

text \<open>From a block to the goroutine of a delivery: the block, its merge, a tick for the message.\<close>

lemma block_to_route:
  assumes "kv_reliable S view" and wf: "relayer_wf r" and b: "bi_Messages b = [Some m]"
    and src: "chain_at r src = Some sc" and dst: "chain_at r (msg_Dst m) = Some dc"
    and send: "fst (ShouldSendMessage (cr_Provider sc) (rl_world r) m)"
    and recv: "fst (ShouldReceiveMessage (cr_Provider dc) (rl_world r) m)"
    and new: "MessageReceived (cr_Provider dc) (rl_world r) (Message_MessageKey m) = (False, None)"
  obtains ls r' a xs where "relay_run S (r, ts) (LBlock src b # ls) (Some (r', ts))"
    and "relayer_wf r'" and "rl_world r' = rl_world r" and "rl_go r' = xs @ [GoRoute a (msg_Dst m) src]"
    and "\<And>n. map_option cr_Provider (chain_at r' n) = map_option cr_Provider (chain_at r n)"
    and "map_get (cache_of r' src) (Message_MessageKey m) = Some a"
    and "heap_get (rl_heap r') a = Some (NewRouteMessage (Some m))"
proof -
  obtain r1 where r1: "Relayer_processBlockInfo S src b r = Some r1"
    using processBlockInfo_total [of r src S b] src by auto
  have k1: "keeps r r1"
    by (rule keeps_processBlockInfo [OF r1])
  obtain r0 where r0: "r1 = spawn (GoMerge src [Some m]) r0" "rl_world r0 = rl_world r"
    using r1 b by (auto simp: Relayer_processBlockInfo_def Relayer_SaveBlockHeight_def Let_def split: option.splits if_splits prod.splits)
  have go1: "rl_go r1 = rl_go r0 @ GoMerge src [Some m] # []" and w1: "rl_world r1 = rl_world r"
    using r0 by (simp_all add: spawn_def)
  have wf1: "relayer_wf r1"
    using keepsD [OF k1 wf] .
  let ?r1 = "r1\<lparr>rl_go := rl_go r0 @ GoMerge src [] # []\<rparr>"
  have ev1: "map_option cr_Provider (chain_at r1 n) = map_option cr_Provider (chain_at r n)" for n
    using keeps_evolves [OF k1 wf] by (simp add: evolves_def)
  have c1: "chain_at ?r1 src \<noteq> None"
    using ev1 [of src] src by auto
  have wf1: "relayer_wf ?r1"
    using keepsD [OF k1 wf] go1 c1 by (auto simp: relayer_wf_def caches_wf_def)
  obtain r2 where r2: "merge_into src [Some m] ?r1 = Some r2" "keeps ?r1 r2" "rl_world r2 = rl_world ?r1"
    and cached: "cached r2 src (Message_MessageKey m) = Some (NewRouteMessage (Some m))"
  proof -
    have rs: "\<forall>x \<in> set [NewRouteMessage (Some m)]. rm_Message x \<noteq> None"
      by (simp add: NewRouteMessage_def)
    from add_to_chain_ok [OF wf1 c1 rs] obtain r2 where
      "add_to_chain src [NewRouteMessage (Some m)] ?r1 = Some r2" "keeps ?r1 r2" "rl_world r2 = rl_world ?r1"
      "cached r2 = (cached ?r1)(src := cached ?r1 src ++ map_of (rev (route_entries [NewRouteMessage (Some m)])))"
      by metis
    then show ?thesis
      by (intro that [of r2]) (simp_all add: merge_into_add route_entries_def NewRouteMessage_def)
  qed
  have wf2: "relayer_wf r2" and w2: "rl_world r2 = rl_world r"
    using keepsD [OF r2(2) wf1] r2(3) w1 by simp_all
  have ev2: "map_option cr_Provider (chain_at r2 n) = map_option cr_Provider (chain_at r n)" for n
    using keeps_evolves [OF r2(2) wf1] ev1 [of n] by (simp add: evolves_def)
  obtain c2 a where c2: "chain_at r2 src = Some c2" "map_get (cr_MessageCache c2) (Message_MessageKey m) = Some a"
    "heap_get (rl_heap r2) a = Some (NewRouteMessage (Some m))"
    using cached by (auto simp: cached_def cache_view_def split: option.splits bind_splits)
  have el: "eligible r2 a (msg_Dst m) src"
    unfolding eligible_provider using c2(3) ev2 [of src] ev2 [of "msg_Dst m"] src dst send recv new w2
    by (auto simp: NewRouteMessage_def)
  have mem: "(Message_MessageKey m, a) \<in> set (cache_of r2 src)"
    using c2(1,2) by (simp add: cache_of_def map_of_SomeD)
  obtain r3 where r3: "process_message S src a r2 = Some r3"
    using process_message_total [of r2 a src S] c2(1,3) by (auto simp: msg_at_def NewRouteMessage_def)
  have same: "rl_heap r3 = rl_heap r2" "rl_world r3 = rl_world r2"
    using process_message_effect [OF r3] by (simp_all add: shrinks_def)
  have k3: "keeps r2 r3"
    by (rule keeps_process_message [OF r3])
  have wf3: "relayer_wf r3"
    by (rule keepsD [OF k3 wf2])
  have ev3: "map_option cr_Provider (chain_at r3 n) = map_option cr_Provider (chain_at r n)" for n
    using keeps_evolves [OF k3 wf2] ev2 [of n] by (simp add: evolves_def)
  have go3: "rl_go r3 = rl_go r2 @ [GoRoute a (msg_Dst m) src]"
    using process_message_route [OF r3] el c2(3) by (simp add: route_of_def msg_at_def NewRouteMessage_def)
  have "(Message_MessageKey m, a) \<in> set (cache_of r3 src)"
    by (rule kv_reliable.process_message_stays [OF assms(1) wf2 r3 mem el])
  moreover have "map_wf (cache_of r3 src)"
    using relayer_wf_caches [OF wf3, of src] by (cases "chain_at r3 src") (auto simp: cache_of_def cache_wf_def)
  ultimately have get: "map_get (cache_of r3 src) (Message_MessageKey m) = Some a"
    by (simp add: map_of_is_SomeI)
  have block: "relay_step S (r, ts) (LBlock src b) (Some (r1, ts))"
    using step_block [of r src S ts b] src r1 by (simp add: with_threads_def)
  have merge: "relay_step S (r1, ts) (LMerge src (Some m)) (Some (r2, ts))"
    using step_merge [OF go1, of S ts] r2(1) by (simp add: with_threads_def)
  have pick: "relay_step S (r2, ts) (LPick src a) (Some (r2, TPicked src a # ts))"
    by (rule step_pick [OF c2(1) map_of_SomeD [OF c2(2)]])
  have tick: "relay_step S (r2, TPicked src a # ts) (LProcess src a) (Some (r3, ts))"
    using step_process [of S r2 "[]" src a ts] r3 by (simp add: with_threads_def)
  have "relay_run S (r, ts) ([LBlock src b] @ [LMerge src (Some m)] @ [LPick src a] @ [LProcess src a]) (Some (r3, ts))"
    by (intro relay_run_append [OF relay_run_append [OF relay_run_append [OF relay_run_one [OF tick] relay_run_one [OF pick]]
            relay_run_one [OF merge]] relay_run_one [OF block]])
  then show ?thesis
    using that [of "[LMerge src (Some m), LPick src a, LProcess src a]" r3 "rl_go r2" a] wf3 same w2 go3 ev3 get c2(3) by simp
qed


subsection \<open>An example\<close>

text \<open>Two chains with a recording contract, nothing received yet.\<close>

definition bound_chain :: "string \<Rightarrow> receipts EVMProvider" where
  "bound_chain nid = bound_evm\<lparr>ep_cfg := (ep_cfg bound_evm)\<lparr>ec_NID := nid\<rparr>\<rparr>"

definition bound_Runtime :: "string \<Rightarrow> receipts ChainRuntime" where
  "bound_Runtime nid =
     \<lparr>cr_Provider = evm_provider (bound_chain nid) sample_geth (sample_evm_events 1),
      LastBlockHeight = 0, LastSavedHeight = 0, cr_MessageCache = []\<rparr>"

definition bound_Relayer :: "(kvs, receipts) Relayer" where
  "bound_Relayer =
     \<lparr>rl_chains = [(''icon'', bound_Runtime ''icon''), (''avax'', bound_Runtime ''avax'')],
      rl_heap = [], rl_db = [], rl_world = [], rl_go = []\<rparr>"

lemma bound_sel [simp]:
  "ec_NID (ep_cfg (bound_chain nid)) = nid" "ec_FinalityBlock (ep_cfg (bound_chain nid)) = 10"
  "ec_GasPrice (ep_cfg (bound_chain nid)) = 0" "ec_GasLimit (ep_cfg (bound_chain nid)) = 0"
  "ep_wallet (bound_chain nid) = Some \<lparr>ew_Address = ''0xw'', ew_PrivateKey = ''k''\<rparr>"
  "ep_client (bound_chain nid) = \<lparr>cl_eth = receipts_eth, cl_EVMChainID = 1, cl_bridgeContract = sample_bridge\<rparr>"
  "cr_Provider (bound_Runtime nid) = evm_provider (bound_chain nid) sample_geth (sample_evm_events 1)"
  "cr_MessageCache (bound_Runtime nid) = []" "rl_world bound_Relayer = []"
  by (simp_all add: bound_chain_def bound_evm_def bound_Runtime_def bound_Relayer_def sample_evm_def Let_def)

lemma bound_chain_at:
  "chain_at bound_Relayer nid = (if nid \<in> {''icon'', ''avax''} then Some (bound_Runtime nid) else None)"
  by (simp add: chain_at_def bound_Relayer_def)

lemma bound_wf: "relayer_wf bound_Relayer"
  by (auto simp: relayer_wf_def caches_wf_def bound_chain_at cache_wf_def split: if_splits)
    (simp_all add: bound_Relayer_def)

lemma bound_opts:
  "Evm_GetTransationOpts (bound_chain nid) sample_geth w
     = Some (Inr \<lparr>txo_From = ''k'', txo_Nonce = Some 0, txo_GasPrice = Some 1, txo_GasLimit = 0\<rparr>)"
  by (simp add: Evm_GetTransationOpts_def Evm_QueryLatestHeight_def EClient_GetBlockNumber_def EClient_NonceAt_def newTransactOpts_def
      EClient_GetChainID_def EClient_SuggestGasPrice_def receipts_eth_def sample_geth_def Let_def)


end
