(* ===== verification/OsFiles.thy ===== *)
theory OsFiles
  imports GoStd
begin

text \<open>
  The part of \<^verbatim>\<open>os\<close> the program calls. A file system maps paths to files and directories; an
  injected fault makes every call on its path fail, so a missing parent directory is a fault of
  the path.
\<close>

datatype entry = Dir | File bytes

record Fs =
  fs_tree :: "string \<Rightarrow> entry option"
  fs_fault :: "string \<Rightarrow> error option"

definition os_Stat :: "Fs \<Rightarrow> string \<Rightarrow> error option" where
  "os_Stat fs p = (case fs_fault fs p of Some e \<Rightarrow> Some e | None \<Rightarrow> if fs_tree fs p = None then Some ErrNotFound else None)"

definition os_ReadFile :: "Fs \<Rightarrow> string \<Rightarrow> error + bytes" where
  "os_ReadFile fs p =
     (case fs_fault fs p of
        Some e \<Rightarrow> Inl e
      | None \<Rightarrow> (case fs_tree fs p of Some (File b) \<Rightarrow> Inr b | Some Dir \<Rightarrow> Inl (ErrIO ''is a directory'') | None \<Rightarrow> Inl ErrNotFound))"

definition os_WriteFile :: "Fs \<Rightarrow> string \<Rightarrow> bytes \<Rightarrow> error option \<times> Fs" where
  "os_WriteFile fs p b =
     (case fs_fault fs p of
        Some e \<Rightarrow> (Some e, fs)
      | None \<Rightarrow> if fs_tree fs p = Some Dir then (Some (ErrIO ''is a directory''), fs)
                else (None, fs\<lparr>fs_tree := (fs_tree fs)(p \<mapsto> File b)\<rparr>))"

definition os_Mkdir :: "Fs \<Rightarrow> string \<Rightarrow> error option \<times> Fs" where
  "os_Mkdir fs p =
     (case fs_fault fs p of
        Some e \<Rightarrow> (Some e, fs)
      | None \<Rightarrow> if fs_tree fs p \<noteq> None then (Some (ErrIO ''file exists''), fs)
                else (None, fs\<lparr>fs_tree := (fs_tree fs)(p \<mapsto> Dir)\<rparr>))"

definition os_Remove :: "Fs \<Rightarrow> string \<Rightarrow> error option \<times> Fs" where
  "os_Remove fs p =
     (case fs_fault fs p of
        Some e \<Rightarrow> (Some e, fs)
      | None \<Rightarrow> if fs_tree fs p = None then (Some ErrNotFound, fs)
                else (None, fs\<lparr>fs_tree := (fs_tree fs)(p := None)\<rparr>))"

text \<open>\<open>os.Open\<close> and \<open>io.ReadAll\<close> of what was opened: a directory opens and does not read.\<close>

definition os_Open :: "Fs \<Rightarrow> string \<Rightarrow> error + entry" where
  "os_Open fs p =
     (case fs_fault fs p of
        Some e \<Rightarrow> Inl e
      | None \<Rightarrow> (case fs_tree fs p of None \<Rightarrow> Inl ErrNotFound | Some f \<Rightarrow> Inr f))"

definition io_ReadAll :: "entry \<Rightarrow> error + bytes" where
  "io_ReadAll f = (case f of File b \<Rightarrow> Inr b | Dir \<Rightarrow> Inl (ErrIO ''is a directory''))"

lemma open_read:
  "(case os_Open fs p of Inl e \<Rightarrow> Inl e | Inr f \<Rightarrow> io_ReadAll f) = os_ReadFile fs p"
  by (auto simp: os_Open_def io_ReadAll_def os_ReadFile_def split: option.splits entry.splits)

text \<open>What was written is read.\<close>

lemma read_written: "os_WriteFile fs p b = (None, fs') \<Longrightarrow> os_ReadFile fs' p = Inr b"
  by (auto simp: os_WriteFile_def os_ReadFile_def split: option.splits if_splits)

end
