(* ===== verification/KeyStores.thy ===== *)
theory KeyStores
  imports OsFiles Codec IconProvider EvmProvider
begin

text \<open>
  \<^verbatim>\<open>relayer/chains/icon/keys.go\<close> and \<^verbatim>\<open>relayer/chains/evm/keys.go\<close>: reading the key stores of the
  providers. Decrypting a key store is goloop's and go-ethereum's, as parameters.
\<close>

subsection \<open>ICON\<close>

definition RestoreIconKeyStore :: "(bytes \<Rightarrow> string \<Rightarrow> error + 'k) \<Rightarrow> Fs \<Rightarrow> IconProviderConfig \<Rightarrow> error + 'k" where
  "RestoreIconKeyStore NewFromKeyStore fs cfg =
     (case os_ReadFile fs (ic_KeyStore cfg) of
        Inl e \<Rightarrow> Inl e
      | Inr ksByte \<Rightarrow> (case NewFromKeyStore ksByte (ic_Password cfg) of Inl e \<Rightarrow> Inl e | Inr w \<Rightarrow> Inr w))"

record OnlyAddr =
  oa_Address :: string

definition OnlyAddr_assign :: "string \<Rightarrow> json \<Rightarrow> OnlyAddr \<Rightarrow> OnlyAddr option" where
  "OnlyAddr_assign f v a = map_option (\<lambda>x. a\<lparr>oa_Address := x\<rparr>) (string_of_json v (oa_Address a))"

definition getAddrFromKeystore :: "Fs \<Rightarrow> string \<Rightarrow> error + string" where
  "getAddrFromKeystore fs keystorePath =
     (case os_ReadFile fs keystorePath of
        Inl e \<Rightarrow> Inl e
      | Inr ksFile \<Rightarrow>
          (case unmarshal_struct [''address''] OnlyAddr_assign \<lparr>oa_Address = []\<rparr> ksFile of
             Inl e \<Rightarrow> Inl e
           | Inr a \<Rightarrow> Inr (oa_Address a)))"

definition Icon_Wallet :: "(bytes \<Rightarrow> string \<Rightarrow> error + 'k) \<Rightarrow> Fs \<Rightarrow> IconProviderConfig \<Rightarrow> error + 'k" where
  "Icon_Wallet NewFromKeyStore fs cfg = RestoreIconKeyStore NewFromKeyStore fs cfg"

definition Icon_GetWalletAddress :: "Fs \<Rightarrow> IconProviderConfig \<Rightarrow> error + string" where
  "Icon_GetWalletAddress fs cfg = getAddrFromKeystore fs (ic_KeyStore cfg)"

subsection \<open>EVM\<close>

definition RestoreKey :: "(bytes \<Rightarrow> string \<Rightarrow> error + EvmWallet) \<Rightarrow> Fs \<Rightarrow> string \<Rightarrow> string \<Rightarrow> error + EvmWallet" where
  "RestoreKey DecryptKey fs keystoreFile secret =
     (case os_Open fs keystoreFile of
        Inl e \<Rightarrow> Inl e
      | Inr file \<Rightarrow>
          (case io_ReadAll file of
             Inl e \<Rightarrow> Inl e
           | Inr dat \<Rightarrow> (case DecryptKey dat secret of Inl e \<Rightarrow> Inl e | Inr key \<Rightarrow> Inr key)))"

subsection \<open>What is read\<close>

text \<open>The address is that of the last member \<open>address\<close> of the document, in any case of letters; other
  members do not matter.\<close>

lemma address_of_keystore:
  assumes "os_ReadFile fs p = Inr (json_print (JObj ((''address'', JStr addr) # kvs)))"
    and "\<forall>kv \<in> set kvs. json_scalar (snd kv)" and "\<forall>kv \<in> set kvs. field_of [''address''] (utf8_sanitize (fst kv)) = None"
  shows "getAddrFromKeystore fs p = Inr (utf8_sanitize addr)"
proof -
  have other: "assign_fields [''address''] OnlyAddr_assign (map (\<lambda>kv. (utf8_sanitize (fst kv), json_clean (snd kv))) kvs) a = Some a" for a
    using assms(3) by (induction kvs) auto
  have ascii: "utf8_sanitize ''address'' = ''address''"
    by (rule utf8_sanitize_valid [OF utf8_valid_ascii]) simp
  have "field_of [''address''] ''address'' = Some ''address''"
    by (simp add: field_of_def)
  moreover have "json_parse (json_print (JObj ((''address'', JStr addr) # kvs))) =
      Some (JObj (map (\<lambda>kv. (utf8_sanitize (fst kv), json_clean (snd kv))) ((''address'', JStr addr) # kvs)))"
    using assms(2) by (intro json_parse_print_flat) simp
  ultimately show ?thesis
    using assms(1) other ascii
    by (simp add: getAddrFromKeystore_def unmarshal_struct_def OnlyAddr_assign_def string_of_json_def)
qed

text \<open>A wallet comes from the file and the password of the configuration, and from nothing else.\<close>

lemma wallet_of_file:
  "RestoreIconKeyStore lib fs cfg = Inr w \<longleftrightarrow> (\<exists>b. os_ReadFile fs (ic_KeyStore cfg) = Inr b \<and> lib b (ic_Password cfg) = Inr w)"
  "RestoreKey dec fs p secret = Inr k \<longleftrightarrow> (\<exists>b. os_ReadFile fs p = Inr b \<and> dec b secret = Inr k)"
  by (auto simp: RestoreIconKeyStore_def RestoreKey_def open_read [symmetric] split: sum.splits)

end
