(* ===== verification/CmdConfig.thy ===== *)
theory CmdConfig
  imports Codec IconListener EvmListener
begin

text \<open>
  \<^verbatim>\<open>cmd/config.go\<close>: the configuration of the program, from the documents it is read from to the
  chains of the relayer and back. YAML is a parameter; JSON is that of theory \<open>Json\<close>. A Go map is
  the list of its entries in the order it is ranged over.
\<close>

subsection \<open>Providers\<close>

datatype ProviderConfig = IconConfig IconProviderConfig | EvmConfig EVMProviderConfig

text \<open>What the constructors of the providers take from outside: clients, key stores and the library.\<close>

record 'w Platform =
  pf_icon_client :: "string \<Rightarrow> 'w JsonRpc"
  pf_icon_debug :: "string \<Rightarrow> string"
  pf_icon_signer :: "IconProviderConfig \<Rightarrow> IconSigner"
  pf_evm_client :: "string \<Rightarrow> string \<Rightarrow> error + 'w EClient"
  pf_geth :: Geth
  pf_evm_events :: "EthTx \<Rightarrow> nat \<Rightarrow> evm_wait_event"
  pf_RestoreKey :: "string \<Rightarrow> string \<Rightarrow> error + EvmWallet"

datatype 'w Provider = IconProv IconProviderConfig | EvmProv "'w EVMProvider"

definition ProviderConfig_NewProvider :: "'w Platform \<Rightarrow> string \<Rightarrow> ProviderConfig \<Rightarrow> error + 'w Provider" where
  "ProviderConfig_NewProvider pf chainName pc =
     (case pc of
        IconConfig c \<Rightarrow>
          (case IconProviderConfig_NewProvider chainName c of Inl e \<Rightarrow> Inl e | Inr c' \<Rightarrow> Inr (IconProv c'))
      | EvmConfig c \<Rightarrow>
          (case EVMProviderConfig_NewProvider (pf_evm_client pf) (pf_geth pf) chainName c of
             Inl e \<Rightarrow> Inl e
           | Inr p \<Rightarrow> Inr (EvmProv p)))"

definition Provider_Init :: "'w Platform \<Rightarrow> 'w Provider \<Rightarrow> error + 'w Provider" where
  "Provider_Init pf prov =
     (case prov of
        IconProv c \<Rightarrow> Inr (IconProv c)
      | EvmProv p \<Rightarrow> (case Evm_Init (pf_RestoreKey pf) p of Inl e \<Rightarrow> Inl e | Inr p' \<Rightarrow> Inr (EvmProv p')))"

definition Provider_Type :: "'w Provider \<Rightarrow> string" where
  "Provider_Type prov = (case prov of IconProv _ \<Rightarrow> ''icon'' | EvmProv _ \<Rightarrow> ''evm'')"

definition Provider_ProviderConfig :: "'w Provider \<Rightarrow> ProviderConfig" where
  "Provider_ProviderConfig prov = (case prov of IconProv c \<Rightarrow> IconConfig c | EvmProv p \<Rightarrow> EvmConfig (ep_cfg p))"

definition Provider_NID :: "'w Provider \<Rightarrow> string" where
  "Provider_NID prov = (case prov of IconProv c \<Rightarrow> ic_NID c | EvmProv p \<Rightarrow> ec_NID (ep_cfg p))"

definition Provider_ChainName :: "'w Provider \<Rightarrow> string" where
  "Provider_ChainName prov = (case prov of IconProv c \<Rightarrow> ic_ChainName c | EvmProv p \<Rightarrow> ec_ChainName (ep_cfg p))"

text \<open>The provider as the relayer uses it.\<close>

definition Provider_ChainProvider :: "'w Platform \<Rightarrow> 'w Provider \<Rightarrow> 'w ChainProvider" where
  "Provider_ChainProvider pf prov =
     (case prov of
        IconProv c \<Rightarrow> icon_provider (pf_icon_client pf (ic_RPCUrl c)) c (pf_icon_debug pf (ic_RPCUrl c)) (pf_icon_signer pf c)
      | EvmProv p \<Rightarrow> evm_provider p (pf_geth pf) (pf_evm_events pf))"

subsection \<open>The configuration\<close>

record GlobalConfig =
  gc_APIListenPort :: string
  gc_Timeout :: string
  gc_LightCacheSize :: int

definition newDefaultGlobalConfig :: GlobalConfig where
  "newDefaultGlobalConfig = \<lparr>gc_APIListenPort = '':5183'', gc_Timeout = ''10s'', gc_LightCacheSize = 20\<rparr>"

record 'w Config =
  cf_Global :: "GlobalConfig option"
  cf_Chains :: "(string, 'w Provider) gomap"

definition Config_validateConfig :: "'w Config \<Rightarrow> error option" where
  "Config_validateConfig c = None"

definition DefaultConfig :: "'w Config" where
  "DefaultConfig = \<lparr>cf_Global = Some newDefaultGlobalConfig, cf_Chains = []\<rparr>"

record ConfigOutputWrapper =
  co_Global :: "GlobalConfig option"
  co_ProviderConfigs :: "(string, string \<times> ProviderConfig) gomap"

text \<open>A provider of the file: its type and its configuration; a null entry is a nil pointer.\<close>

record ConfigInputWrapper =
  ci_Global :: "GlobalConfig option"
  ci_ProviderConfigs :: "(string \<times> (string \<times> ProviderConfig) option) list"

fun runtime_chains ::
    "'w Platform \<Rightarrow> (string \<times> (string \<times> ProviderConfig) option) list \<Rightarrow> (string, 'w Provider) gomap
       \<Rightarrow> (error + (string, 'w Provider) gomap) go" where
  "runtime_chains pf [] chs = Some (Inr chs)"
| "runtime_chains pf ((chainName, pcfg) # cfgs) chs =
     (case pcfg of
        None \<Rightarrow> None
      | Some (ty, pc) \<Rightarrow>
          (case ProviderConfig_NewProvider pf chainName pc of
             Inl e \<Rightarrow> Some (Inl (ErrMsg ''failed to build ChainProviders''))
           | Inr prov \<Rightarrow>
               (case Provider_Init pf prov of
                  Inl e \<Rightarrow> Some (Inl (ErrMsg ''failed to initialize provider''))
                | Inr prov' \<Rightarrow> runtime_chains pf cfgs (map_set (Provider_NID prov') prov' chs))))"

definition ConfigInputWrapper_RuntimeConfig ::
    "'w Platform \<Rightarrow> ConfigInputWrapper \<Rightarrow> (error + 'w Config) go" where
  "ConfigInputWrapper_RuntimeConfig pf c =
     (case runtime_chains pf (ci_ProviderConfigs c) [] of
        None \<Rightarrow> None
      | Some (Inl e) \<Rightarrow> Some (Inl e)
      | Some (Inr chs) \<Rightarrow> Some (Inr \<lparr>cf_Global = ci_Global c, cf_Chains = chs\<rparr>))"

fun wrap_providers :: "(string, 'w Provider) gomap \<Rightarrow> (string, string \<times> ProviderConfig) gomap
    \<Rightarrow> (string, string \<times> ProviderConfig) gomap" where
  "wrap_providers [] providers = providers"
| "wrap_providers ((k, chain) # chs) providers =
     wrap_providers chs
       (map_set (Provider_ChainName chain) (Provider_Type chain, Provider_ProviderConfig chain) providers)"

definition Config_Wrapped :: "'w Config \<Rightarrow> ConfigOutputWrapper" where
  "Config_Wrapped c = \<lparr>co_Global = cf_Global c, co_ProviderConfigs = wrap_providers (cf_Chains c) []\<rparr>"

text \<open>\<open>c.Chains.Get(nId)\<close>, which looks at the network ids of the chains and not at the keys.\<close>

definition Config_AddChain :: "'w Platform \<Rightarrow> bool \<Rightarrow> 'w Config \<Rightarrow> 'w Provider \<Rightarrow> error option \<times> 'w Config" where
  "Config_AddChain pf debug c prov =
     (let nId = Provider_NID prov
      in if nId = [] then (Some (ErrMsg ''chain ID cannot be empty''), c)
         else
           (case Chains_Get (map (\<lambda>(k, p). (k, NewChain (Provider_ChainProvider pf p) debug)) (cf_Chains c)) nId of
              Inr chn \<Rightarrow> (Some (ErrMsg (''chain with NID '' @ nId @ '' already exists in config'')), c)
            | Inl e \<Rightarrow> (None, c\<lparr>cf_Chains := map_set (Provider_ChainName prov) prov (cf_Chains c)\<rparr>)))"

definition Config_DeleteChain :: "'w Config \<Rightarrow> string \<Rightarrow> 'w Config" where
  "Config_DeleteChain c chain = c\<lparr>cf_Chains := map_delete chain (cf_Chains c)\<rparr>"

text \<open>\<open>MustYAML\<close> panics when the document cannot be made.\<close>

definition Config_MustYAML :: "('w Config \<Rightarrow> error + bytes) \<Rightarrow> 'w Config \<Rightarrow> bytes go" where
  "Config_MustYAML yaml_Marshal c = (case yaml_Marshal c of Inl e \<Rightarrow> None | Inr out \<Rightarrow> Some out)"

definition defaultConfigYAML :: "('w Config \<Rightarrow> error + bytes) \<Rightarrow> bytes go" where
  "defaultConfigYAML yaml_Marshal = Config_MustYAML yaml_Marshal DefaultConfig"

subsection \<open>Reading one provider\<close>

text \<open>From YAML: \<open>decode\<close> reads the type and the value node of a node, the others a value node.\<close>

definition ProviderConfigYAMLWrapper_UnmarshalYAML ::
    "('n \<Rightarrow> error + (string \<times> 'v)) \<Rightarrow> ('v \<Rightarrow> error + IconProviderConfig) \<Rightarrow> ('v \<Rightarrow> error + EVMProviderConfig)
       \<Rightarrow> 'n \<Rightarrow> error + (string \<times> ProviderConfig)" where
  "ProviderConfigYAMLWrapper_UnmarshalYAML decode decode_icon decode_evm n =
     (case decode n of
        Inl e \<Rightarrow> Inl e
      | Inr (ty, val) \<Rightarrow>
          if ty = ''icon'' then (case decode_icon val of Inl e \<Rightarrow> Inl e | Inr c \<Rightarrow> Inr (ty, IconConfig c))
          else if ty = ''evm'' then (case decode_evm val of Inl e \<Rightarrow> Inl e | Inr c \<Rightarrow> Inr (ty, EvmConfig c))
          else Inl (ErrMsg (ty @ '' is an invalid chain type, check your config file'')))"

text \<open>From JSON: the members of the two structs.\<close>

definition zero_IconProviderConfig :: IconProviderConfig where
  "zero_IconProviderConfig =
     \<lparr>ic_ChainName = [], ic_RPCUrl = [], ic_KeyStore = [], ic_Password = [], ic_StartHeight = 0,
      ic_ContractAddress = [], ic_NetworkID = 0, ic_NID = []\<rparr>"

definition icon_config_fields :: "string list" where
  "icon_config_fields =
     [''rpc-url'', ''keystore'', ''password'', ''start-height'', ''contract-address'', ''network-id'', ''nid'']"

definition IconProviderConfig_assign :: "string \<Rightarrow> json \<Rightarrow> IconProviderConfig \<Rightarrow> IconProviderConfig option" where
  "IconProviderConfig_assign f v c =
     (if f = ''rpc-url'' then map_option (\<lambda>x. c\<lparr>ic_RPCUrl := x\<rparr>) (string_of_json v (ic_RPCUrl c))
      else if f = ''keystore'' then map_option (\<lambda>x. c\<lparr>ic_KeyStore := x\<rparr>) (string_of_json v (ic_KeyStore c))
      else if f = ''password'' then map_option (\<lambda>x. c\<lparr>ic_Password := x\<rparr>) (string_of_json v (ic_Password c))
      else if f = ''start-height'' then map_option (\<lambda>x. c\<lparr>ic_StartHeight := x\<rparr>) (u64_of_json v (ic_StartHeight c))
      else if f = ''contract-address'' then map_option (\<lambda>x. c\<lparr>ic_ContractAddress := x\<rparr>) (string_of_json v (ic_ContractAddress c))
      else if f = ''network-id'' then map_option (\<lambda>x. c\<lparr>ic_NetworkID := x\<rparr>) (u64_of_json v (ic_NetworkID c))
      else map_option (\<lambda>x. c\<lparr>ic_NID := x\<rparr>) (string_of_json v (ic_NID c)))"

definition i64_of_json :: "json \<Rightarrow> i64 \<Rightarrow> i64 option" where
  "i64_of_json v cur =
     (case v of
        JNull \<Rightarrow> Some cur
      | JNum lit \<Rightarrow> (case parse_int 10 64 lit of Inr n \<Rightarrow> Some (of_int n) | Inl _ \<Rightarrow> None)
      | _ \<Rightarrow> None)"

definition zero_EVMProviderConfig :: EVMProviderConfig where
  "zero_EVMProviderConfig =
     \<lparr>ec_ChainName = [], ec_RPCUrl = [], ec_VerifierRPCUrl = [], ec_StartHeight = 0, ec_Keystore = [], ec_Password = [],
      ec_GasPrice = 0, ec_GasLimit = 0, ec_ContractAddress = [], ec_Concurrency = 0, ec_FinalityBlock = 0, ec_NID = []\<rparr>"

definition evm_config_fields :: "string list" where
  "evm_config_fields =
     [''rpc-url'', ''verifier-rpc-url'', ''start-height'', ''keystore'', ''password'', ''gas-price'', ''gas-limit'',
      ''contract-address'', ''concurrency'', ''finality-block'', ''nid'']"

definition EVMProviderConfig_assign :: "string \<Rightarrow> json \<Rightarrow> EVMProviderConfig \<Rightarrow> EVMProviderConfig option" where
  "EVMProviderConfig_assign f v c =
     (if f = ''rpc-url'' then map_option (\<lambda>x. c\<lparr>ec_RPCUrl := x\<rparr>) (string_of_json v (ec_RPCUrl c))
      else if f = ''verifier-rpc-url'' then map_option (\<lambda>x. c\<lparr>ec_VerifierRPCUrl := x\<rparr>) (string_of_json v (ec_VerifierRPCUrl c))
      else if f = ''start-height'' then map_option (\<lambda>x. c\<lparr>ec_StartHeight := x\<rparr>) (u64_of_json v (ec_StartHeight c))
      else if f = ''keystore'' then map_option (\<lambda>x. c\<lparr>ec_Keystore := x\<rparr>) (string_of_json v (ec_Keystore c))
      else if f = ''password'' then map_option (\<lambda>x. c\<lparr>ec_Password := x\<rparr>) (string_of_json v (ec_Password c))
      else if f = ''gas-price'' then map_option (\<lambda>x. c\<lparr>ec_GasPrice := x\<rparr>) (i64_of_json v (ec_GasPrice c))
      else if f = ''gas-limit'' then map_option (\<lambda>x. c\<lparr>ec_GasLimit := x\<rparr>) (u64_of_json v (ec_GasLimit c))
      else if f = ''contract-address'' then map_option (\<lambda>x. c\<lparr>ec_ContractAddress := x\<rparr>) (string_of_json v (ec_ContractAddress c))
      else if f = ''concurrency'' then map_option (\<lambda>x. c\<lparr>ec_Concurrency := x\<rparr>) (u64_of_json v (ec_Concurrency c))
      else if f = ''finality-block'' then map_option (\<lambda>x. c\<lparr>ec_FinalityBlock := x\<rparr>) (u64_of_json v (ec_FinalityBlock c))
      else map_option (\<lambda>x. c\<lparr>ec_NID := x\<rparr>) (string_of_json v (ec_NID c)))"

text \<open>
  \<open>UnmarshalJSONProviderConfig\<close>: the document is read into a map, the value marshalled from it and
  read again into the struct of the type. On the way the numbers are 64-bit floats: \<open>remarshal\<close> is
  what becomes of a value. A document without a type that is a string panics. A null value gives a
  nil configuration, as \<open>None\<close>, also when the type is known; an unknown type leaves a nil interface,
  into which nothing but null can be read.
\<close>

definition UnmarshalJSONProviderConfig ::
    "(json \<Rightarrow> json) \<Rightarrow> string \<Rightarrow> (error + ProviderConfig option) go" where
  "UnmarshalJSONProviderConfig remarshal data =
     (case json_parse data of
        Some (JObj kvs) \<Rightarrow>
          (case map_get (rev kvs) ''type'' of
             Some (JStr typeName) \<Rightarrow>
               (case (case map_get (rev kvs) ''value'' of None \<Rightarrow> JNull | Some v \<Rightarrow> remarshal v) of
                  JNull \<Rightarrow> Some (Inr None)
                | JObj ms \<Rightarrow>
                    if typeName = ''icon'' then
                      (case assign_fields icon_config_fields IconProviderConfig_assign ms zero_IconProviderConfig of
                         None \<Rightarrow> Some (Inl ErrDecode)
                       | Some c \<Rightarrow> Some (Inr (Some (IconConfig c))))
                    else if typeName = ''evm'' then
                      (case assign_fields evm_config_fields EVMProviderConfig_assign ms zero_EVMProviderConfig of
                         None \<Rightarrow> Some (Inl ErrDecode)
                       | Some c \<Rightarrow> Some (Inr (Some (EvmConfig c))))
                    else Some (Inl ErrDecode)
                | _ \<Rightarrow> Some (Inl ErrDecode))
           | _ \<Rightarrow> None)
      | Some JNull \<Rightarrow> None
      | _ \<Rightarrow> Some (Inl ErrDecode))"

text \<open>The wrapper that is read: its type is never set, and a nil configuration panics.\<close>

definition ProviderConfigWrapper_UnmarshalJSON ::
    "(json \<Rightarrow> json) \<Rightarrow> string \<Rightarrow> (error + (string \<times> ProviderConfig)) go" where
  "ProviderConfigWrapper_UnmarshalJSON remarshal data =
     (case UnmarshalJSONProviderConfig remarshal data of
        None \<Rightarrow> None
      | Some (Inl e) \<Rightarrow> Some (Inl e)
      | Some (Inr None) \<Rightarrow> None
      | Some (Inr (Some pc)) \<Rightarrow> Some (Inr ([], pc)))"

subsection \<open>Loading and writing\<close>

text \<open>What becomes of one chain of the file, and the list of the chains that a file describes.\<close>

definition load_provider :: "'w Platform \<Rightarrow> string \<Rightarrow> ProviderConfig \<Rightarrow> error + 'w Provider" where
  "load_provider pf chainName pc =
     (case ProviderConfig_NewProvider pf chainName pc of Inl e \<Rightarrow> Inl e | Inr prov \<Rightarrow> Provider_Init pf prov)"

definition input_of :: "ConfigOutputWrapper \<Rightarrow> ConfigInputWrapper" where
  "input_of w = \<lparr>ci_Global = co_Global w, ci_ProviderConfigs = map (\<lambda>(n, v). (n, Some v)) (co_ProviderConfigs w)\<rparr>"

lemmas provider_defs =
  Provider_NID_def Provider_ChainName_def Provider_Type_def Provider_ProviderConfig_def

lemma IconProviderConfig_NewProvider_facts:
  assumes "IconProviderConfig_NewProvider n pc = Inr c"
  shows "ic_ChainName c = n" and "IconProviderConfig_NewProvider n c = Inr c"
  using assms
  by (auto simp: IconProviderConfig_NewProvider_def IconProviderConfig_Validate_def split: if_splits option.splits)

lemma EVMProviderConfig_NewProvider_facts:
  assumes "EVMProviderConfig_NewProvider new g n pc = Inr p"
  shows "ec_ChainName (ep_cfg p) = n" and "EVMProviderConfig_NewProvider new g n (ep_cfg p) = Inr p"
proof -
  obtain cl vcl where new: "new (ec_RPCUrl pc) (ec_ContractAddress pc) = Inr cl"
      "(if ec_VerifierRPCUrl pc \<noteq> [] then new (ec_VerifierRPCUrl pc) (ec_ContractAddress pc) else Inr cl) = Inr vcl"
    and p: "p = \<lparr>ep_client = cl, ep_verifier = vcl,
        ep_cfg = (if ec_FinalityBlock pc = 0 then pc\<lparr>ec_FinalityBlock := DefaultFinalityBlock\<rparr> else pc)\<lparr>ec_ChainName := n\<rparr>,
        ep_blockReq = getEventFilterQuery g (ec_ContractAddress pc), ep_wallet = None\<rparr>"
    using assms
    by (simp add: EVMProviderConfig_NewProvider_def EVMProviderConfig_Validate_def Let_def split: sum.splits)
  show "ec_ChainName (ep_cfg p) = n"
    by (simp add: p)
  have url: "ec_RPCUrl (ep_cfg p) = ec_RPCUrl pc" "ec_VerifierRPCUrl (ep_cfg p) = ec_VerifierRPCUrl pc"
      "ec_ContractAddress (ep_cfg p) = ec_ContractAddress pc"
    and fin: "ec_FinalityBlock (ep_cfg p) \<noteq> 0" "(ep_cfg p)\<lparr>ec_ChainName := n\<rparr> = ep_cfg p"
    by (simp_all add: p DefaultFinalityBlock_def)
  have eq: "\<lparr>ep_client = cl, ep_verifier = vcl, ep_cfg = ep_cfg p,
      ep_blockReq = getEventFilterQuery g (ec_ContractAddress pc), ep_wallet = None\<rparr> = p"
    by (simp add: p)
  show "EVMProviderConfig_NewProvider new g n (ep_cfg p) = Inr p"
    by (cases "ec_VerifierRPCUrl pc = []")
      (use new eq in \<open>simp_all add: EVMProviderConfig_NewProvider_def EVMProviderConfig_Validate_def url fin\<close>)
qed

lemma NewProvider_facts:
  assumes "ProviderConfig_NewProvider pf n pc = Inr prov"
  shows "Provider_ChainName prov = n"
    and "ProviderConfig_NewProvider pf n (Provider_ProviderConfig prov) = Inr prov"
  using assms
  by (auto simp: ProviderConfig_NewProvider_def provider_defs IconProviderConfig_NewProvider_facts
      EVMProviderConfig_NewProvider_facts split: ProviderConfig.splits sum.splits)

lemma Provider_Init_facts:
  assumes "Provider_Init pf prov = Inr prov'"
  shows "Provider_ChainName prov' = Provider_ChainName prov" and "Provider_NID prov' = Provider_NID prov"
    and "Provider_Type prov' = Provider_Type prov" and "Provider_ProviderConfig prov' = Provider_ProviderConfig prov"
  using assms by (auto simp: Provider_Init_def Evm_Init_def provider_defs split: Provider.splits sum.splits)

lemma load_provider_name: "load_provider pf n pc = Inr prov \<Longrightarrow> Provider_ChainName prov = n"
  by (auto simp: load_provider_def NewProvider_facts Provider_Init_facts split: sum.splits)

lemma load_provider_again:
  "load_provider pf n pc = Inr prov \<Longrightarrow> load_provider pf n (Provider_ProviderConfig prov) = Inr prov"
  by (auto simp: load_provider_def Provider_Init_facts NewProvider_facts split: sum.splits)

definition loads :: "'w Platform \<Rightarrow> string \<times> (string \<times> ProviderConfig) option \<Rightarrow> 'w Provider \<Rightarrow> bool" where
  "loads pf entry prov \<longleftrightarrow> (\<exists>ty pc. snd entry = Some (ty, pc) \<and> load_provider pf (fst entry) pc = Inr prov)"

lemma runtime_chains_Cons:
  "runtime_chains pf (x # cfgs) chs = Some (Inr out) \<longleftrightarrow>
     (\<exists>p. loads pf x p \<and> runtime_chains pf cfgs (map_set (Provider_NID p) p chs) = Some (Inr out))"
proof (cases x)
  case (Pair n v)
  show ?thesis
  proof (cases v)
    case (Some y)
    then obtain ty pc where y: "y = (ty, pc)" by (cases y)
    show ?thesis
      by (cases "ProviderConfig_NewProvider pf n pc"; cases "Provider_Init pf (projr (ProviderConfig_NewProvider pf n pc))")
        (simp_all add: Pair Some y loads_def load_provider_def)
  qed (simp add: Pair loads_def)
qed

lemma runtime_chains_iff:
  "runtime_chains pf cfgs chs = Some (Inr out) \<longleftrightarrow>
     (\<exists>provs. list_all2 (loads pf) cfgs provs \<and> out = fold (\<lambda>p. map_set (Provider_NID p) p) provs chs)"
proof (induction cfgs arbitrary: chs)
  case Nil
  then show ?case by auto
next
  case (Cons x cfgs)
  have "(\<exists>ps. list_all2 (loads pf) (x # cfgs) ps \<and> C ps) \<longleftrightarrow>
      (\<exists>p. loads pf x p \<and> (\<exists>ps. list_all2 (loads pf) cfgs ps \<and> C (p # ps)))" for C
    by (simp add: list_all2_Cons1) blast
  then show ?case
    by (simp add: runtime_chains_Cons Cons.IH del: runtime_chains.simps(2))
qed

text \<open>The chains of a loaded configuration, and that writing them and loading them again gives them back.\<close>

definition chains_ok :: "'w Platform \<Rightarrow> (string, 'w Provider) gomap \<Rightarrow> bool" where
  "chains_ok pf chs \<longleftrightarrow> map_wf chs \<and> distinct (map (Provider_ChainName \<circ> snd) chs) \<and>
     (\<forall>(k, p) \<in> set chs. k = Provider_NID p \<and> load_provider pf (Provider_ChainName p) (Provider_ProviderConfig p) = Inr p)"

lemma wrap_providers_distinct:
  "distinct (map (Provider_ChainName \<circ> snd) chs @ map fst acc) \<Longrightarrow>
   wrap_providers chs acc = acc @ map (\<lambda>(k, p). (Provider_ChainName p, Provider_Type p, Provider_ProviderConfig p)) chs"
proof (induction chs arbitrary: acc)
  case Nil
  then show ?case by simp
next
  case (Cons x chs)
  obtain k p where x: "x = (k, p)" by (cases x)
  have "Provider_ChainName p \<notin> fst ` set acc"
    using Cons.prems x by auto
  then have "map_set (Provider_ChainName p) v acc = acc @ [(Provider_ChainName p, v)]" for v
    by (induction acc) auto
  with Cons x show ?case by simp
qed

lemma map_set_fresh: "k \<notin> fst ` set m \<Longrightarrow> map_set k v m = m @ [(k, v)]"
  by (induction m) auto

text \<open>The chains that are loaded, seen as what each provider of the file adds.\<close>

lemma chains_ok_add:
  assumes "chains_ok pf chs" and "load_provider pf n pc = Inr p" and "n \<notin> (Provider_ChainName \<circ> snd) ` set chs"
  shows "chains_ok pf (map_set (Provider_NID p) p chs)"
proof -
  have n: "Provider_ChainName p = n" and again: "load_provider pf n (Provider_ProviderConfig p) = Inr p"
    using assms(2) by (rule load_provider_name, rule load_provider_again)
  have sub: "set (map_set k v m) \<subseteq> insert (k, v) (set m)" for k v and m :: "(string, 'a Provider) gomap"
    by (induction m) auto
  have dist: "distinct (map (Provider_ChainName \<circ> snd) (map_set k p m))"
    if "distinct (map (Provider_ChainName \<circ> snd) m)" and "n \<notin> (Provider_ChainName \<circ> snd) ` set m"
    for k and m :: "(string, 'a Provider) gomap"
    using that
  proof (induction m)
    case (Cons y m)
    have "Provider_ChainName (snd y) \<notin> (Provider_ChainName \<circ> snd) ` set (map_set k p m)"
    proof
      assume "Provider_ChainName (snd y) \<in> (Provider_ChainName \<circ> snd) ` set (map_set k p m)"
      then obtain z where "z \<in> insert (k, p) (set m)" and "Provider_ChainName (snd z) = Provider_ChainName (snd y)"
        using sub [of k p m] by (metis (no_types, lifting) comp_apply imageE subset_iff)
      with Cons.prems n show False
        by (cases "z = (k, p)") (auto simp: image_iff)
    qed
    with Cons show ?case by (cases y) (auto simp: n)
  qed simp
  show ?thesis
    using assms(1,3) dist [of chs "Provider_NID p"] sub [of "Provider_NID p" p chs] again n
    by (fastforce simp: chains_ok_def)
qed

lemma loaded_chains_ok:
  assumes "list_all2 (loads pf) cfgs provs" and "distinct (map fst cfgs)"
  shows "chains_ok pf (fold (\<lambda>p. map_set (Provider_NID p) p) provs [])"
proof -
  have "chains_ok pf (fold (\<lambda>p. map_set (Provider_NID p) p) provs chs)"
    if "chains_ok pf chs" and "\<forall>p \<in> snd ` set chs. Provider_ChainName p \<notin> fst ` set cfgs" for chs
    using assms that
  proof (induction arbitrary: chs rule: list_all2_induct)
    case (Cons x cfgs p provs)
    obtain ty pc where x: "snd x = Some (ty, pc)" "load_provider pf (fst x) pc = Inr p"
      using Cons.hyps(1) by (auto simp: loads_def)
    have "chains_ok pf (map_set (Provider_NID p) p chs)"
      using Cons.prems by (intro chains_ok_add [OF _ x(2)]) auto
    moreover have "\<forall>q \<in> snd ` set (map_set (Provider_NID p) p chs). Provider_ChainName q \<notin> fst ` set cfgs"
    proof
      fix q assume "q \<in> snd ` set (map_set (Provider_NID p) p chs)"
      then have "q = p \<or> q \<in> snd ` set chs"
        by (induction chs) (auto split: if_splits)
      then show "Provider_ChainName q \<notin> fst ` set cfgs"
      proof
        assume "q = p"
        then show ?thesis
          using Cons.prems(1) load_provider_name [OF x(2)] by simp
      qed (use Cons.prems(3) in auto)
    qed
    ultimately show ?case
      using Cons.IH Cons.prems(1) by simp
  qed simp
  moreover have "chains_ok pf []"
    by (simp add: chains_ok_def)
  ultimately show ?thesis
    by simp
qed

text \<open>Of the chains with one network id the last of the file is loaded.\<close>

lemma loaded_chain_last:
  "map_get (fold (\<lambda>p. map_set (Provider_NID p) p) provs chs) nid =
     (case find (\<lambda>p. Provider_NID p = nid) (rev provs) of None \<Rightarrow> map_get chs nid | Some p \<Rightarrow> Some p)"
  by (induction provs arbitrary: chs rule: rev_induct) auto

lemma loaded_chain_find:
  "map_get (fold (\<lambda>p. map_set (Provider_NID p) p) provs []) nid = find (\<lambda>p. Provider_NID p = nid) (rev provs)"
  by (simp add: loaded_chain_last split: option.splits)

lemma reload_chains:
  assumes "chains_ok pf chs"
  shows "runtime_chains pf (map (\<lambda>(n, v). (n, Some v)) (wrap_providers chs [])) acc
     = Some (Inr (fold (\<lambda>p. map_set (Provider_NID p) p) (map snd chs) acc))"
proof -
  have w: "wrap_providers chs [] = map (\<lambda>(k, p). (Provider_ChainName p, Provider_Type p, Provider_ProviderConfig p)) chs"
    using assms by (subst wrap_providers_distinct) (simp_all add: chains_ok_def)
  have "list_all2 (loads pf) (map (\<lambda>(n, v). (n, Some v)) (wrap_providers chs [])) (map snd chs)"
    using assms by (auto simp: w list_all2_conv_all_nth chains_ok_def loads_def dest!: nth_mem split: prod.splits)
  then show ?thesis
    by (auto simp: runtime_chains_iff)
qed

lemma fold_map_set_chains:
  assumes "chains_ok pf chs"
  shows "fold (\<lambda>p. map_set (Provider_NID p) p) (map snd chs) [] = chs"
proof -
  have "fold (\<lambda>p. map_set (Provider_NID p) p) (map snd chs) acc = acc @ chs"
    if "map_wf (acc @ chs)" and "\<forall>(k, p) \<in> set chs. k = Provider_NID p" for acc
    using that
  proof (induction chs arbitrary: acc)
    case (Cons y chs)
    obtain k p where y: "y = (k, p)" by (cases y)
    have k: "k = Provider_NID p" "map_set (Provider_NID p) p acc = acc @ [(k, p)]"
      using Cons.prems y by (auto intro!: map_set_fresh)
    with Cons.IH [of "acc @ [(k, p)]"] Cons.prems y show ?case
      by auto
  qed simp
  from this [of "[]"] show ?thesis
    using assms by (auto simp: chains_ok_def)
qed

lemma RuntimeConfig_ok:
  assumes "ConfigInputWrapper_RuntimeConfig pf ci = Some (Inr c)" and "distinct (map fst (ci_ProviderConfigs ci))"
  shows "chains_ok pf (cf_Chains c)"
  using assms loaded_chains_ok [OF _ assms(2)]
  by (auto simp: ConfigInputWrapper_RuntimeConfig_def runtime_chains_iff split: option.splits sum.splits)

lemma reload_config:
  "chains_ok pf (cf_Chains c) \<Longrightarrow> ConfigInputWrapper_RuntimeConfig pf (input_of (Config_Wrapped c)) = Some (Inr c)"
  by (simp add: ConfigInputWrapper_RuntimeConfig_def input_of_def Config_Wrapped_def reload_chains fold_map_set_chains)

subsection \<open>Properties\<close>


text \<open>A platform for examples, and a file with three chains, two of which have one network id.\<close>

definition sample_platform :: "unit Platform" where
  "sample_platform =
     \<lparr>pf_icon_client = (\<lambda>_. sample_rpc), pf_icon_debug = (\<lambda>url. url),
      pf_icon_signer = (\<lambda>_. \<lparr>sg_Wallet = Inl ErrNotFound, sg_serialize = Inr, sg_sha3 = (\<lambda>b. b), sg_now_estimate = 0,
        sg_now_sign = 0\<rparr>),
      pf_evm_client = (\<lambda>url addr. Inr (ep_client (sample_evm 12))), pf_geth = sample_geth,
      pf_evm_events = (\<lambda>_ _. EvmCtxDone), pf_RestoreKey = (\<lambda>_ _. Inl ErrNotFound)\<rparr>"

definition sample_icon :: "string \<Rightarrow> IconProviderConfig" where
  "sample_icon nid = zero_IconProviderConfig\<lparr>ic_RPCUrl := ''http://x'', ic_NID := nid\<rparr>"

definition sample_config :: "unit Config" where
  "sample_config =
     \<lparr>cf_Global = None,
      cf_Chains = [(''i1'', IconProv ((sample_icon ''i1'')\<lparr>ic_ChainName := ''third''\<rparr>)),
                   (''i2'', IconProv ((sample_icon ''i2'')\<lparr>ic_ChainName := ''second''\<rparr>))]\<rparr>"

definition sample_file :: ConfigInputWrapper where
  "sample_file =
     \<lparr>ci_Global = None,
      ci_ProviderConfigs =
        [(''first'', Some (''icon'', IconConfig (sample_icon ''i1''))), (''second'', Some (''icon'', IconConfig (sample_icon ''i2''))),
         (''third'', Some (''icon'', IconConfig (sample_icon ''i1'')))]\<rparr>"

lemmas sample_config_defs =
  sample_icon_def sample_config_def sample_file_def ProviderConfig_NewProvider_def IconProviderConfig_NewProvider_def
  IconProviderConfig_Validate_def Provider_Init_def

lemma sample_file_loads: "ConfigInputWrapper_RuntimeConfig sample_platform sample_file = Some (Inr sample_config)"
  by (simp add: ConfigInputWrapper_RuntimeConfig_def sample_config_defs zero_IconProviderConfig_def provider_defs)


subsection \<open>Types\<close>

text \<open>The type a configuration has at run time, by the name the files give it.\<close>

definition config_tag :: "ProviderConfig \<Rightarrow> string" where
  "config_tag pc = (case pc of IconConfig _ \<Rightarrow> ''icon'' | EvmConfig _ \<Rightarrow> ''evm'')"

lemma Provider_Type_tag: "Provider_Type p = config_tag (Provider_ProviderConfig p)"
  by (simp add: Provider_Type_def Provider_ProviderConfig_def config_tag_def split: Provider.splits)

lemma load_provider_tag:
  assumes "load_provider pf n pc = Inr p"
  shows "Provider_Type p = config_tag pc"
proof -
  obtain prov where prov: "ProviderConfig_NewProvider pf n pc = Inr prov" "Provider_Init pf prov = Inr p"
    using assms by (auto simp: load_provider_def split: sum.splits)
  from prov(1) have "Provider_Type prov = config_tag pc"
    by (auto simp: ProviderConfig_NewProvider_def Provider_Type_def config_tag_def split: ProviderConfig.splits sum.splits)
  with Provider_Init_facts(3) [OF prov(2)] show ?thesis
    by simp
qed

lemma wrap_providers_tags:
  "\<forall>(n, ty, pc) \<in> set acc. ty = config_tag pc \<Longrightarrow> \<forall>(n, ty, pc) \<in> set (wrap_providers chs acc). ty = config_tag pc"
proof (induction chs acc rule: wrap_providers.induct)
  case (2 k chain chs acc)
  have "set (map_set n v m) \<subseteq> insert (n, v) (set m)" for n v and m :: "(string, string \<times> ProviderConfig) gomap"
    by (induction m) auto
  then have "\<forall>(n, ty, pc) \<in> set (map_set (Provider_ChainName chain) (Provider_Type chain, Provider_ProviderConfig chain) acc).
      ty = config_tag pc"
    using 2(2) by (fastforce simp: Provider_Type_tag)
  then show ?case
    by (simp add: 2(1))
qed simp

lemma UnmarshalYAML_tag:
  assumes "ProviderConfigYAMLWrapper_UnmarshalYAML decode decode_icon decode_evm n = Inr (ty, pc)"
  shows "ty = config_tag pc"
proof -
  obtain t v where d: "decode n = Inr (t, v)"
    using assms by (cases "decode n") (auto simp: ProviderConfigYAMLWrapper_UnmarshalYAML_def)
  show ?thesis
    using assms d by (simp add: ProviderConfigYAMLWrapper_UnmarshalYAML_def config_tag_def
        split: if_split_asm sum.split_asm) auto
qed

lemma UnmarshalJSONProviderConfig_tag:
  assumes "UnmarshalJSONProviderConfig remarshal data = Some (Inr (Some pc))"
  obtains kvs where "json_parse data = Some (JObj kvs)" and "map_get (rev kvs) ''type'' = Some (JStr (config_tag pc))"
proof -
  obtain kvs where kvs: "json_parse data = Some (JObj kvs)"
  proof (cases "json_parse data")
    case (Some j)
    with assms that show ?thesis by (cases j) (simp_all add: UnmarshalJSONProviderConfig_def)
  qed (use assms in \<open>simp add: UnmarshalJSONProviderConfig_def\<close>)
  obtain ty where ty: "map_get (rev kvs) ''type'' = Some (JStr ty)"
  proof (cases "map_get (rev kvs) ''type''")
    case (Some j)
    with assms kvs that show ?thesis by (cases j) (simp_all add: UnmarshalJSONProviderConfig_def)
  qed (use assms kvs in \<open>simp add: UnmarshalJSONProviderConfig_def\<close>)
  define v where "v = (case map_get (rev kvs) ''value'' of None \<Rightarrow> JNull | Some v \<Rightarrow> remarshal v)"
  have u: "(case v of JNull \<Rightarrow> Some (Inr None)
      | JObj ms \<Rightarrow>
          if ty = ''icon'' then
            (case assign_fields icon_config_fields IconProviderConfig_assign ms zero_IconProviderConfig of
               None \<Rightarrow> Some (Inl ErrDecode) | Some c \<Rightarrow> Some (Inr (Some (IconConfig c))))
          else if ty = ''evm'' then
            (case assign_fields evm_config_fields EVMProviderConfig_assign ms zero_EVMProviderConfig of
               None \<Rightarrow> Some (Inl ErrDecode) | Some c \<Rightarrow> Some (Inr (Some (EvmConfig c))))
          else Some (Inl ErrDecode)
      | _ \<Rightarrow> Some (Inl ErrDecode)) = (Some (Inr (Some pc)) :: (error + ProviderConfig option) go)"
    using assms kvs ty by (simp only: UnmarshalJSONProviderConfig_def v_def option.case json.case)
  have "ty = config_tag pc"
  proof (cases v)
    case (JObj ms)
    with u show ?thesis
      by (simp add: config_tag_def split: if_split_asm option.split_asm) auto
  qed (use u in simp_all)
  with kvs ty that show ?thesis by blast
qed

lemma UnmarshalJSON_tag:
  assumes "ProviderConfigWrapper_UnmarshalJSON remarshal data = Some (Inr (t, pc))"
  shows "t = [] \<and> (\<exists>kvs. json_parse data = Some (JObj kvs) \<and> map_get (rev kvs) ''type'' = Some (JStr (config_tag pc)))"
proof -
  have "t = []" and u: "UnmarshalJSONProviderConfig remarshal data = Some (Inr (Some pc))"
    using assms by (auto simp: ProviderConfigWrapper_UnmarshalJSON_def split: option.splits sum.splits)
  from u show ?thesis
    using \<open>t = []\<close> by (auto elim: UnmarshalJSONProviderConfig_tag)
qed

text \<open>C33: The dynamic types of configurations. A chain read from YAML carries as its type the name of the
  type its value has; the provider built from a configuration answers \<open>Type\<close> with the type of that
  configuration; and every chain that is written to the file carries the type of its value. So
  what is written can be read. A chain read from JSON has the type its document declares, but the
  type in the wrapper stays empty.\<close>

theorem provider_types_sound:
  shows "(ProviderConfigYAMLWrapper_UnmarshalYAML decode decode_icon decode_evm n = Inr (ty, pc) \<longrightarrow> ty = config_tag pc)
    \<and> (load_provider pf chainName pc = Inr p \<longrightarrow>
         Provider_Type p = config_tag pc \<and> config_tag (Provider_ProviderConfig p) = config_tag pc)
    \<and> (\<forall>(name, ty', pc') \<in> set (co_ProviderConfigs (Config_Wrapped c)). ty' = config_tag pc')
    \<and> (ProviderConfigWrapper_UnmarshalJSON remarshal data = Some (Inr (ty'', pc)) \<longrightarrow>
         ty'' = [] \<and> (\<exists>kvs. json_parse data = Some (JObj kvs) \<and> map_get (rev kvs) ''type'' = Some (JStr (config_tag pc))))"
proof (intro conjI impI)
  show "ty = config_tag pc" if "ProviderConfigYAMLWrapper_UnmarshalYAML decode decode_icon decode_evm n = Inr (ty, pc)"
    using that by (rule UnmarshalYAML_tag)
  show "Provider_Type p = config_tag pc" if "load_provider pf chainName pc = Inr p"
    using that by (rule load_provider_tag)
  show "config_tag (Provider_ProviderConfig p) = config_tag pc" if "load_provider pf chainName pc = Inr p"
    using load_provider_tag [OF that] by (simp add: Provider_Type_tag)
  show "\<forall>(name, ty', pc') \<in> set (co_ProviderConfigs (Config_Wrapped c)). ty' = config_tag pc'"
    using wrap_providers_tags [of "[]" "cf_Chains c"] by (simp add: Config_Wrapped_def)
  assume u: "ProviderConfigWrapper_UnmarshalJSON remarshal data = Some (Inr (ty'', pc))"
  show "ty'' = []" "\<exists>kvs. json_parse data = Some (JObj kvs) \<and> map_get (rev kvs) ''type'' = Some (JStr (config_tag pc))"
    using UnmarshalJSON_tag [OF u] by blast+
qed

theorem provider_types_sound_witness:
  "ProviderConfigYAMLWrapper_UnmarshalYAML Inr (\<lambda>v. Inr (sample_icon ''i1'')) (\<lambda>v. Inl ErrDecode) (''icon'', ())
      = Inr (''icon'', IconConfig (sample_icon ''i1'')) \<and> ''icon'' = config_tag (IconConfig (sample_icon ''i1''))
    \<and> map (\<lambda>(n, ty, pc). ty) (co_ProviderConfigs (Config_Wrapped sample_config)) = [''icon'', ''icon'']"
proof -
  have y: "ProviderConfigYAMLWrapper_UnmarshalYAML Inr (\<lambda>v. Inr (sample_icon ''i1'')) (\<lambda>v. Inl ErrDecode) (''icon'', ())
      = Inr (''icon'', IconConfig (sample_icon ''i1''))"
    by (simp add: ProviderConfigYAMLWrapper_UnmarshalYAML_def)
  then show ?thesis
    using provider_types_sound [of Inr "\<lambda>v. Inr (sample_icon ''i1'')" "\<lambda>v. Inl ErrDecode" "(''icon'', ())" "''icon''"
        "IconConfig (sample_icon ''i1'')" sample_platform "[]" undefined sample_config id "[]" "[]"]
    by (simp add: Config_Wrapped_def sample_config_def provider_defs)
qed

end
