(* ===== verification/CmdCommands.thy ===== *)
theory CmdCommands
  imports CmdConfig Relay OsFiles
begin

text \<open>
  \<^verbatim>\<open>cmd/appstate.go\<close>, \<^verbatim>\<open>cmd/chains.go\<close>, \<^verbatim>\<open>cmd/db.go\<close>, \<^verbatim>\<open>cmd/start.go\<close>, \<^verbatim>\<open>cmd/root.go\<close> and the
  commands of \<^verbatim>\<open>cmd/config.go\<close>: what the commands do with the configuration file, the database and
  the relayer. The marshallers of documents are the record \<open>Docs\<close>. Printed text is a list of
  lines.
\<close>

subsection \<open>Documents\<close>

record Docs =
  yaml_Unmarshal :: "bytes \<Rightarrow> error + ConfigInputWrapper"
  yaml_Marshal :: "ConfigOutputWrapper \<Rightarrow> error + bytes"
  json_Marshal :: "ConfigOutputWrapper \<Rightarrow> error + bytes"
  yaml_Marshal_providers :: "(string, string \<times> ProviderConfig) gomap \<Rightarrow> error + bytes"
  json_Marshal_providers :: "(string, string \<times> ProviderConfig) gomap \<Rightarrow> error + bytes"

subsection \<open>The state of the program\<close>

datatype log_encoder = JsonEncoder | ConsoleEncoder | LogfmtEncoder

record ('w, 'd) appState =
  ap_log :: "(log_encoder \<times> bool) option"
  ap_configPath :: string
  ap_dbPath :: string
  ap_debug :: bool
  ap_config :: "'w Config option"
  ap_db :: "'d option"

definition appState_loadConfigFile ::
    "'w Platform \<Rightarrow> Docs \<Rightarrow> Fs \<Rightarrow> ('w, 'd) appState \<Rightarrow> (error option \<times> ('w, 'd) appState) go" where
  "appState_loadConfigFile pf docs fs a =
     (case os_Stat fs (ap_configPath a) of
        Some e \<Rightarrow> Some (None, a)
      | None \<Rightarrow>
          (case os_ReadFile fs (ap_configPath a) of
             Inl e \<Rightarrow> Some (Some (ErrMsg ''error reading file''), a)
           | Inr file \<Rightarrow>
               (case yaml_Unmarshal docs file of
                  Inl e \<Rightarrow> Some (Some (ErrMsg ''error unmarshalling config''), a)
                | Inr cfgWrapper \<Rightarrow>
                    (case ConfigInputWrapper_RuntimeConfig pf cfgWrapper of
                       None \<Rightarrow> None
                     | Some (Inl e) \<Rightarrow> Some (Some e, a)
                     | Some (Inr newCfg) \<Rightarrow>
                         (case Config_validateConfig newCfg of
                            Some e \<Rightarrow> Some (Some (ErrMsg ''error parsing chain config''), a)
                          | None \<Rightarrow> Some (None, a\<lparr>ap_config := Some newCfg\<rparr>))))))"

text \<open>
  \<open>performConfigLockingOperation\<close> in two halves, as two processes interleave: up to the end of the
  operation, and the writing. \<open>trylock\<close> is what \<open>TryLock\<close> answers: an error, or whether the lock was
  obtained, which is thrown away.
\<close>

definition locking_begin ::
    "'w Platform \<Rightarrow> Docs \<Rightarrow> error + bool \<Rightarrow> (('w, 'd) appState \<Rightarrow> (error option \<times> ('w, 'd) appState) go)
       \<Rightarrow> Fs \<Rightarrow> ('w, 'd) appState \<Rightarrow> (error option \<times> ('w, 'd) appState) go" where
  "locking_begin pf docs trylock operation fs a =
     (case trylock of
        Inl e \<Rightarrow> Some (Some (ErrMsg ''failed to acquire config lock''), a)
      | Inr locked \<Rightarrow>
          (case appState_loadConfigFile pf docs fs a of
             None \<Rightarrow> None
           | Some (Some e, a') \<Rightarrow> Some (Some (ErrMsg ''failed to initialize config from file''), a')
           | Some (None, a') \<Rightarrow> operation a'))"

definition locking_end :: "Docs \<Rightarrow> Fs \<Rightarrow> ('w, 'd) appState \<Rightarrow> (error option \<times> Fs) go" where
  "locking_end docs fs a =
     (case ap_config a of
        None \<Rightarrow> None
      | Some c \<Rightarrow>
          (case Config_validateConfig c of
             Some e \<Rightarrow> Some (Some (ErrMsg ''error parsing chain config''), fs)
           | None \<Rightarrow>
               (case yaml_Marshal docs (Config_Wrapped c) of
                  Inl e \<Rightarrow> Some (Some e, fs)
                | Inr out \<Rightarrow>
                    (case os_WriteFile fs (ap_configPath a) out of
                       (Some e, fs') \<Rightarrow> Some (Some (ErrMsg ''failed to write config file''), fs')
                     | (None, fs') \<Rightarrow> Some (None, fs')))))"

definition performConfigLockingOperation ::
    "'w Platform \<Rightarrow> Docs \<Rightarrow> error + bool \<Rightarrow> (('w, 'd) appState \<Rightarrow> (error option \<times> ('w, 'd) appState) go)
       \<Rightarrow> Fs \<Rightarrow> ('w, 'd) appState \<Rightarrow> (error option \<times> ('w, 'd) appState \<times> Fs) go" where
  "performConfigLockingOperation pf docs trylock operation fs a =
     (case locking_begin pf docs trylock operation fs a of
        None \<Rightarrow> None
      | Some (Some e, a') \<Rightarrow> Some (Some e, a', fs)
      | Some (None, a') \<Rightarrow>
          (case locking_end docs fs a' of
             None \<Rightarrow> None
           | Some (err, fs') \<Rightarrow> Some (err, a', fs')))"

subsection \<open>The commands on chains\<close>

definition errChainNotFound :: "string \<Rightarrow> error" where
  "errChainNotFound chainName =
     ErrMsg (''chain with name '' @ [CHR 0x22] @ chainName @ [CHR 0x22] @
       '' not found in config. consider running `rly chains add '' @ chainName @ ''`'')"

definition errBothFormats :: error where
  "errBothFormats = ErrMsg (''can'' @ [CHR 0x27] @ ''t pass both --json and --yaml, must pick one'')"

text \<open>\<open>filepath.Base\<close> and the part before the first dot.\<close>

definition filepath_Base :: "string \<Rightarrow> string" where
  "filepath_Base p =
     (if p = [] then ''.''
      else
        (let q = rev (dropWhile (\<lambda>c. c = CHR ''/'') (rev p))
         in if q = [] then ''/'' else rev (takeWhile (\<lambda>c. c \<noteq> CHR ''/'') (rev q))))"

definition before_dot :: "string \<Rightarrow> string" where
  "before_dot s = takeWhile (\<lambda>c. c \<noteq> CHR ''.'') s"

definition addChainFromFile ::
    "'w Platform \<Rightarrow> (json \<Rightarrow> json) \<Rightarrow> Fs \<Rightarrow> string \<Rightarrow> string \<Rightarrow> ('w, 'd) appState
       \<Rightarrow> (error option \<times> ('w, 'd) appState) go" where
  "addChainFromFile pf remarshal fs chainName file a =
     (case os_Stat fs file of
        Some e \<Rightarrow> Some (Some e, a)
      | None \<Rightarrow>
          (case os_ReadFile fs file of
             Inl e \<Rightarrow> Some (Some e, a)
           | Inr byt \<Rightarrow>
               (case ProviderConfigWrapper_UnmarshalJSON remarshal byt of
                  None \<Rightarrow> None
                | Some (Inl e) \<Rightarrow> Some (Some e, a)
                | Some (Inr (ty, pc)) \<Rightarrow>
                    (case ProviderConfig_NewProvider pf chainName pc of
                       Inl e \<Rightarrow> Some (Some (ErrMsg (''failed to build ChainProvider for '' @ file)), a)
                     | Inr prov \<Rightarrow>
                         (case ap_config a of
                            None \<Rightarrow> None
                          | Some c \<Rightarrow>
                              (case Config_AddChain pf (ap_debug a) c prov of
                                 (Some e, c') \<Rightarrow> Some (Some e, a)
                               | (None, c') \<Rightarrow> Some (None, a\<lparr>ap_config := Some c'\<rparr>)))))))"

definition add_operation ::
    "'w Platform \<Rightarrow> (json \<Rightarrow> json) \<Rightarrow> Fs \<Rightarrow> string \<Rightarrow> string list \<Rightarrow> ('w, 'd) appState
       \<Rightarrow> (error option \<times> ('w, 'd) appState) go" where
  "add_operation pf remarshal fs file args a =
     (if file \<noteq> [] then
        (case args of
           [] \<Rightarrow> addChainFromFile pf remarshal fs (before_dot (filepath_Base file)) file a
         | [chainName] \<Rightarrow> addChainFromFile pf remarshal fs chainName file a
         | _ \<Rightarrow> Some (Some (ErrMsg ''one chain name is required''), a))
      else Some (Some (ErrMsg ''file not present''), a))"

definition chainsAddCmd ::
    "'w Platform \<Rightarrow> Docs \<Rightarrow> (json \<Rightarrow> json) \<Rightarrow> error + bool \<Rightarrow> error + string \<Rightarrow> string list \<Rightarrow> Fs \<Rightarrow> ('w, 'd) appState
       \<Rightarrow> (error option \<times> ('w, 'd) appState \<times> Fs) go" where
  "chainsAddCmd pf docs remarshal trylock fileFlag args fs a =
     (case fileFlag of
        Inl e \<Rightarrow> Some (Some (ErrMsg ''File is not present''), a, fs)
      | Inr file \<Rightarrow>
          if ap_config a = None
          then Some (Some (ErrMsg ''config not initialized, consider running `rly config init`''), a, fs)
          else performConfigLockingOperation pf docs trylock (add_operation pf remarshal fs file args) fs a)"

definition delete_operation :: "string \<Rightarrow> ('w, 'd) appState \<Rightarrow> (error option \<times> ('w, 'd) appState) go" where
  "delete_operation chain a =
     (case ap_config a of
        None \<Rightarrow> None
      | Some c \<Rightarrow>
          if map_get (cf_Chains c) chain = None then Some (Some (errChainNotFound chain), a)
          else Some (None, a\<lparr>ap_config := Some (Config_DeleteChain c chain)\<rparr>))"

text \<open>One argument, as \<open>cobra.ExactArgs(1)\<close> makes sure.\<close>

definition chainsDeleteCmd ::
    "'w Platform \<Rightarrow> Docs \<Rightarrow> error + bool \<Rightarrow> string \<Rightarrow> Fs \<Rightarrow> ('w, 'd) appState
       \<Rightarrow> (error option \<times> ('w, 'd) appState \<times> Fs) go" where
  "chainsDeleteCmd pf docs trylock chain fs a =
     performConfigLockingOperation pf docs trylock (delete_operation chain) fs a"

text \<open>\<open>%-ns\<close> of \<open>fmt\<close>, in characters.\<close>

definition pad_right :: "nat \<Rightarrow> string \<Rightarrow> string" where
  "pad_right n s = s @ replicate (n - length s) CHR '' ''"

fun list_chains :: "nat \<Rightarrow> (string, 'w Provider) gomap \<Rightarrow> string list" where
  "list_chains i [] = []"
| "list_chains i ((k, c) # cs) =
     (fmt_uint 10 (i + 1) @ '': '' @ pad_right 20 (Provider_NID c) @ '' -> type('' @ Provider_Type c @ '')'')
       # list_chains (i + 1) cs"

text \<open>The error, what goes to the error output, and what is printed.\<close>

definition chainsListCmd ::
    "Docs \<Rightarrow> error + bool \<Rightarrow> error + bool \<Rightarrow> ('w, 'd) appState \<Rightarrow> (error option \<times> string list \<times> string list) go" where
  "chainsListCmd docs jsonFlag yamlFlag a =
     (case jsonFlag of
        Inl e \<Rightarrow> Some (Some e, [], [])
      | Inr jsn \<Rightarrow>
          (case yamlFlag of
             Inl e \<Rightarrow> Some (Some e, [], [])
           | Inr yml \<Rightarrow>
               (case ap_config a of
                  None \<Rightarrow> None
                | Some c \<Rightarrow>
                    (let configs = co_ProviderConfigs (Config_Wrapped c);
                         warn = (if configs = [] then [''warning: no chains found (do you need to run '' @ [CHR 0x27] @ ''rly chains add'' @ [CHR 0x27] @ ''?)''] else [])
                     in Some
                       (if yml \<and> jsn then (Some (errBothFormats), warn, [])
                        else if yml then
                          (case yaml_Marshal_providers docs configs of Inl e \<Rightarrow> (Some e, warn, []) | Inr out \<Rightarrow> (None, warn, [out]))
                        else if jsn then
                          (case json_Marshal_providers docs configs of Inl e \<Rightarrow> (Some e, warn, []) | Inr out \<Rightarrow> (None, warn, [out]))
                        else (None, warn, list_chains 0 (cf_Chains c)))))))"

subsection \<open>The commands on the configuration\<close>

definition configShowCmd ::
    "Docs \<Rightarrow> error + string \<Rightarrow> error + bool \<Rightarrow> error + bool \<Rightarrow> Fs \<Rightarrow> ('w, 'd) appState \<Rightarrow> (error option \<times> string list) go" where
  "configShowCmd docs homeFlag jsonFlag yamlFlag fs a =
     (case homeFlag of
        Inl e \<Rightarrow> Some (Some e, [])
      | Inr home \<Rightarrow>
          if os_Stat fs (ap_configPath a) = Some ErrNotFound then
            (if os_Stat fs home = Some ErrNotFound
             then Some (Some (ErrMsg (''home path does not exist: '' @ home)), [])
             else Some (Some (ErrMsg (''config does not exist: '' @ ap_configPath a)), []))
          else
            (case jsonFlag of
               Inl e \<Rightarrow> Some (Some e, [])
             | Inr jsn \<Rightarrow>
                 (case yamlFlag of
                    Inl e \<Rightarrow> Some (Some e, [])
                  | Inr yml \<Rightarrow>
                      if yml \<and> jsn then Some (Some (errBothFormats), [])
                      else
                        (case ap_config a of
                           None \<Rightarrow> None
                         | Some c \<Rightarrow>
                             (case (if jsn then json_Marshal docs else yaml_Marshal docs) (Config_Wrapped c) of
                                Inl e \<Rightarrow> Some (Some e, [])
                              | Inr out \<Rightarrow> Some (None, [out]))))))"

text \<open>\<open>path.Clean\<close> and \<open>path.Join\<close>: \<open>acc\<close> is the cleaned path so far, its last part first.\<close>

fun clean_parts :: "bool \<Rightarrow> string list \<Rightarrow> string list \<Rightarrow> string list" where
  "clean_parts rooted acc [] = rev acc"
| "clean_parts rooted acc (p # ps) =
     (if p = [] \<or> p = ''.'' then clean_parts rooted acc ps
      else if p = ''..'' then
        (if acc \<noteq> [] \<and> hd acc \<noteq> ''..'' then clean_parts rooted (tl acc) ps
         else if rooted then clean_parts rooted acc ps
         else clean_parts rooted (p # acc) ps)
      else clean_parts rooted (p # acc) ps)"

definition path_Clean :: "string \<Rightarrow> string" where
  "path_Clean s =
     (if s = [] then ''.''
      else
        (let rooted = (hd s = CHR ''/'');
             parts = clean_parts rooted [] (split_at CHR ''/'' s)
         in if rooted then ''/'' @ strings_Join parts ''/''
            else if parts = [] then ''.'' else strings_Join parts ''/''))"

definition path_Join :: "string list \<Rightarrow> string" where
  "path_Join elems =
     (let es = filter (\<lambda>e. e \<noteq> []) elems in if es = [] then [] else path_Clean (strings_Join es ''/''))"

text \<open>\<open>config init\<close>: the home directory is made when it is missing, and then made again as the directory
  of the configuration, which is the same path cleaned. \<open>yaml\<close> marshals the configuration.\<close>

definition configInitCmd :: "('w Config \<Rightarrow> error + bytes) \<Rightarrow> error + string \<Rightarrow> Fs \<Rightarrow> (error option \<times> Fs) go" where
  "configInitCmd yaml homeFlag fs =
     (case homeFlag of
        Inl e \<Rightarrow> Some (Some e, fs)
      | Inr home \<Rightarrow>
          (let cfgDir = path_Join [home];
               cfgPath = path_Join [cfgDir, ''config.yaml'']
           in if os_Stat fs cfgPath \<noteq> Some ErrNotFound
              then Some (Some (ErrMsg (''config already exists: '' @ cfgPath)), fs)
              else
                (let made =
                   (if os_Stat fs cfgDir \<noteq> Some ErrNotFound then (None, fs)
                    else
                      (case (if os_Stat fs home \<noteq> Some ErrNotFound then (None, fs) else os_Mkdir fs home) of
                         (Some e, fs1) \<Rightarrow> (Some e, fs1)
                       | (None, fs1) \<Rightarrow> os_Mkdir fs1 cfgDir))
                 in case made of
                      (Some e, fs2) \<Rightarrow> Some (Some e, fs2)
                    | (None, fs2) \<Rightarrow>
                        (case os_WriteFile fs2 cfgPath [] of
                           (Some e, fs3) \<Rightarrow> Some (Some e, fs3)
                         | (None, fs3) \<Rightarrow>
                             (case defaultConfigYAML yaml of
                                None \<Rightarrow> None
                              | Some out \<Rightarrow> Some (os_WriteFile fs3 cfgPath out))))))"

subsection \<open>The commands on the database\<close>

record dbState =
  db_chain :: string
  db_sn :: u64
  db_page :: u64
  db_limit :: u64

definition NewDBState :: dbState where
  "NewDBState = \<lparr>db_chain = [], db_sn = 0, db_page = 0, db_limit = 0\<rparr>"

text \<open>The chains of the configuration, as the relayer takes them.\<close>

definition app_chains :: "'w Platform \<Rightarrow> ('w, 'd) appState \<Rightarrow> (string \<times> 'w Chain option) list go" where
  "app_chains pf a =
     map_option (\<lambda>c. map (\<lambda>(k, ch). (k, Some ch))
         (Chains_GetAll (map (\<lambda>(k, p). (k, NewChain (Provider_ChainProvider pf p) (ap_debug a))) (cf_Chains c))))
       (ap_config a)"

text \<open>\<open>log.Fatal\<close> ends the program, as a panic does.\<close>

definition dbState_GetRelayer ::
    "'d Store \<Rightarrow> 'w Platform \<Rightarrow> 'd \<Rightarrow> 'w \<Rightarrow> ('w, 'd) appState \<Rightarrow> ('d, 'w) Relayer go" where
  "dbState_GetRelayer S pf db w a =
     (case app_chains pf a of
        None \<Rightarrow> None
      | Some cfg \<Rightarrow> (case NewRelayer S db w cfg False of (Inl e, d) \<Rightarrow> None | (Inr r, d) \<Rightarrow> Some r))"

definition printLabels :: "string list \<Rightarrow> string list" where
  "printLabels labels =
     [concat (map (\<lambda>l. pad_right 10 l @ '' '') labels),
      concat (map (\<lambda>l. pad_right 10 (replicate 10 CHR ''-'') @ '' '') labels)]"

text \<open>A value is a string or an integer.\<close>

definition printValues :: "(string + u64) list \<Rightarrow> string" where
  "printValues vals =
     concat (map (\<lambda>v. pad_right 10 (case v of Inl s \<Rightarrow> s | Inr n \<Rightarrow> sprintf_d n) @ '' '') vals)"

definition message_line :: "RouteMessage \<Rightarrow> string go" where
  "message_line r =
     map_option (\<lambda>m. concat (map (\<lambda>s. pad_right 10 s @ '' '')
         [sprintf_d (msg_Sn m), msg_Src m, msg_Dst m, sprintf_d (msg_MessageHeight m), msg_EventType m, sprintf_d (rm_Retry r)]))
       (rm_Message r)"

definition dbState_messagesList ::
    "'d Store \<Rightarrow> 'w Platform \<Rightarrow> 'd \<Rightarrow> 'w \<Rightarrow> dbState \<Rightarrow> ('w, 'd) appState \<Rightarrow> (error option \<times> string list) go" where
  "dbState_messagesList S pf db w d a =
     (case dbState_GetRelayer S pf db w a of
        None \<Rightarrow> None
      | Some rly \<Rightarrow>
          (let pg = Pagination_WithPage NewPagination (db_page d) (db_limit d);
               started = ''Listing messages stored in the database...''
           in case MessageStore_GetMessages S prefixMessageStore (rl_db rly) (db_chain d) pg of
                Inl e \<Rightarrow> Some (Some e, [started])
              | Inr messages \<Rightarrow>
                  (let totalMessages = length messages
                   in if totalMessages = 0 then Some (None, [started, ''No messages found in the database''])
                      else
                        (case (those (map message_line messages), Pagination_CalculateTotalPages pg (of_nat totalMessages)) of
                           (Some rows, Some pages) \<Rightarrow>
                             Some (None, [started] @ printLabels [''Sn'', ''Src'', ''Dst'', ''Height'', ''Event'', ''Retry''] @ rows @
                               [''Total: '' @ fmt_uint 10 totalMessages,
                                ''Page: '' @ sprintf_d (db_page d) @ ''/'' @ sprintf_d pages])
                         | _ \<Rightarrow> None))))"

text \<open>The message that is relayed by hand is in no cache: it gets an object of its own.\<close>

definition dbState_messagesRelay ::
    "'d Store \<Rightarrow> 'w Platform \<Rightarrow> 'd \<Rightarrow> 'w \<Rightarrow> dbState \<Rightarrow> ('w, 'd) appState \<Rightarrow> (error option \<times> ('d, 'w) Relayer) go" where
  "dbState_messagesRelay S pf db w d a =
     (case dbState_GetRelayer S pf db w a of
        None \<Rightarrow> None
      | Some rly \<Rightarrow>
          (let key = NewMessageKey (db_sn d) (db_chain d) [] []
           in case MessageStore_GetMessage S prefixMessageStore (rl_db rly) key of
                Inl e \<Rightarrow> Some (Some e, rly)
              | Inr message0 \<Rightarrow>
                  (let message = RouteMessage_SetIsProcessing message0 True
                   in case MessageStore_StoreMessage S prefixMessageStore (rl_db rly) (Some message) of
                        None \<Rightarrow> None
                      | Some (Some e, db') \<Rightarrow> Some (Some e, rly\<lparr>rl_db := db'\<rparr>)
                      | Some (None, db') \<Rightarrow>
                          (let rly1 = rly\<lparr>rl_db := db'\<rparr>
                           in case rm_Message message of
                                None \<Rightarrow> None
                              | Some m \<Rightarrow>
                                  (case Relayer_FindChainRuntime rly1 (msg_Src m) of
                                     Inl e \<Rightarrow> Some (Some e, rly1)
                                   | Inr srcChain \<Rightarrow>
                                       (case Relayer_FindChainRuntime rly1 (msg_Dst m) of
                                          Inl e \<Rightarrow> Some (Some e, rly1)
                                        | Inr dstChain \<Rightarrow>
                                            (let (addr, h) = heap_new (rl_heap rly1) message
                                             in map_option (\<lambda>r. (None, r))
                                                  (Relayer_RouteMessage S addr (msg_Dst m) (msg_Src m) (rly1\<lparr>rl_heap := h\<rparr>)))))))))"

definition dbState_messagesRm ::
    "'d Store \<Rightarrow> 'w Platform \<Rightarrow> 'd \<Rightarrow> 'w \<Rightarrow> dbState \<Rightarrow> ('w, 'd) appState \<Rightarrow> (error option \<times> 'd) go" where
  "dbState_messagesRm S pf db w d a =
     (case dbState_GetRelayer S pf db w a of
        None \<Rightarrow> None
      | Some rly \<Rightarrow>
          (let key = NewMessageKey (db_sn d) (db_chain d) [] []
           in case MessageStore_GetMessage S prefixMessageStore (rl_db rly) key of
                Inl e \<Rightarrow> Some (Some e, rl_db rly)
              | Inr message \<Rightarrow> Some (MessageStore_DeleteMessage S prefixMessageStore (rl_db rly) key)))"

definition dbState_blockInfo ::
    "'d Store \<Rightarrow> 'w Platform \<Rightarrow> 'd \<Rightarrow> 'w \<Rightarrow> dbState \<Rightarrow> ('w, 'd) appState \<Rightarrow> (error option \<times> string list) go" where
  "dbState_blockInfo S pf db w d a =
     (case dbState_GetRelayer S pf db w a of
        None \<Rightarrow> None
      | Some rly \<Rightarrow>
          (case BlockStore_GetLastStoredBlock S prefixBlockStore (rl_db rly) (db_chain d) of
             Inl e \<Rightarrow> Some (Some e, [])
           | Inr height \<Rightarrow> Some (None, printLabels [''NID'', ''Height''] @ [printValues [Inl (db_chain d), Inr height]])))"

subsection \<open>Starting\<close>

text \<open>\<open>rlyErr\<close> is what the relayer sends when it ends, \<open>canceled\<close> tells a cancelled context.\<close>

definition startCmd ::
    "'d Store \<Rightarrow> 'w Platform \<Rightarrow> 'd \<Rightarrow> 'w \<Rightarrow> error option \<Rightarrow> error + bool \<Rightarrow> (error \<Rightarrow> bool) \<Rightarrow> error option
       \<Rightarrow> ('w, 'd) appState \<Rightarrow> error option go" where
  "startCmd S pf db w flushFlagError freshFlag canceled rlyErr a =
     (case app_chains pf a of
        None \<Rightarrow> None
      | Some chs \<Rightarrow>
          (case flushFlagError of
             Some e \<Rightarrow> Some (Some e)
           | None \<Rightarrow>
               (case freshFlag of
                  Inl e \<Rightarrow> Some (Some e)
                | Inr fresh \<Rightarrow>
                    (case Relayer_Start S db w chs fresh of
                       None \<Rightarrow> None
                     | Some (Inl e) \<Rightarrow> Some (Some e)
                     | Some (Inr r) \<Rightarrow>
                         Some (case rlyErr of None \<Rightarrow> None | Some e \<Rightarrow> if canceled e then None else Some e)))))"

definition newRootLogger :: "string \<Rightarrow> bool \<Rightarrow> error + (log_encoder \<times> bool)" where
  "newRootLogger format debug =
     (if format = ''json'' then Inr (JsonEncoder, debug)
      else if format = ''auto'' \<or> format = ''console'' then Inr (ConsoleEncoder, debug)
      else if format = ''logfmt'' then Inr (LogfmtEncoder, debug)
      else Inl (ErrMsg (''unrecognized log format '' @ format)))"

text \<open>What runs before every command: the logger, the database, the configuration.\<close>

definition PersistentPreRunE ::
    "'w Platform \<Rightarrow> Docs \<Rightarrow> (string \<Rightarrow> error + 'd) \<Rightarrow> string \<Rightarrow> bool \<Rightarrow> Fs \<Rightarrow> ('w, 'd) appState
       \<Rightarrow> (error option \<times> ('w, 'd) appState) go" where
  "PersistentPreRunE pf docs NewLvlDB logFormat debugFlag fs a =
     (case (if ap_log a = None then map_sum id Some (newRootLogger logFormat debugFlag) else Inr (ap_log a)) of
        Inl e \<Rightarrow> Some (Some e, a)
      | Inr l \<Rightarrow>
          (let a1 = a\<lparr>ap_log := l\<rparr>
           in case (case ap_db a1 of None \<Rightarrow> map_sum id Some (NewLvlDB (ap_dbPath a1)) | Some d \<Rightarrow> Inr (Some d)) of
                Inl e \<Rightarrow> Some (Some (ErrMsg ''error while creating db''), a1)
              | Inr d \<Rightarrow> appState_loadConfigFile pf docs fs (a1\<lparr>ap_db := d\<rparr>)))"

text \<open>The error of the inner check, and whether the usage is kept silent.\<close>

definition withUsage :: "(string list \<Rightarrow> error option) \<Rightarrow> bool \<Rightarrow> string list \<Rightarrow> error option \<times> bool" where
  "withUsage inner silence args = (case inner args of Some e \<Rightarrow> (Some e, False) | None \<Rightarrow> (None, silence))"

subsection \<open>The configuration file\<close>

text \<open>The file at a path holds a configuration; a configuration is read back from what is written of it.\<close>

definition config_file :: "'w Platform \<Rightarrow> Docs \<Rightarrow> Fs \<Rightarrow> string \<Rightarrow> 'w Config \<Rightarrow> bool" where
  "config_file pf docs fs p c \<longleftrightarrow> fs_fault fs p = None \<and>
     (\<exists>b ci. fs_tree fs p = Some (File b) \<and> yaml_Unmarshal docs b = Inr ci \<and> distinct (map fst (ci_ProviderConfigs ci))
        \<and> ConfigInputWrapper_RuntimeConfig pf ci = Some (Inr c))"

definition reads_back :: "Docs \<Rightarrow> 'w Config \<Rightarrow> bool" where
  "reads_back docs c \<longleftrightarrow>
     (\<exists>b. yaml_Marshal docs (Config_Wrapped c) = Inr b \<and> yaml_Unmarshal docs b = Inr (input_of (Config_Wrapped c)))"

lemma config_file_ok: "config_file pf docs fs p c \<Longrightarrow> chains_ok pf (cf_Chains c)"
  by (auto simp: config_file_def RuntimeConfig_ok)

lemma load_config_file:
  "config_file pf docs fs (ap_configPath a) c \<Longrightarrow> appState_loadConfigFile pf docs fs a = Some (None, a\<lparr>ap_config := Some c\<rparr>)"
  by (auto simp: config_file_def appState_loadConfigFile_def os_Stat_def os_ReadFile_def Config_validateConfig_def)

lemma locking_begin_config_file:
  "config_file pf docs fs (ap_configPath a) c \<Longrightarrow>
     locking_begin pf docs (Inr locked) operation fs a = operation (a\<lparr>ap_config := Some c\<rparr>)"
  by (simp add: locking_begin_def load_config_file)

lemma map_wf_wrap_providers: "map_wf acc \<Longrightarrow> map_wf (wrap_providers chs acc)"
  by (induction chs acc rule: wrap_providers.induct) auto

lemma distinct_input_of: "distinct (map fst (ci_ProviderConfigs (input_of (Config_Wrapped c))))"
  using map_wf_wrap_providers [of "[]" "cf_Chains c"]
  by (simp add: input_of_def Config_Wrapped_def comp_def case_prod_unfold)

lemma locking_end_writes:
  assumes "ap_config b = Some c" and "reads_back docs c"
    and "ConfigInputWrapper_RuntimeConfig pf (input_of (Config_Wrapped c)) = Some (Inr c')"
    and "fs_fault fs (ap_configPath b) = None" and "fs_tree fs (ap_configPath b) \<noteq> Some Dir"
  obtains fs' where "locking_end docs fs b = Some (None, fs')" and "config_file pf docs fs' (ap_configPath b) c'"
    and "fs_fault fs' = fs_fault fs" and "\<forall>q. q \<noteq> ap_configPath b \<longrightarrow> fs_tree fs' q = fs_tree fs q"
proof -
  obtain out where out: "yaml_Marshal docs (Config_Wrapped c) = Inr out"
      "yaml_Unmarshal docs out = Inr (input_of (Config_Wrapped c))"
    using assms(2) by (auto simp: reads_back_def)
  let ?fs = "fs\<lparr>fs_tree := (fs_tree fs)(ap_configPath b \<mapsto> File out)\<rparr>"
  have "locking_end docs fs b = Some (None, ?fs)"
    using assms out by (simp add: locking_end_def Config_validateConfig_def os_WriteFile_def)
  moreover have "config_file pf docs ?fs (ap_configPath b) c'"
    using assms out distinct_input_of [of c] by (simp add: config_file_def)
  ultimately show ?thesis
    by (rule that) simp_all
qed

lemma locking_operation_writes:
  assumes "config_file pf docs fs (ap_configPath a) c" and "operation (a\<lparr>ap_config := Some c\<rparr>) = Some (None, b)"
    and "ap_config b = Some c1" and "ap_configPath b = ap_configPath a" and "reads_back docs c1"
    and "ConfigInputWrapper_RuntimeConfig pf (input_of (Config_Wrapped c1)) = Some (Inr c')"
  shows "\<exists>fs'. performConfigLockingOperation pf docs (Inr locked) operation fs a = Some (None, b, fs')
    \<and> config_file pf docs fs' (ap_configPath a) c'"
proof -
  have "fs_fault fs (ap_configPath b) = None" and "fs_tree fs (ap_configPath b) \<noteq> Some Dir"
    using assms(1,4) by (auto simp: config_file_def)
  from locking_end_writes [OF assms(3,5,6) this] obtain fs'
    where "locking_end docs fs b = Some (None, fs')" and "config_file pf docs fs' (ap_configPath b) c'"
    by metis
  then show ?thesis
    using assms by (auto simp: performConfigLockingOperation_def locking_begin_config_file)
qed

subsection \<open>Removing and adding chains\<close>

lemma chains_ok_keys: "chains_ok pf chs \<Longrightarrow> fst ` set chs = Provider_NID ` snd ` set chs"
  by (force simp: chains_ok_def image_iff)

lemma chains_ok_delete: "chains_ok pf chs \<Longrightarrow> chains_ok pf (map_delete k chs)"
  by (auto simp: chains_ok_def AList.delete_eq distinct_map_filter)


text \<open>A document that describes a chain, and a chain that collides with none of a configuration.\<close>

definition chain_document ::
    "'w Platform \<Rightarrow> (json \<Rightarrow> json) \<Rightarrow> Fs \<Rightarrow> string \<Rightarrow> string \<Rightarrow> 'w Provider \<Rightarrow> 'w Provider \<Rightarrow> bool" where
  "chain_document pf remarshal fs file chainName prov prov' \<longleftrightarrow> fs_fault fs file = None \<and> Provider_Init pf prov = Inr prov' \<and>
     (\<exists>b ty pc. fs_tree fs file = Some (File b) \<and> ProviderConfigWrapper_UnmarshalJSON remarshal b = Some (Inr (ty, pc))
        \<and> ProviderConfig_NewProvider pf chainName pc = Inr prov)"

definition new_to :: "'w Config \<Rightarrow> 'w Provider \<Rightarrow> bool" where
  "new_to c prov \<longleftrightarrow> Provider_NID prov \<noteq> [] \<and>
     (\<forall>p \<in> snd ` set (cf_Chains c). Provider_NID p \<noteq> Provider_NID prov \<and> Provider_ChainName p \<noteq> Provider_ChainName prov
        \<and> Provider_NID p \<noteq> Provider_ChainName prov)"

abbreviation with_chain :: "'w Config \<Rightarrow> string \<Rightarrow> 'w Provider \<Rightarrow> 'w Config" where
  "with_chain c key prov \<equiv> c\<lparr>cf_Chains := cf_Chains c @ [(key, prov)]\<rparr>"

lemma NID_ChainProvider [simp]: "NID (Provider_ChainProvider pf p) = Provider_NID p"
  by (simp add: Provider_ChainProvider_def Provider_NID_def icon_provider_def evm_provider_def split: Provider.splits)

lemma Chains_Get_providers:
  "(\<exists>e. Chains_Get (map (\<lambda>(k, p). (k, NewChain (Provider_ChainProvider pf p) debug)) chs) nid = Inl e)
     \<longleftrightarrow> nid \<notin> Provider_NID ` snd ` set chs"
proof -
  have "(Chain_NID \<circ> snd) ` set (map (\<lambda>(k, p). (k, NewChain (Provider_ChainProvider pf p) debug)) chs)
      = Provider_NID ` snd ` set chs"
    by (simp add: image_image Chain_NID_def NewChain_def case_prod_unfold comp_def)
  then show ?thesis
    by (simp only: Chains_Get_error_iff)
qed

lemma AddChain_new:
  assumes "chains_ok pf (cf_Chains c)" and "new_to c prov"
  shows "Config_AddChain pf debug c prov = (None, with_chain c (Provider_ChainName prov) prov)"
proof -
  let ?get = "Chains_Get (map (\<lambda>(k, p). (k, NewChain (Provider_ChainProvider pf p) debug)) (cf_Chains c)) (Provider_NID prov)"
  obtain e where e: "?get = Inl e"
    using Chains_Get_providers [of pf debug "cf_Chains c" "Provider_NID prov"] assms(2) by (auto simp: new_to_def)
  have "Provider_ChainName prov \<notin> fst ` set (cf_Chains c)"
    using assms by (auto simp: new_to_def chains_ok_keys [OF assms(1)])
  then show ?thesis
    using assms(2) e by (simp add: Config_AddChain_def new_to_def map_set_fresh)
qed

lemma AddChain_taken:
  assumes "Provider_NID prov \<in> Provider_NID ` snd ` set (cf_Chains c)"
  shows "\<exists>m c'. Config_AddChain pf debug c prov = (Some (ErrMsg m), c')"
proof (cases "Chains_Get (map (\<lambda>(k, p). (k, NewChain (Provider_ChainProvider pf p) debug)) (cf_Chains c)) (Provider_NID prov)")
  case (Inl e)
  then show ?thesis
    using assms Chains_Get_providers [of pf debug "cf_Chains c" "Provider_NID prov"] by auto
next
  case (Inr chn)
  then show ?thesis by (simp add: Config_AddChain_def Let_def)
qed

lemma chain_document_facts:
  assumes "chain_document pf remarshal fs file n prov prov'"
  shows "Provider_ChainName prov = n" "Provider_ChainName prov' = n" "Provider_NID prov' = Provider_NID prov"
    "Provider_Type prov' = Provider_Type prov" "Provider_ProviderConfig prov' = Provider_ProviderConfig prov"
    "load_provider pf n (Provider_ProviderConfig prov) = Inr prov'"
  using assms by (auto simp: chain_document_def NewProvider_facts Provider_Init_facts load_provider_def)

lemma add_operation_step:
  assumes "chain_document pf remarshal fs file n prov prov'" and "file \<noteq> []" and "ap_config a = Some c"
  shows "add_operation pf remarshal fs file [n] a =
    (case Config_AddChain pf (ap_debug a) c prov of
       (Some e, c') \<Rightarrow> Some (Some e, a)
     | (None, c') \<Rightarrow> Some (None, a\<lparr>ap_config := Some c'\<rparr>))"
  using assms by (auto simp: chain_document_def add_operation_def addChainFromFile_def os_Stat_def os_ReadFile_def)

text \<open>What is read back after adding: the chain is initialised and filed under its network id.\<close>

lemma added_reload:
  assumes "chains_ok pf (cf_Chains c)" and "chain_document pf remarshal fs file n prov prov'" and "new_to c prov"
  shows "ConfigInputWrapper_RuntimeConfig pf (input_of (Config_Wrapped (with_chain c n prov)))
    = Some (Inr (with_chain c (Provider_NID prov) prov'))"
proof -
  note doc = chain_document_facts [OF assms(2)]
  have ok: "chains_ok pf (cf_Chains (with_chain c (Provider_NID prov) prov'))"
    using assms(1,3) doc by (force simp: chains_ok_def new_to_def)
  have "wrap_providers (chs @ [(n, prov)]) acc = wrap_providers (chs @ [(Provider_NID prov, prov')]) acc" for chs acc
    by (induction chs acc rule: wrap_providers.induct) (simp_all add: doc)
  then have "Config_Wrapped (with_chain c n prov) = Config_Wrapped (with_chain c (Provider_NID prov) prov')"
    by (simp add: Config_Wrapped_def)
  then show ?thesis
    using reload_config [OF ok] by simp
qed



text \<open>A file system with a configuration file and the documents of two chains, for examples. The YAML of
  the example is the names of the chains.\<close>

definition sample_document :: "string \<Rightarrow> string" where
  "sample_document nid =
     (let q = [CHR 0x22]
      in ''{'' @ q @ ''type'' @ q @ '':'' @ q @ ''icon'' @ q @ '','' @ q @ ''value'' @ q @ '':{'' @ q @ ''rpc-url'' @ q @ '':'' @
         q @ ''http://x'' @ q @ '','' @ q @ ''nid'' @ q @ '':'' @ q @ nid @ q @ ''}}'')"

definition sample_new :: "string \<Rightarrow> string \<Rightarrow> unit Provider" where
  "sample_new n nid = IconProv ((sample_icon nid)\<lparr>ic_ChainName := n\<rparr>)"

definition sample_docs :: Docs where
  "sample_docs =
     \<lparr>yaml_Unmarshal = (\<lambda>b.
        if b = ''c0'' then Inr sample_file
        else if b = ''third+second'' then Inr (input_of (Config_Wrapped sample_config))
        else if b = ''third'' then Inr (input_of (Config_Wrapped (Config_DeleteChain sample_config ''i2'')))
        else if b = ''third+second+a'' then Inr (input_of (Config_Wrapped (with_chain sample_config ''a'' (sample_new ''a'' ''i3''))))
        else if b = ''third+second+b'' then Inr (input_of (Config_Wrapped (with_chain sample_config ''b'' (sample_new ''b'' ''i4''))))
        else Inl ErrDecode),
      yaml_Marshal = (\<lambda>w. Inr (strings_Join (map fst (co_ProviderConfigs w)) ''+'')),
      json_Marshal = (\<lambda>w. Inl ErrDecode), yaml_Marshal_providers = (\<lambda>ps. Inl ErrDecode),
      json_Marshal_providers = (\<lambda>ps. Inl ErrDecode)\<rparr>"

definition sample_fs :: Fs where
  "sample_fs =
     \<lparr>fs_tree = [''config.yaml'' \<mapsto> File ''c0'', ''a.json'' \<mapsto> File (sample_document ''i3''), ''b.json'' \<mapsto> File (sample_document ''i4'')],
      fs_fault = (\<lambda>_. None)\<rparr>"

definition sample_app :: "(unit, kvs) appState" where
  "sample_app =
     \<lparr>ap_log = None, ap_configPath = ''config.yaml'', ap_dbPath = [], ap_debug = False, ap_config = Some sample_config,
      ap_db = None\<rparr>"

lemma sample_document_parse:
  "json_parse (sample_document ''i3'') =
     Some (JObj [(''type'', JStr ''icon''), (''value'', JObj [(''rpc-url'', JStr ''http://x''), (''nid'', JStr ''i3'')])])"
  "json_parse (sample_document ''i4'') =
     Some (JObj [(''type'', JStr ''icon''), (''value'', JObj [(''rpc-url'', JStr ''http://x''), (''nid'', JStr ''i4'')])])"
  by code_simp code_simp

lemma sample_document_read:
  assumes "json_parse d =
     Some (JObj [(''type'', JStr ''icon''), (''value'', JObj [(''rpc-url'', JStr ''http://x''), (''nid'', JStr nid)])])"
  shows "ProviderConfigWrapper_UnmarshalJSON (\<lambda>j. j) d = Some (Inr ([], IconConfig (sample_icon nid)))"
  using assms
  by (simp add: ProviderConfigWrapper_UnmarshalJSON_def UnmarshalJSONProviderConfig_def icon_config_fields_def field_of_def
      IconProviderConfig_assign_def string_of_json_def sample_icon_def)

lemma sample_chain_documents:
  "chain_document sample_platform (\<lambda>j. j) sample_fs ''a.json'' ''a'' (sample_new ''a'' ''i3'') (sample_new ''a'' ''i3'')"
  "chain_document sample_platform (\<lambda>j. j) sample_fs ''b.json'' ''b'' (sample_new ''b'' ''i4'') (sample_new ''b'' ''i4'')"
  using sample_document_parse [THEN sample_document_read]
  by (auto simp: chain_document_def sample_fs_def sample_new_def sample_config_defs)

lemma sample_config_file: "config_file sample_platform sample_docs sample_fs (ap_configPath sample_app) sample_config"
  by (simp add: config_file_def sample_fs_def sample_app_def sample_docs_def sample_file_loads) (simp add: sample_file_def)

lemma sample_reads_back:
  "reads_back sample_docs (Config_DeleteChain sample_config ''i2'')" "reads_back sample_docs (Config_DeleteChain sample_config ''second'')"
  "reads_back sample_docs (with_chain sample_config ''a'' (sample_new ''a'' ''i3''))"
  "reads_back sample_docs (with_chain sample_config ''b'' (sample_new ''b'' ''i4''))"
  by (simp_all add: reads_back_def sample_docs_def Config_Wrapped_def sample_config_def Config_DeleteChain_def provider_defs
      sample_new_def)

lemma sample_new_to:
  "new_to sample_config (sample_new ''a'' ''i3'')" "new_to sample_config (sample_new ''b'' ''i4'')"
  by (simp_all add: new_to_def sample_config_def sample_new_def sample_icon_def provider_defs)




subsection \<open>A new home\<close>

text \<open>\<open>config init\<close> fails on a home that does not exist yet, one given with \<open>--home\<close>, since opening the
  database has made the default one: it makes the directory, then makes it again
  as the directory of the configuration and reports that the file exists, without writing a
  configuration. Called a second time it finds the directory and writes the default
  configuration.\<close>

lemma config_init_needs_two_calls:
  fixes home :: string
  defines "cfgPath \<equiv> path_Join [path_Join [home], ''config.yaml'']"
  assumes "path_Join [home] = home" and "cfgPath \<noteq> home" and "fs_fault fs home = None" and "fs_fault fs cfgPath = None"
    and "fs_tree fs home = None" and "fs_tree fs cfgPath = None" and "defaultConfigYAML yaml = Some out"
  shows "\<exists>fs1. configInitCmd yaml (Inr home) fs = Some (Some (ErrIO ''file exists''), fs1)
      \<and> fs_tree fs1 = (fs_tree fs)(home \<mapsto> Dir)
      \<and> (\<exists>fs2. configInitCmd yaml (Inr home) fs1 = Some (None, fs2)
            \<and> fs_tree fs2 = (fs_tree fs)(home \<mapsto> Dir, cfgPath \<mapsto> File out))"
proof -
  let ?fs1 = "fs\<lparr>fs_tree := (fs_tree fs)(home \<mapsto> Dir)\<rparr>"
  have "configInitCmd yaml (Inr home) fs = Some (Some (ErrIO ''file exists''), ?fs1)"
    using assms by (simp add: configInitCmd_def Let_def os_Stat_def os_Mkdir_def)
  moreover have "configInitCmd yaml (Inr home) ?fs1 = Some (None, fs\<lparr>fs_tree := (fs_tree fs)(home \<mapsto> Dir, cfgPath \<mapsto> File out)\<rparr>)"
    using assms by (simp add: configInitCmd_def Let_def os_Stat_def os_WriteFile_def)
  ultimately show ?thesis
    by fastforce
qed

lemma config_init_needs_two_calls_instance:
  "\<exists>fs1 fs2. configInitCmd (\<lambda>c :: unit Config. Inr ''default'') (Inr ''/home'') \<lparr>fs_tree = Map.empty, fs_fault = (\<lambda>_. None)\<rparr>
        = Some (Some (ErrIO ''file exists''), fs1)
    \<and> configInitCmd (\<lambda>c :: unit Config. Inr ''default'') (Inr ''/home'') fs1 = Some (None, fs2)
    \<and> fs_tree fs2 ''/home/config.yaml'' = Some (File ''default'')"
proof -
  have j: "path_Join [''/home''] = ''/home''" "path_Join [''/home'', ''config.yaml''] = ''/home/config.yaml''"
    by code_simp code_simp
  have d: "defaultConfigYAML (\<lambda>c :: unit Config. Inr ''default'') = Some ''default''"
    by (simp add: defaultConfigYAML_def Config_MustYAML_def)
  show ?thesis
    using config_init_needs_two_calls [of "''/home''" "\<lparr>fs_tree = Map.empty, fs_fault = (\<lambda>_. None)\<rparr>", OF _ _ _ _ _ _ d]
    by (simp add: j) (metis fun_upd_same)
qed

subsection \<open>Listing messages\<close>

lemma list_entries_limit:
  assumes "list_entries dec it p = Inr xs" and "\<not> pg_All p"
  shows "length xs \<le> unat (pg_Limit p)"
  using assms
  by (auto simp: list_entries_def Let_def decode_all_Inr_iff dest!: list_all2_lengthD split: sum.splits option.splits if_splits)

text \<open>A page of \<open>db messages list\<close>. When the messages can be read and each has a body, the command prints
  one line for each, at most as many as the limit, and does not panic, even with a limit of zero,
  since the pages are only counted when a message is found. It counts the pages of the messages it
  prints, so it says every page is one of one, however many there are.\<close>

lemma messagesList_prints:
  assumes "dbState_GetRelayer S pf db w a = Some rly"
    and "MessageStore_GetMessages S prefixMessageStore (rl_db rly) (db_chain d)
           (Pagination_WithPage NewPagination (db_page d) (db_limit d)) = Inr messages"
    and "\<forall>r \<in> set messages. rm_Message r \<noteq> None"
  shows "length messages \<le> unat (db_limit d) \<and>
    dbState_messagesList S pf db w d a = Some (None, ''Listing messages stored in the database...'' #
      (if messages = [] then [''No messages found in the database'']
       else printLabels [''Sn'', ''Src'', ''Dst'', ''Height'', ''Event'', ''Retry'']
         @ map (\<lambda>r. the (message_line r)) messages
         @ [''Total: '' @ fmt_uint 10 (length messages), ''Page: '' @ sprintf_d (db_page d) @ ''/1'']))"
proof
  let ?pg = "Pagination_WithPage NewPagination (db_page d) (db_limit d)"
  have pg: "pg_Limit ?pg = db_limit d" "\<not> pg_All ?pg"
    by (simp_all add: Pagination_WithPage_def NewPagination_def Let_def)
  show len: "length messages \<le> unat (db_limit d)"
    using list_entries_limit [OF assms(2) [unfolded MessageStore_GetMessages_def Let_def] pg(2)] pg(1) by simp
  have rows: "those (map message_line messages) = Some (map (\<lambda>r. the (message_line r)) messages)"
    using assms(3) by (induction messages) (auto simp: message_line_def)
  have pages: "Pagination_CalculateTotalPages ?pg (of_nat (length messages)) = Some 1" if "messages \<noteq> []"
  proof -
    have n: "unat (of_nat (length messages) :: 64 word) = length messages"
      using len by (rule le_unat_uoi)
    have one: "(i + l - 1) div l = 1" if "0 < i" and "i \<le> l" for i l :: nat
      by (rule div_nat_eqI) (use that in auto)
    show ?thesis
      using len that one [of "length messages" "unat (db_limit d)"] by (auto simp: CalculateTotalPages_ceiling pg n)
  qed
  have "sprintf_d (1 :: 64 word) = ''1''"
    by code_simp
  then show "dbState_messagesList S pf db w d a = Some (None, ''Listing messages stored in the database...'' #
      (if messages = [] then [''No messages found in the database'']
       else printLabels [''Sn'', ''Src'', ''Dst'', ''Height'', ''Event'', ''Retry'']
         @ map (\<lambda>r. the (message_line r)) messages
         @ [''Total: '' @ fmt_uint 10 (length messages), ''Page: '' @ sprintf_d (db_page d) @ ''/1'']))"
    using assms(1,2) rows pages by (simp add: dbState_messagesList_def Let_def)
qed

lemma messagesList_prints_instance:
  "\<exists>line. dbState_messagesList (LVLDB_store mem_leveldb) sample_platform
     [(''message-eth-1'', marshal_RouteMessage sample_RouteMessage)] ()
     \<lparr>db_chain = ''eth'', db_sn = 0, db_page = 1, db_limit = 10\<rparr> (sample_app\<lparr>ap_config := Some DefaultConfig\<rparr>)
   = Some (None, ''Listing messages stored in the database...'' #
       printLabels [''Sn'', ''Src'', ''Dst'', ''Height'', ''Event'', ''Retry''] @ [line, ''Total: 1'', ''Page: 1/1''])"
proof -
  let ?d = "[(''message-eth-1'', marshal_RouteMessage sample_RouteMessage)]"
  let ?rly = "\<lparr>rl_chains = [], rl_heap = [], rl_db = ?d, rl_world = (), rl_go = []\<rparr>"
  have r: "dbState_GetRelayer (LVLDB_store mem_leveldb) sample_platform ?d () (sample_app\<lparr>ap_config := Some DefaultConfig\<rparr>)
      = Some ?rly"
    by (simp add: dbState_GetRelayer_def app_chains_def DefaultConfig_def Chains_GetAll_def NewRelayer_def)
  have m: "MessageStore_GetMessages (LVLDB_store mem_leveldb) prefixMessageStore (rl_db ?rly)
      (db_chain \<lparr>db_chain = ''eth'', db_sn = 0, db_page = 1, db_limit = 10\<rparr>)
      (Pagination_WithPage NewPagination (db_page \<lparr>db_chain = ''eth'', db_sn = 0, db_page = 1, db_limit = 10\<rparr>)
         (db_limit \<lparr>db_chain = ''eth'', db_sn = 0, db_page = 1, db_limit = 10\<rparr>))
      = Inr [RouteMessage_clean sample_RouteMessage]"
    by (simp add: MessageStore_GetMessages_def GetKey_def mem_leveldb_def mem_iter_def list_entries_def
        unmarshal_marshal_RouteMessage Pagination_WithPage_def NewPagination_def Pagination_CalculateOffset_def
        prefixMessageStore_def)
  have "sprintf_d (1 :: 64 word) = ''1''" "fmt_uint 10 (Suc 0) = ''1''"
    by code_simp code_simp
  then show ?thesis
    using messagesList_prints [OF r m] by (auto simp: RouteMessage_clean_def sample_RouteMessage_def NewRouteMessage_def)
qed

end
