(* ===== verification/CmdFlags.thy ===== *)
theory CmdFlags
  imports CmdCommands "HOL-Library.Monad_Syntax"
begin

text \<open>
  \<^verbatim>\<open>cmd/flags.go\<close>, the flags of \<^verbatim>\<open>cmd/db.go\<close> and of \<^verbatim>\<open>cmd/root.go\<close>: the flags the commands declare,
  their defaults, and the viper keys bound to them. A flag set maps names to flags; of pflag and
  viper there is what is documented of the calls: declaring a name or a shorthand twice panics, a
  binding to a flag that is not there fails, which the callers turn into a panic.
\<close>

subsection \<open>Flags\<close>

datatype flag_value = FvBool bool | FvString string | FvDuration int | FvUint u64

record Flag =
  fl_short :: string
  fl_value :: flag_value
  fl_required :: bool

type_synonym FlagSet = "(string, Flag) gomap"
type_synonym viper = "(string, string) gomap"

definition declare_flag :: "string \<Rightarrow> string \<Rightarrow> flag_value \<Rightarrow> FlagSet \<Rightarrow> FlagSet go" where
  "declare_flag name short v fs =
     (if map_get fs name \<noteq> None \<or> (short \<noteq> [] \<and> short \<in> set (map (fl_short \<circ> snd) fs)) then None
      else Some (map_set name \<lparr>fl_short = short, fl_value = v, fl_required = False\<rparr> fs))"

definition BindPFlag :: "viper \<Rightarrow> string \<Rightarrow> FlagSet \<Rightarrow> string \<Rightarrow> viper go" where
  "BindPFlag v key fs name = (if map_get fs name = None then None else Some (map_set key name v))"

definition MarkFlagRequired :: "string \<Rightarrow> FlagSet \<Rightarrow> FlagSet go" where
  "MarkFlagRequired name fs = map_option (\<lambda>f. map_set name (f\<lparr>fl_required := True\<rparr>) fs) (map_get fs name)"

definition flag_string :: "FlagSet \<Rightarrow> string \<Rightarrow> string" where
  "flag_string fs name = (case map_option fl_value (map_get fs name) of Some (FvString s) \<Rightarrow> s | _ \<Rightarrow> [])"

definition flag_bool :: "FlagSet \<Rightarrow> string \<Rightarrow> bool" where
  "flag_bool fs name = (case map_option fl_value (map_get fs name) of Some (FvBool b) \<Rightarrow> b | _ \<Rightarrow> False)"

text \<open>What the command line gives, flag by flag; the last wins.\<close>

definition same_kind :: "flag_value \<Rightarrow> flag_value \<Rightarrow> bool" where
  "same_kind a b =
     (case (a, b) of (FvBool _, FvBool _) \<Rightarrow> True | (FvString _, FvString _) \<Rightarrow> True
      | (FvDuration _, FvDuration _) \<Rightarrow> True | (FvUint _, FvUint _) \<Rightarrow> True | _ \<Rightarrow> False)"

fun apply_args :: "(string \<times> flag_value) list \<Rightarrow> FlagSet \<Rightarrow> error + FlagSet" where
  "apply_args [] fs = Inr fs"
| "apply_args ((name, v) # args) fs =
     (case map_get fs name of
        None \<Rightarrow> Inl (ErrMsg (''unknown flag: --'' @ name))
      | Some f \<Rightarrow>
          if same_kind (fl_value f) v then apply_args args (map_set name (f\<lparr>fl_value := v\<rparr>) fs)
          else Inl (ErrMsg (''invalid argument for --'' @ name)))"

lemma apply_args_other:
  "apply_args args fs = Inr fs' \<Longrightarrow> name \<notin> fst ` set args \<Longrightarrow> map_get fs' name = map_get fs name"
  by (induction args fs rule: apply_args.induct) (auto split: option.splits if_splits)

lemma apply_args_names: "apply_args args fs = Inr fs' \<Longrightarrow> map_get fs' name = None \<longleftrightarrow> map_get fs name = None"
  by (induction args fs rule: apply_args.induct) (auto split: option.splits if_splits)

subsection \<open>The flags of the commands\<close>

definition DefaultFlushInterval :: int where
  "DefaultFlushInterval = 5 * 60 * 1000000000"

definition flushIntervalFlag :: "viper \<times> FlagSet \<Rightarrow> (viper \<times> FlagSet) go" where
  "flushIntervalFlag = (\<lambda>(v, cmd).
     do { cmd \<leftarrow> declare_flag ''flush-interval'' ''i'' (FvDuration DefaultFlushInterval) cmd;
          v \<leftarrow> BindPFlag v ''flush-interval'' cmd ''flush-interval'';
          Some (v, cmd) })"

definition freshFlag :: "viper \<times> FlagSet \<Rightarrow> (viper \<times> FlagSet) go" where
  "freshFlag = (\<lambda>(v, cmd).
     do { cmd \<leftarrow> declare_flag ''fresh'' [] (FvBool False) cmd;
          v \<leftarrow> BindPFlag v ''fresh'' cmd ''fresh'';
          Some (v, cmd) })"

definition yamlFlag :: "viper \<times> FlagSet \<Rightarrow> (viper \<times> FlagSet) go" where
  "yamlFlag = (\<lambda>(v, cmd).
     do { cmd \<leftarrow> declare_flag ''yaml'' ''y'' (FvBool False) cmd;
          v \<leftarrow> BindPFlag v ''yaml'' cmd ''yaml'';
          Some (v, cmd) })"

definition jsonFlag :: "viper \<times> FlagSet \<Rightarrow> (viper \<times> FlagSet) go" where
  "jsonFlag = (\<lambda>(v, cmd).
     do { cmd \<leftarrow> declare_flag ''json'' ''j'' (FvBool False) cmd;
          v \<leftarrow> BindPFlag v ''json'' cmd ''json'';
          Some (v, cmd) })"

definition fileFlag :: "viper \<times> FlagSet \<Rightarrow> (viper \<times> FlagSet) go" where
  "fileFlag = (\<lambda>(v, cmd).
     do { cmd \<leftarrow> declare_flag ''file'' ''f'' (FvString []) cmd;
          v \<leftarrow> BindPFlag v ''file'' cmd ''file'';
          Some (v, cmd) })"

text \<open>\<open>configFlag\<close>, which no command uses, binds the key of another flag.\<close>

definition configFlag :: "viper \<times> FlagSet \<Rightarrow> (viper \<times> FlagSet) go" where
  "configFlag = (\<lambda>(v, cmd).
     do { cmd \<leftarrow> declare_flag ''config'' [] (FvBool False) cmd;
          v \<leftarrow> BindPFlag v ''fresh'' cmd ''config'';
          Some (v, cmd) })"

text \<open>The flags on the database write their defaults into the state.\<close>

definition messageMsgIDFlag :: "dbState \<times> FlagSet \<Rightarrow> (dbState \<times> FlagSet) go" where
  "messageMsgIDFlag = (\<lambda>(d, cmd).
     do { cmd \<leftarrow> declare_flag ''sn'' [] (FvUint 0) cmd;
          cmd \<leftarrow> MarkFlagRequired ''sn'' cmd;
          Some (d\<lparr>db_sn := 0\<rparr>, cmd) })"

definition messageChainFlag :: "dbState \<times> FlagSet \<Rightarrow> (dbState \<times> FlagSet) go" where
  "messageChainFlag = (\<lambda>(d, cmd).
     do { cmd \<leftarrow> declare_flag ''chain'' ''c'' (FvString []) cmd;
          cmd \<leftarrow> MarkFlagRequired ''chain'' cmd;
          Some (d\<lparr>db_chain := []\<rparr>, cmd) })"

definition dbMessageFlagsListFlags :: "dbState \<times> FlagSet \<Rightarrow> (dbState \<times> FlagSet) go" where
  "dbMessageFlagsListFlags = (\<lambda>(d, cmd).
     do { cmd \<leftarrow> declare_flag ''limit'' ''l'' (FvUint 10) cmd;
          cmd \<leftarrow> declare_flag ''chain'' ''c'' (FvString []) cmd;
          cmd \<leftarrow> declare_flag ''page'' ''p'' (FvUint 1) cmd;
          cmd \<leftarrow> MarkFlagRequired ''chain'' cmd;
          Some (d\<lparr>db_limit := 10, db_chain := [], db_page := 1\<rparr>, cmd) })"

subsection \<open>The root command\<close>

definition defaultHome :: "string \<Rightarrow> string" where
  "defaultHome HOME = path_Join [HOME, ''.centralized-relay'']"

definition defaultDBName :: string where
  "defaultDBName = ''data''"

definition defaultConfig :: string where
  "defaultConfig = ''config.yaml''"

text \<open>Declaring \<open>--home\<close> writes its default into \<open>homePath\<close>, from which the next two defaults are made.\<close>

definition root_flags :: "string \<Rightarrow> (viper \<times> FlagSet) go" where
  "root_flags HOME =
     do { let homePath = defaultHome HOME;
          fs \<leftarrow> declare_flag ''home'' [] (FvString homePath) [];
          v \<leftarrow> BindPFlag [] ''home'' fs ''home'';
          fs \<leftarrow> declare_flag ''debug'' ''d'' (FvBool False) fs;
          v \<leftarrow> BindPFlag v ''debug'' fs ''debug'';
          fs \<leftarrow> declare_flag ''log-format'' [] (FvString ''auto'') fs;
          v \<leftarrow> BindPFlag v ''log-format'' fs ''log-format'';
          fs \<leftarrow> declare_flag ''config-path'' [] (FvString (homePath @ ''/'' @ defaultConfig)) fs;
          v \<leftarrow> BindPFlag v ''config-path'' fs ''config-path'';
          fs \<leftarrow> declare_flag ''db-path'' [] (FvString (homePath @ ''/'' @ defaultDBName)) fs;
          v \<leftarrow> BindPFlag v ''db-path'' fs ''db-path'';
          Some (v, fs) }"

text \<open>The commands with flags of their own, by their paths; the two on the database share one state.\<close>

record RootCmd =
  rc_viper :: viper
  rc_persistent :: FlagSet
  rc_commands :: "(string list \<times> FlagSet) list"
  rc_dbState :: dbState

definition NewRootCmd :: "string \<Rightarrow> RootCmd go" where
  "NewRootCmd HOME =
     do { (v, fs) \<leftarrow> root_flags HOME;
          (v, start) \<leftarrow> flushIntervalFlag (v, []) \<bind> freshFlag;
          (v, config_show) \<leftarrow> jsonFlag (v, []) \<bind> yamlFlag;
          (v, chains_list) \<leftarrow> jsonFlag (v, []) \<bind> yamlFlag;
          (v, chains_add) \<leftarrow> fileFlag (v, []);
          (d, messages_list) \<leftarrow> dbMessageFlagsListFlags (NewDBState, []);
          (d, block_view) \<leftarrow> messageChainFlag (d, []);
          Some \<lparr>rc_viper = v, rc_persistent = fs,
                rc_commands = [([''start''], start), ([''config'', ''show''], config_show), ([''chains'', ''list''], chains_list),
                  ([''chains'', ''add''], chains_add), ([''database'', ''messages'', ''list''], messages_list),
                  ([''database'', ''block'', ''view''], block_view)],
                rc_dbState = d\<rparr> }"

text \<open>The state of the program after the command line is read.\<close>

definition app_of_flags :: "FlagSet \<Rightarrow> ('w, 'd) appState" where
  "app_of_flags fs =
     \<lparr>ap_log = None, ap_configPath = flag_string fs ''config-path'', ap_dbPath = flag_string fs ''db-path'',
      ap_debug = flag_bool fs ''debug'', ap_config = None, ap_db = None\<rparr>"

lemma root_flags_eq:
  "root_flags HOME =
     Some (map (\<lambda>k. (k, k)) [''home'', ''debug'', ''log-format'', ''config-path'', ''db-path''],
       [(''home'', \<lparr>fl_short = [], fl_value = FvString (defaultHome HOME), fl_required = False\<rparr>),
        (''debug'', \<lparr>fl_short = ''d'', fl_value = FvBool False, fl_required = False\<rparr>),
        (''log-format'', \<lparr>fl_short = [], fl_value = FvString ''auto'', fl_required = False\<rparr>),
        (''config-path'', \<lparr>fl_short = [], fl_value = FvString (defaultHome HOME @ ''/config.yaml''), fl_required = False\<rparr>),
        (''db-path'', \<lparr>fl_short = [], fl_value = FvString (defaultHome HOME @ ''/data''), fl_required = False\<rparr>)])"
  by (simp add: root_flags_def declare_flag_def BindPFlag_def defaultConfig_def defaultDBName_def Let_def)

lemma command_flags:
  "flushIntervalFlag (v, []) \<bind> freshFlag = Some (map_set ''fresh'' ''fresh'' (map_set ''flush-interval'' ''flush-interval'' v),
     [(''flush-interval'', \<lparr>fl_short = ''i'', fl_value = FvDuration DefaultFlushInterval, fl_required = False\<rparr>),
      (''fresh'', \<lparr>fl_short = [], fl_value = FvBool False, fl_required = False\<rparr>)])"
  "jsonFlag (v, []) \<bind> yamlFlag = Some (map_set ''yaml'' ''yaml'' (map_set ''json'' ''json'' v),
     [(''json'', \<lparr>fl_short = ''j'', fl_value = FvBool False, fl_required = False\<rparr>),
      (''yaml'', \<lparr>fl_short = ''y'', fl_value = FvBool False, fl_required = False\<rparr>)])"
  "fileFlag (v, []) = Some (map_set ''file'' ''file'' v, [(''file'', \<lparr>fl_short = ''f'', fl_value = FvString [], fl_required = False\<rparr>)])"
  "dbMessageFlagsListFlags (d, []) = Some (d\<lparr>db_limit := 10, db_chain := [], db_page := 1\<rparr>,
     [(''limit'', \<lparr>fl_short = ''l'', fl_value = FvUint 10, fl_required = False\<rparr>),
      (''chain'', \<lparr>fl_short = ''c'', fl_value = FvString [], fl_required = True\<rparr>),
      (''page'', \<lparr>fl_short = ''p'', fl_value = FvUint 1, fl_required = False\<rparr>)])"
  "messageChainFlag (d, []) = Some (d\<lparr>db_chain := []\<rparr>,
     [(''chain'', \<lparr>fl_short = ''c'', fl_value = FvString [], fl_required = True\<rparr>)])"
  by (simp_all add: flushIntervalFlag_def freshFlag_def jsonFlag_def yamlFlag_def fileFlag_def dbMessageFlagsListFlags_def
      messageChainFlag_def MarkFlagRequired_def declare_flag_def BindPFlag_def)

text \<open>
  The root command is made without a panic, and no command declares a flag or a shorthand that the
  root has: merging the persistent flags into those of a command does not panic either. The
  database commands start from a limit of ten and page one.
\<close>

lemma root_command_declares:
  "\<exists>rc. NewRootCmd HOME = Some rc \<and> (\<exists>v. root_flags HOME = Some (v, rc_persistent rc))
    \<and> rc_dbState rc = \<lparr>db_chain = [], db_sn = 0, db_page = 1, db_limit = 10\<rparr>
    \<and> (\<forall>(path, local) \<in> set (rc_commands rc).
          distinct (map fst (rc_persistent rc @ local))
        \<and> distinct (filter (\<lambda>s. s \<noteq> []) (map (fl_short \<circ> snd) (rc_persistent rc @ local))))"
  by (auto simp: NewRootCmd_def root_flags_eq command_flags NewDBState_def)

text \<open>Reading the command line can not change the path of the configuration without its own flag.\<close>

lemma config_path_default:
  assumes "root_flags HOME = Some (v, fs)" and "apply_args args fs = Inr fs'" and "''config-path'' \<notin> fst ` set args"
  shows "ap_configPath (app_of_flags fs') = defaultHome HOME @ ''/config.yaml''"
proof -
  have "map_get fs ''config-path'' = Some \<lparr>fl_short = [], fl_value = FvString (defaultHome HOME @ ''/config.yaml''), fl_required = False\<rparr>"
    using assms(1) by (auto simp: root_flags_eq)
  with apply_args_other [OF assms(2,3)] show ?thesis
    by (simp add: app_of_flags_def flag_string_def)
qed

lemma db_path_default:
  assumes "root_flags HOME = Some (v, fs)" and "apply_args args fs = Inr fs'" and "''db-path'' \<notin> fst ` set args"
  shows "ap_dbPath (app_of_flags fs') = defaultHome HOME @ ''/data''"
proof -
  have "map_get fs ''db-path'' = Some \<lparr>fl_short = [], fl_value = FvString (defaultHome HOME @ ''/data''), fl_required = False\<rparr>"
    using assms(1) by (auto simp: root_flags_eq)
  with apply_args_other [OF assms(2,3)] show ?thesis
    by (simp add: app_of_flags_def flag_string_def)
qed

end
