(* ===== verification/CmdStart.thy ===== *)
theory CmdStart
  imports CmdCommands RelaySample
begin

text \<open>
  From the configuration file to the running relayer: the chains that \<^verbatim>\<open>start\<close> and the commands on the
  database hand to the relayer are those of the file, and they stay.
\<close>

subsection \<open>The chains of the program\<close>

lemma Chains_GetAll_from_append:
  assumes "map_wf (acc @ cs)" and "\<forall>(k, ch) \<in> set cs. k = Chain_NID ch"
  shows "Chains_GetAll_from cs acc = acc @ cs"
  using assms
proof (induction cs arbitrary: acc)
  case (Cons x cs)
  obtain k ch where x: "x = (k, ch)" by (cases x)
  then have "k = Chain_NID ch" and "map_set k ch acc = acc @ [x]"
    using Cons.prems by (auto intro!: map_set_fresh)
  then show ?case
    using Cons.IH [of "acc @ [x]"] Cons.prems by (simp add: x)
qed simp

definition chain_of :: "'w Platform \<Rightarrow> bool \<Rightarrow> 'w Provider \<Rightarrow> 'w Chain" where
  "chain_of pf debug p = NewChain (Provider_ChainProvider pf p) debug"

lemma chain_of_sel [simp]:
  "ChainProvider (chain_of pf debug p) = Provider_ChainProvider pf p" "Chain_NID (chain_of pf debug p) = Provider_NID p"
  by (simp_all add: chain_of_def NewChain_def Chain_NID_def)

lemma app_chains_file:
  assumes "chains_ok pf (cf_Chains c)" and "ap_config a = Some c"
  shows "app_chains pf a = Some (map (\<lambda>(k, p). (k, Some (chain_of pf (ap_debug a) p))) (cf_Chains c))"
proof -
  let ?cs = "map (\<lambda>(k, p). (k, chain_of pf (ap_debug a) p)) (cf_Chains c)"
  have "map_wf ?cs"
    using assms(1) by (simp add: chains_ok_def comp_def case_prod_unfold)
  moreover have "\<forall>(k, ch) \<in> set ?cs. k = Chain_NID ch"
    using assms(1) by (auto simp: chains_ok_def)
  ultimately have "Chains_GetAll ?cs = ?cs"
    using Chains_GetAll_from_append [of "[]" ?cs] by (simp add: Chains_GetAll_def)
  then show ?thesis
    using assms(2) by (simp add: app_chains_def chain_of_def case_prod_unfold comp_def)
qed

text \<open>The runtimes of the relayer: one per chain, with its provider.\<close>

lemma load_chains_providers:
  assumes "load_chains S d (map (\<lambda>(k, p). (k, Some (chain_of pf debug p))) chs) out = Inr cs"
    and "map_wf chs" and "\<forall>(k, p) \<in> set chs. k = Provider_NID p"
  shows "map_option cr_Provider (map_get cs n) =
    (case map_get chs n of Some p \<Rightarrow> Some (Provider_ChainProvider pf p) | None \<Rightarrow> map_option cr_Provider (map_get out n))"
  using assms
proof (induction chs arbitrary: out)
  case (Cons x chs)
  obtain k p where x: "x = (k, p)" by (cases x)
  have k: "k = Provider_NID p" and new: "map_get chs k = None"
    using Cons.prems(2,3) x by (auto simp: map_of_eq_None_iff)
  obtain h where "load_chains S d (map (\<lambda>(k, p). (k, Some (chain_of pf debug p))) chs)
      (map_set k \<lparr>cr_Provider = Provider_ChainProvider pf p, LastBlockHeight = 0, LastSavedHeight = h,
         cr_MessageCache = NewMessageCache\<rparr> out) = Inr cs"
    using Cons.prems(1) by (auto simp: x k NewChainRuntime_def Let_def split: sum.splits)
  from Cons.IH [OF this] Cons.prems(2,3) new show ?case
    by (auto simp: x k split: option.splits)
qed simp



end
