(* ===== verification/LvldbFiles.thy ===== *)
theory LvldbFiles
  imports Lvldb OsFiles
begin

text \<open>
  \<^verbatim>\<open>relayer/lvldb/lvldb.go\<close>, the rest: opening and closing a database, and its files. The calls of
  goleveldb are the record \<open>ldb_files\<close> over an environment that holds the databases of the machine;
  the locale \<open>leveldb_lock\<close> says what is documented of its file lock: a database that is open for
  writing can not be opened a second time, by this process or by another, until it is closed.
\<close>

record ('e, 'd, 's) ldb_files =
  lf_OpenFile :: "string \<Rightarrow> bool \<Rightarrow> 'e \<Rightarrow> (error + 'd) \<times> 'e"
  lf_Close :: "'d \<Rightarrow> 'e \<Rightarrow> error option \<times> 'e"
  lf_GetSnapshot :: "'d \<Rightarrow> error + 's"

definition NewLvlDB :: "('e, 'd, 's) ldb_files \<Rightarrow> string \<Rightarrow> bool \<Rightarrow> 'e \<Rightarrow> (error + 'd) \<times> 'e" where
  "NewLvlDB F path readonly env =
     (case lf_OpenFile F path readonly env of
        (Inl e, env') \<Rightarrow>
          (Inl (ErrMsg ''levelDB.OpenFile fail: database might be used by other instance: please check''), env')
      | (Inr ldb, env') \<Rightarrow> (Inr ldb, env'))"

definition LVLDB_RemoveDbFile :: "Fs \<Rightarrow> string \<Rightarrow> error option \<times> Fs" where
  "LVLDB_RemoveDbFile fs filepath =
     (case os_Remove fs filepath of
        (Some e, fs') \<Rightarrow> (Some (ErrMsg ''unable to remove db file''), fs')
      | (None, fs') \<Rightarrow> (None, fs'))"

definition LVLDB_SnapShot :: "('e, 'd, 's) ldb_files \<Rightarrow> 'd \<Rightarrow> error + 's" where
  "LVLDB_SnapShot F d = lf_GetSnapshot F d"

definition LVLDB_Close :: "('e, 'd, 's) ldb_files \<Rightarrow> 'd \<Rightarrow> 'e \<Rightarrow> error option \<times> 'e" where
  "LVLDB_Close F d env = lf_Close F d env"

text \<open>\<open>os.Remove\<close> removes a file or an empty directory: what is gone is the one path.\<close>

lemma RemoveDbFile_path:
  assumes "LVLDB_RemoveDbFile fs p = (r, fs')"
  shows "fs_tree fs' = (if r = None then (fs_tree fs)(p := None) else fs_tree fs)"
  using assms by (auto simp: LVLDB_RemoveDbFile_def os_Remove_def split: option.splits if_splits)

subsection \<open>The lock of the database\<close>

locale leveldb_lock =
  fixes F :: "('e, 'd, 's) ldb_files"
    and held :: "'e \<Rightarrow> string set"
    and path_of :: "'d \<Rightarrow> string"
  assumes Open_held: "p \<in> held env \<Longrightarrow> \<exists>e. lf_OpenFile F p False env = (Inl e, env)"
    and Open_ok: "lf_OpenFile F p False env = (Inr d, env') \<Longrightarrow> held env' = insert p (held env) \<and> path_of d = p"
    and Close_ok: "lf_Close F d env = (None, env') \<Longrightarrow> held env' = held env - {path_of d}"
begin

text \<open>While a database is open it can not be opened again, and nothing changes by trying.\<close>

lemma second_open_fails:
  assumes "NewLvlDB F p False env = (Inr d, env')"
  shows "NewLvlDB F p False env' =
    (Inl (ErrMsg ''levelDB.OpenFile fail: database might be used by other instance: please check''), env')"
proof -
  from assms have "lf_OpenFile F p False env = (Inr d, env')"
    by (auto simp: NewLvlDB_def split: prod.splits sum.splits)
  from Open_ok [OF this] have "p \<in> held env'"
    by simp
  from Open_held [OF this] show ?thesis
    by (auto simp: NewLvlDB_def)
qed

lemma open_close:
  assumes "NewLvlDB F p False env = (Inr d, env')" and "LVLDB_Close F d env' = (None, env'')"
  shows "held env'' = held env - {p}"
proof -
  from assms(1) have "lf_OpenFile F p False env = (Inr d, env')"
    by (auto simp: NewLvlDB_def split: prod.splits sum.splits)
  from Open_ok [OF this] show ?thesis
    using Close_ok [of d env' env''] assms(2) by (simp add: LVLDB_Close_def)
qed

end

text \<open>Databases on one machine: the paths of those that are open. A handle is the path and the content.\<close>

definition mem_files :: "(string list, string \<times> kvs, kvs) ldb_files" where
  "mem_files =
     \<lparr>lf_OpenFile = (\<lambda>p readonly env. if p \<in> set env then (Inl (ErrIO ''resource temporarily unavailable''), env) else (Inr (p, []), p # env)),
      lf_Close = (\<lambda>d env. if fst d \<in> set env then (None, removeAll (fst d) env) else (Some (ErrIO ''closed''), env)),
      lf_GetSnapshot = (\<lambda>d. Inr (snd d))\<rparr>"

interpretation mem_lock: leveldb_lock mem_files set fst
  by unfold_locales (auto simp: mem_files_def split: if_splits)

end
