(* ===== verification/CmdRoot.thy ===== *)
theory CmdRoot
  imports CmdFlags CmdStart LvldbFiles
begin

text \<open>
  \<^verbatim>\<open>cmd/root.go\<close> and \<^verbatim>\<open>main.go\<close>: the hooks of the root command with the database they open and close,
  what \<open>--home\<close> reaches, and the program as a whole: a command that runs while a goroutine watches for
  interrupts.
\<close>

subsection \<open>The hooks\<close>

text \<open>The errors of syncing the log and of closing are dropped.\<close>

definition PersistentPostRun :: "('e, 'd, 's) ldb_files \<Rightarrow> ('w, 'd) appState \<Rightarrow> 'e \<Rightarrow> 'e" where
  "PersistentPostRun F a env = (case ap_db a of None \<Rightarrow> env | Some d \<Rightarrow> snd (LVLDB_Close F d env))"

context leveldb_lock
begin

text \<open>
  While one process has the database open, another that uses the same path stops in its hook: it
  reports that it could not make the database, before it reads the configuration. The hook that
  runs after the command of the first process gives the database back.
\<close>

lemma one_process_per_database:
  assumes "NewLvlDB F p False env = (Inr d, env1)"
    and "ap_dbPath a = p" and "ap_db a = None" and "ap_log a = None" and "newRootLogger format debug = Inr l"
  shows "PersistentPreRunE pf docs (\<lambda>q. fst (NewLvlDB F q False env1)) format debug fs a =
    Some (Some (ErrMsg ''error while creating db''), a\<lparr>ap_log := Some l\<rparr>)"
  using assms second_open_fails [OF assms(1)] by (simp add: PersistentPreRunE_def Let_def)

lemma post_run_releases:
  assumes "NewLvlDB F p False env = (Inr d, env1)" and "ap_db a = Some d" and "fst (LVLDB_Close F d env1) = None"
  shows "held (PersistentPostRun F a env1) = held env - {p}"
proof -
  obtain env2 where close: "LVLDB_Close F d env1 = (None, env2)"
    using assms(3) by (metis prod.collapse)
  with assms(2) show ?thesis
    by (simp add: PersistentPostRun_def open_close [OF assms(1) close])
qed

end

text \<open>On the databases of one machine, a second process fails while the first runs, and not afterwards.\<close>

lemma two_processes:
  "PersistentPreRunE pf docs (\<lambda>q. fst (NewLvlDB mem_files q False [''data''])) ''auto'' False fs
      \<lparr>ap_log = None, ap_configPath = c, ap_dbPath = ''data'', ap_debug = False, ap_config = None, ap_db = None\<rparr> =
    Some (Some (ErrMsg ''error while creating db''),
      \<lparr>ap_log = Some (ConsoleEncoder, False), ap_configPath = c, ap_dbPath = ''data'', ap_debug = False, ap_config = None, ap_db = None\<rparr>)"
  "ap_db a = Some (''data'', kvs) \<Longrightarrow> PersistentPostRun mem_files a [''data''] = []"
proof -
  have opened: "NewLvlDB mem_files ''data'' False [] = (Inr (''data'', []), [''data''])"
    by (simp add: NewLvlDB_def mem_files_def)
  have log: "newRootLogger ''auto'' False = Inr (ConsoleEncoder, False)"
    by (simp add: newRootLogger_def)
  show "PersistentPreRunE pf docs (\<lambda>q. fst (NewLvlDB mem_files q False [''data''])) ''auto'' False fs
      \<lparr>ap_log = None, ap_configPath = c, ap_dbPath = ''data'', ap_debug = False, ap_config = None, ap_db = None\<rparr> =
    Some (Some (ErrMsg ''error while creating db''),
      \<lparr>ap_log = Some (ConsoleEncoder, False), ap_configPath = c, ap_dbPath = ''data'', ap_debug = False, ap_config = None, ap_db = None\<rparr>)"
    using mem_lock.one_process_per_database [OF opened _ _ _ log,
        of "\<lparr>ap_log = None, ap_configPath = c, ap_dbPath = ''data'', ap_debug = False, ap_config = None, ap_db = None\<rparr>" pf docs fs]
    by simp
  show "ap_db a = Some (''data'', kvs) \<Longrightarrow> PersistentPostRun mem_files a [''data''] = []"
    by (simp add: PersistentPostRun_def LVLDB_Close_def mem_files_def)
qed

subsection \<open>A new home\<close>



subsection \<open>The program\<close>

text \<open>
  \<open>Execute\<close>: the channel of signals holds one, and a signal that finds it full is dropped. The watcher
  takes a signal, cancels the context, waits and announces, and then panics on a second signal or
  when a minute is over. The command returns when it does; with an error the program exits with
  status one.
\<close>

datatype watcher = Waiting | Taken | Cancelled | Announced

datatype program_end = Exit0 | Exit1 | PanicTimeout | PanicSecondSignal

record Program =
  pr_sigCh :: bool
  pr_watcher :: watcher
  pr_ctxCancelled :: bool
  pr_end :: "program_end option"

datatype program_event = Interrupt | Take | Cancel | Announce | MinuteOver | SecondSignal | Return "error option"

definition Execute :: Program where
  "Execute = \<lparr>pr_sigCh = False, pr_watcher = Waiting, pr_ctxCancelled = False, pr_end = None\<rparr>"

definition main :: Program where
  "main = Execute"

inductive program_step :: "Program \<Rightarrow> program_event \<Rightarrow> Program \<Rightarrow> bool" where
  interrupt: "pr_end p = None \<Longrightarrow> program_step p Interrupt (p\<lparr>pr_sigCh := True\<rparr>)"
| take_signal: "pr_end p = None \<Longrightarrow> pr_watcher p = Waiting \<Longrightarrow> pr_sigCh p \<Longrightarrow>
    program_step p Take (p\<lparr>pr_sigCh := False, pr_watcher := Taken\<rparr>)"
| cancel: "pr_end p = None \<Longrightarrow> pr_watcher p = Taken \<Longrightarrow>
    program_step p Cancel (p\<lparr>pr_watcher := Cancelled, pr_ctxCancelled := True\<rparr>)"
| announce: "pr_end p = None \<Longrightarrow> pr_watcher p = Cancelled \<Longrightarrow> program_step p Announce (p\<lparr>pr_watcher := Announced\<rparr>)"
| minute_over: "pr_end p = None \<Longrightarrow> pr_watcher p = Announced \<Longrightarrow>
    program_step p MinuteOver (p\<lparr>pr_end := Some PanicTimeout\<rparr>)"
| second_signal: "pr_end p = None \<Longrightarrow> pr_watcher p = Announced \<Longrightarrow> pr_sigCh p \<Longrightarrow>
    program_step p SecondSignal (p\<lparr>pr_sigCh := False, pr_end := Some PanicSecondSignal\<rparr>)"
| return: "pr_end p = None \<Longrightarrow>
    program_step p (Return err) (p\<lparr>pr_end := Some (case err of None \<Rightarrow> Exit0 | Some e \<Rightarrow> Exit1)\<rparr>)"

inductive program_run :: "Program \<Rightarrow> program_event list \<Rightarrow> Program \<Rightarrow> bool" where
  run_none: "program_run p [] p"
| run_more: "program_run p es q \<Longrightarrow> program_step q e r \<Longrightarrow> program_run p (es @ [e]) r"

inductive_cases program_stepE: "program_step p e q"

definition interrupts :: "program_event list \<Rightarrow> nat" where
  "interrupts es = length (filter (\<lambda>e. e = Interrupt) es)"

lemma interrupts_simps [simp]:
  "interrupts [] = 0"
  "interrupts (es @ [e]) = (if e = Interrupt then Suc (interrupts es) else interrupts es)"
  by (simp_all add: interrupts_def)

text \<open>
  What holds of the program after the events \<open>es\<close>: the state of the watcher tells how many signals it
  has taken, the channel whether one more came since, and the way the program ended what it needed.
\<close>

definition program_ok :: "program_event list \<Rightarrow> Program \<Rightarrow> bool" where
  "program_ok es p \<longleftrightarrow>
     (case pr_watcher p of
        Waiting \<Rightarrow> (pr_sigCh p \<longleftrightarrow> 1 \<le> interrupts es)
      | _ \<Rightarrow> 1 \<le> interrupts es \<and> (pr_sigCh p \<longrightarrow> 2 \<le> interrupts es)) \<and>
     (pr_ctxCancelled p \<longleftrightarrow> pr_watcher p \<in> {Cancelled, Announced}) \<and>
     (case pr_end p of
        Some PanicTimeout \<Rightarrow> pr_watcher p = Announced
      | Some PanicSecondSignal \<Rightarrow> pr_watcher p = Announced \<and> 2 \<le> interrupts es
      | Some _ \<Rightarrow> (\<exists>e \<in> set es. \<exists>err. e = Return err)
      | None \<Rightarrow> \<forall>err. Return err \<notin> set es)"

lemma program_ok_step: "program_ok es p \<Longrightarrow> program_step p e q \<Longrightarrow> program_ok (es @ [e]) q"
  by (erule program_stepE) (auto simp: program_ok_def split: watcher.splits option.splits)

lemma program_ok_run: "program_run p es q \<Longrightarrow> program_ok [] p \<Longrightarrow> program_ok es q"
  by (induction rule: program_run.induct) (auto intro: program_ok_step)

lemma program_ok_main: "program_ok [] main"
  by (simp add: program_ok_def main_def Execute_def)

text \<open>A watcher with a signal ends the program by itself.\<close>

lemma announced_ends:
  "pr_end p = None \<Longrightarrow> pr_watcher p = Announced \<Longrightarrow> program_run p [MinuteOver] (p\<lparr>pr_end := Some PanicTimeout\<rparr>)"
  using run_more [OF run_none minute_over] by simp

lemma program_run_append: "program_run q fs r \<Longrightarrow> program_run p es q \<Longrightarrow> program_run p (es @ fs) r"
  by (induction rule: program_run.induct) (auto simp flip: append_assoc intro: run_more)

lemma program_run_Cons: "program_step p e q \<Longrightarrow> program_run q es r \<Longrightarrow> program_run p (e # es) r"
  using program_run_append [of q es r p "[e]"] run_more [OF run_none, of p e q] by simp

lemma watcher_ends:
  assumes "pr_end p = None" and "pr_watcher p \<noteq> Waiting \<or> pr_sigCh p"
  shows "\<exists>es q. program_run p es q \<and> length es \<le> 4 \<and> set es \<subseteq> {Take, Cancel, Announce, MinuteOver} \<and> pr_end q = Some PanicTimeout"
proof -
  have a: "\<exists>es q. program_run p es q \<and> length es \<le> 1 \<and> set es \<subseteq> {Take, Cancel, Announce, MinuteOver} \<and> pr_end q = Some PanicTimeout"
    if "pr_end p = None" "pr_watcher p = Announced" for p
    using announced_ends [OF that] by (intro exI [of _ "[MinuteOver]"] exI conjI) auto
  have step: "\<exists>es q. program_run p es q \<and> length es \<le> Suc n \<and> set es \<subseteq> {Take, Cancel, Announce, MinuteOver} \<and> pr_end q = Some PanicTimeout"
    if "program_step p e q" "e \<in> {Take, Cancel, Announce}"
      "\<exists>es r. program_run q es r \<and> length es \<le> n \<and> set es \<subseteq> {Take, Cancel, Announce, MinuteOver} \<and> pr_end r = Some PanicTimeout"
    for p e q n
    using that program_run_Cons [OF that(1)] by (elim exE conjE) (rule exI [of _ "e # _"], fastforce)
  have c: "\<exists>es q. program_run p es q \<and> length es \<le> 2 \<and> set es \<subseteq> {Take, Cancel, Announce, MinuteOver} \<and> pr_end q = Some PanicTimeout"
    if "pr_end p = None" "pr_watcher p = Cancelled" for p
    using step [OF announce [OF that], of 1] a [of "p\<lparr>pr_watcher := Announced\<rparr>"] that by (simp add: numeral_2_eq_2)
  have t: "\<exists>es q. program_run p es q \<and> length es \<le> 3 \<and> set es \<subseteq> {Take, Cancel, Announce, MinuteOver} \<and> pr_end q = Some PanicTimeout"
    if "pr_end p = None" "pr_watcher p = Taken" for p
    using step [OF cancel [OF that], of 2] c [of "p\<lparr>pr_watcher := Cancelled, pr_ctxCancelled := True\<rparr>"] that
    by (simp add: numeral_3_eq_3)
  have w: "\<exists>es q. program_run p es q \<and> length es \<le> 4 \<and> set es \<subseteq> {Take, Cancel, Announce, MinuteOver} \<and> pr_end q = Some PanicTimeout"
    if "pr_end p = None" "pr_watcher p = Waiting" "pr_sigCh p"
    using step [OF take_signal [OF that], of 3] t [of "p\<lparr>pr_sigCh := False, pr_watcher := Taken\<rparr>"] that by simp
  show ?thesis
    using assms a [of p] c [of p] t [of p] w by (cases "pr_watcher p") fastforce+
qed



end
