(* ===== verification/CmdTree.thy ===== *)
theory CmdTree
  imports CmdCommands
begin

text \<open>
  The commands of \<^verbatim>\<open>cmd\<close> as cobra knows them: their names, aliases, checks of arguments and
  subcommands. Of cobra there is what is documented: a word selects the subcommand whose name, the
  first word of its use, or alias it is; the words that select nothing are arguments.
\<close>

subsection \<open>Commands\<close>

datatype args_check = AnyArgs | NoArgs | ExactArgs nat | MinimumNArgs nat

datatype command = Command (cb_Name: string) (cb_Aliases: "string list") (cb_Args: args_check) (cb_Commands: "command list")

definition check_args :: "args_check \<Rightarrow> string list \<Rightarrow> error option" where
  "check_args c args =
     (case c of
        AnyArgs \<Rightarrow> None
      | NoArgs \<Rightarrow> if args = [] then None else Some (ErrMsg ''unknown command'')
      | ExactArgs n \<Rightarrow> if length args = n then None else Some (ErrMsg ''accepts a number of args'')
      | MinimumNArgs n \<Rightarrow> if n \<le> length args then None else Some (ErrMsg ''requires a number of args''))"

definition words :: "command \<Rightarrow> string list" where
  "words c = cb_Name c # cb_Aliases c"

text \<open>The names on the way to the command, and what is left as its arguments.\<close>

fun resolve :: "command \<Rightarrow> string list \<Rightarrow> (string list \<times> command) \<times> string list" where
  "resolve c [] = (([], c), [])"
| "resolve c (a # args) =
     (case find (\<lambda>d. a \<in> set (words d)) (cb_Commands c) of
        None \<Rightarrow> (([], c), a # args)
      | Some d \<Rightarrow> (case resolve d args of ((path, e), rest) \<Rightarrow> ((cb_Name d # path, e), rest)))"

text \<open>Whether the command at hand runs, or its usage is shown: the first error, and whether the usage is silent.\<close>

definition run_check :: "command \<Rightarrow> string list \<Rightarrow> error option \<times> bool" where
  "run_check c args = withUsage (check_args (cb_Args c)) True args"

subsection \<open>The tree\<close>

definition startCmd_command :: command where
  "startCmd_command = Command ''start'' [''st''] (MinimumNArgs 0) []"

definition configShowCmd_command :: command where
  "configShowCmd_command = Command ''show'' [''s'', ''list'', ''l''] NoArgs []"

definition configInitCmd_command :: command where
  "configInitCmd_command = Command ''init'' [''i''] NoArgs []"

definition configCmd :: command where
  "configCmd = Command ''config'' [''cfg''] AnyArgs [configShowCmd_command, configInitCmd_command]"

definition chainsListCmd_command :: command where
  "chainsListCmd_command = Command ''list'' [''l''] NoArgs []"

definition chainsAddCmd_command :: command where
  "chainsAddCmd_command = Command ''add'' [''a''] (MinimumNArgs 0) []"

definition chainsDeleteCmd_command :: command where
  "chainsDeleteCmd_command = Command ''delete'' [''d''] (ExactArgs 1) []"

definition chainsCmd :: command where
  "chainsCmd = Command ''chains'' [''ch''] AnyArgs [chainsListCmd_command, chainsAddCmd_command, chainsDeleteCmd_command]"

definition messagesList_command :: command where
  "messagesList_command = Command ''list'' [''ls''] AnyArgs []"

definition messagesRelay_command :: command where
  "messagesRelay_command = Command ''relay'' [''rly''] AnyArgs []"

definition messagesRm_command :: command where
  "messagesRm_command = Command ''rm'' [] AnyArgs []"

definition blockInfo_command :: command where
  "blockInfo_command = Command ''view'' [''get''] AnyArgs []"

text \<open>The commands \<open>rm\<close> and \<open>relay\<close> are made and not added.\<close>

definition dbCmd :: command where
  "dbCmd =
     Command ''database'' [''db''] AnyArgs
       [Command ''messages'' [''m''] AnyArgs [messagesList_command], Command ''block'' [''b''] AnyArgs [blockInfo_command]]"

definition appName :: string where
  "appName = ''centralized-relay''"

definition rootCmd :: command where
  "rootCmd = Command appName [] AnyArgs [startCmd_command, configCmd, chainsCmd, dbCmd]"

lemmas command_defs = startCmd_command_def configShowCmd_command_def configInitCmd_command_def configCmd_def chainsListCmd_command_def
  chainsAddCmd_command_def chainsDeleteCmd_command_def chainsCmd_def messagesList_command_def messagesRelay_command_def
  messagesRm_command_def blockInfo_command_def dbCmd_def appName_def rootCmd_def

subsection \<open>What a command line reaches\<close>

text \<open>The commands below a command, with their paths.\<close>

fun reachable :: "command \<Rightarrow> (string list \<times> command) list" where
  "reachable (Command n as ch cs) =
     ([], Command n as ch cs) # concat (map (\<lambda>d. map (\<lambda>(p, e). (cb_Name d # p, e)) (reachable d)) cs)"

lemma resolve_reachable: "fst (resolve c args) \<in> set (reachable c)"
proof (induction c args rule: resolve.induct)
  case (1 c)
  then show ?case
    by (cases c) simp
next
  case (2 c a args)
  show ?case
  proof (cases "find (\<lambda>d. a \<in> set (words d)) (cb_Commands c)")
    case None
    then show ?thesis
      by (cases c) simp
  next
    case (Some d)
    then have "d \<in> set (cb_Commands c)"
      by (auto simp: find_Some_iff)
    moreover obtain p e rest where r: "resolve d args = ((p, e), rest)"
      by (metis prod.exhaust)
    moreover have "(p, e) \<in> set (reachable d)"
      using 2 [OF Some] r by simp
    ultimately show ?thesis
      using Some by (cases c) force
  qed
qed

text \<open>Among the subcommands of a command no word selects two: the order of the tree does not matter.\<close>

fun unambiguous :: "command \<Rightarrow> bool" where
  "unambiguous (Command n as ch cs) \<longleftrightarrow> distinct (concat (map words cs)) \<and> list_all unambiguous cs"

lemma rootCmd_unambiguous: "unambiguous rootCmd"
  by (simp add: command_defs words_def)

text \<open>No command line removes or relays messages, and one that names no subcommand of the root runs nothing.\<close>

lemma rootCmd_paths:
  "map fst (reachable rootCmd) =
     [[], [''start''], [''config''], [''config'', ''show''], [''config'', ''init''], [''chains''], [''chains'', ''list''],
      [''chains'', ''add''], [''chains'', ''delete''], [''database''], [''database'', ''messages''],
      [''database'', ''messages'', ''list''], [''database'', ''block''], [''database'', ''block'', ''view'']]"
  by (simp add: command_defs)

lemma messages_rm_unreachable:
  "snd (fst (resolve rootCmd args)) \<notin> {messagesRm_command, messagesRelay_command}"
proof -
  have "\<forall>e \<in> set (reachable rootCmd). snd e \<notin> {messagesRm_command, messagesRelay_command}"
    by (simp add: command_defs)
  then show ?thesis
    using resolve_reachable [of rootCmd args] by blast
qed

text \<open>\<open>chains delete\<close> runs with exactly the one argument it reads, by its name or its alias.\<close>

lemma chains_delete_line:
  assumes "w \<in> {''chains'', ''ch''}" and "v \<in> {''delete'', ''d''}"
  shows "resolve rootCmd (w # v # args) = (([''chains'', ''delete''], chainsDeleteCmd_command), args)"
    and "run_check chainsDeleteCmd_command args = (None, True) \<longleftrightarrow> (\<exists>name. args = [name])"
proof -
  have last: "resolve chainsDeleteCmd_command args = (([], chainsDeleteCmd_command), args)"
    by (cases args) (simp_all add: chainsDeleteCmd_command_def)
  have "find (\<lambda>d. w \<in> set (words d)) (cb_Commands rootCmd) = Some chainsCmd"
    using assms(1) by (elim insertE emptyE) (simp_all add: command_defs words_def)
  moreover have "find (\<lambda>d. v \<in> set (words d)) (cb_Commands chainsCmd) = Some chainsDeleteCmd_command"
    using assms(2) by (elim insertE emptyE) (simp_all add: command_defs words_def)
  moreover have "cb_Name chainsCmd = ''chains''" "cb_Name chainsDeleteCmd_command = ''delete''"
    by (simp_all add: command_defs)
  ultimately show "resolve rootCmd (w # v # args) = (([''chains'', ''delete''], chainsDeleteCmd_command), args)"
    by (simp add: last)
  show "run_check chainsDeleteCmd_command args = (None, True) \<longleftrightarrow> (\<exists>name. args = [name])"
    by (auto simp: run_check_def withUsage_def check_args_def chainsDeleteCmd_command_def length_Suc_conv split: option.splits)
qed

end
