(* ===== verification/Spec2Isabelle.thy ===== *)
theory Spec2Isabelle
  imports RelaySample IconListener IconConn EndToEnd KeyStores CmdRoot CmdTree
begin

text \<open>
  The centralised relay, a program in Go that carries messages between blockchains, modelled and
  verified. A relayer process listens to every configured chain, finds the messages in its
  blocks, and delivers each to the chain it names with a transaction; what cannot be delivered is
  kept in a database and tried again.

  \<^bold>\<open>Parts and how they interact.\<close> A chain is a provider (\<^verbatim>\<open>relayer/provider/provider.go\<close>): it
  listens for blocks, routes messages with a callback that reports the result, and answers
  queries. The providers are those of ICON (\<^verbatim>\<open>relayer/chains/icon\<close>), of EVM chains
  (\<^verbatim>\<open>relayer/chains/evm\<close>) and a mock. The relayer (\<^verbatim>\<open>relayer/relay.go\<close>) keeps one runtime per
  chain (\<^verbatim>\<open>relayer/chain_runtime.go\<close>) with a cache of the messages that wait, and three stores
  (\<^verbatim>\<open>relayer/store\<close>) over one LevelDB database (\<^verbatim>\<open>relayer/lvldb\<close>): failed messages, last heights,
  and transactions that wait for finality. Its goroutines share the caches: one per chain that
  takes in blocks, one that routes the cached messages, one that flushes stored messages back
  into the caches, one that checks finality, and one for every delivery.

  \<^bold>\<open>Theories.\<close>
  \<^item> \<open>Prelude\<close>, \<open>GoStd\<close>: association lists as Go maps, the result type of code that may panic,
    machine integers, and the parts of Go's library the code calls (\<^verbatim>\<open>strconv\<close>, \<^verbatim>\<open>strings\<close>,
    \<^verbatim>\<open>encoding/hex\<close>, \<^verbatim>\<open>encoding/base64\<close>). \<open>Json\<close>: printing and parsing JSON.
  \<^item> \<open>RelayTypes\<close>: \<^verbatim>\<open>relayer/types\<close> and \<^verbatim>\<open>relayer/events\<close>; route messages live on a heap, since
    the cache, the goroutines and the callbacks share them. \<open>Codec\<close>: the documents of the stores,
    with the locale \<open>codec\<close> and its interpretations.
  \<^item> \<open>Store\<close>, \<open>Lvldb\<close>: the store interface and its contract as locales (\<open>kv_store\<close>, \<open>kv_reliable\<close>),
    and the LevelDB wrapper that implements it for every database with the documented behaviour
    (locale \<open>leveldb\<close>). \<open>StoreCommon\<close>, \<open>MessageStore\<close>, \<open>BlockStore\<close>, \<open>FinalityStore\<close>: the stores,
    each an instance of the locale \<open>keyed_store\<close>, with pagination.
  \<^item> \<open>ChainRuntime\<close>: the provider interface as a record over a state of the outside world,
    \<^verbatim>\<open>relayer/chain.go\<close> and \<^verbatim>\<open>relayer/chain_runtime.go\<close>. \<open>MockChain\<close>: the mock provider.
  \<^item> \<open>Relay\<close>: \<^verbatim>\<open>relayer/relay.go\<close>. Every handler is a function on the state of the relayer; the
    steps \<open>relay_step\<close> interleave the bodies of the goroutines. \<open>RelayFacts\<close>, \<open>RelayDb\<close>,
    \<open>RelaySteps\<close>, \<open>RelayFlow\<close>, \<open>RelayTick\<close>: what each handler keeps of the state, of the database
    and of the heights, and what a tick does. \<open>RelaySample\<close>: a small relayer for examples.
  \<^item> \<open>IconTypes\<close>, \<open>IconClient\<close>, \<open>IconProvider\<close>, \<open>IconListener\<close>: \<^verbatim>\<open>relayer/chains/icon\<close>, from
    hexadecimal numbers to the listener whose channels and goroutines are the steps \<open>icon_step\<close>.
    \<open>IconConn\<close>: making a client, its debug endpoint, and closing connections.
  \<^item> \<open>Batches\<close>: what the listeners share, with the locale \<open>request_batch\<close>: requests for consecutive
    heights, answers in any order, sorted and forwarded.
  \<^item> \<open>EvmClient\<close>, \<open>EvmProvider\<close>, \<open>EvmListener\<close>: \<^verbatim>\<open>relayer/chains/evm\<close>, from the client to the
    listener whose loop and request goroutines are the steps \<open>evm_step\<close>; a batch is equal to the
    sequential reader \<open>fetch_in_order\<close> where the shared query does no harm. \<open>EvmBinding\<close>: the
    generated bindings of the bridge contract, which the client calls. \<open>RelayEvm\<close>: the relayer
    with EVM chains. \<open>EndToEnd\<close>: from the block of one chain to the contract of another.
  \<^item> \<open>OsFiles\<close>: the file system. \<open>KeyStores\<close>: the key files of the chains. \<open>LvldbFiles\<close>: opening and
    closing databases, with goleveldb's file lock as the locale \<open>leveldb_lock\<close>.
  \<^item> \<open>CmdConfig\<close>: \<^verbatim>\<open>cmd/config.go\<close>, the configuration between its file and the chains of the relayer,
    with the JSON and YAML readers of providers. \<open>CmdCommands\<close>: the commands of \<^verbatim>\<open>cmd/appstate.go\<close>,
    \<^verbatim>\<open>cmd/chains.go\<close>, \<^verbatim>\<open>cmd/db.go\<close>, \<^verbatim>\<open>cmd/start.go\<close> and \<^verbatim>\<open>cmd/root.go\<close> as functions on a file system, the
    database and the state of the program; the locked change of the configuration is two steps, as
    processes interleave.
  \<^item> \<open>CmdStart\<close>: from the configuration file to the running relayer. \<open>CmdFlags\<close>: \<^verbatim>\<open>cmd/flags.go\<close> and
    the flags of all commands. \<open>CmdTree\<close>: the tree of commands and what a command line selects in it. \<open>CmdRoot\<close>: \<^verbatim>\<open>main.go\<close> and the rest of \<^verbatim>\<open>cmd/root.go\<close>, the hooks around a
    command and the program that watches for interrupts, as the steps \<open>program_step\<close>.
  \<^item> This theory: the properties of the whole relayer.

  \<^bold>\<open>Conventions.\<close> A method \<open>M\<close> of a type \<open>T\<close> is \<open>T_M\<close>. A call that may panic has an option as
  result and \<open>None\<close> is the panic; a result with an error is a sum with the error on the left; an
  error alone is an option. Integers have the width of the source, except heights of listeners
  where noted. Logging and the texts of wrapped causes are left out. Third-party code
  (goleveldb, goloop, go-ethereum, gorilla websocket, YAML, errors.Wrapf) is a parameter, and what a
  theorem needs of it is a named hypothesis on its documentation.

  \<^bold>\<open>What the lemmas show.\<close> The stores refine finite maps and their listings are exactly the entries
  of a prefix, page by page; what they encode decodes to the same. Started on a database its
  stores wrote, no interleaving of the relayer's goroutines panics as long as listeners send no
  nil message, the state stays well formed, no message leaves a cache unless it was delivered,
  dropped as received or stored, and a restart resumes at a height no later than the last block.
  For each chain: blocks arrive in order without gaps, events become messages, numbers and
  options read back, waits end. For the commands: the configuration file is stable under loading
  and writing, chains are added and removed as the file then shows, and the relayer that is started
  runs the chains of the file, each provider of the type its document names. A block with a message can lead to the call of the
  contract it is for, and an interrupted program can always end. Several theorems state where the code falls short of its intention,
  as it is written.

  \<^bold>\<open>Loops.\<close> Polling loops are functions of the sequence of events they meet; those that count
  retries are recursive in the retries left (20 for ICON results, 5 for ICON block requests, 10
  for EVM results, 3 for EVM block requests), so they end by construction. The select loops are
  step relations and their theorems hold for runs of any length.

  \<^bold>\<open>Not modelled.\<close> Cryptography and signing, the parsing of the ABI text in the bindings, the trie
  proofs and codecs of goloop, and the transport of sockets and RPC calls run in libraries, and are parameters or left out. Logging, usage texts and the
  wrapping texts of errors have no effect on what is stated. Timers are the freedom of the step
  relations. The tests under \<^verbatim>\<open>test\<close> start chains in containers and are no part of the program.
\<close>

section \<open>The running relayer\<close>






lemma sample_block:
  obtains r' c where "relay_run memS (sample_start w, []) ([] @ [LBlock ''eth'' \<lparr>bi_Height = 500, bi_Messages = []\<rparr>]) (Some (r', []))"
    "chain_at r' ''eth'' = Some c" "LastSavedHeight c = 500" "LastBlockHeight c = 500"
proof -
  let ?b = "\<lparr>bi_Height = 500, bi_Messages = []\<rparr>"
  have eth: "chain_at (sample_start w) ''eth'' = Some (sample_Runtime ''eth'' [])"
    by (simp add: chain_at_def)
  obtain r' where r': "Relayer_processBlockInfo memS ''eth'' ?b (sample_start w) = Some r'"
    and h: "chain_heights r' = (chain_heights (sample_start w))(''eth'' \<mapsto>
      (if bi_Messages ?b \<noteq> [] \<or> SaveHeightMaxAfter < bi_Height ?b - LastSavedHeight (sample_Runtime ''eth'' [])
       then bi_Height ?b else LastSavedHeight (sample_Runtime ''eth'' []), bi_Height ?b))"
    by (rule kv_reliable.processBlockInfo_ok
          [OF mem_rel kv_reliable.NewRelayer_ok(6) [OF mem_rel sample_NewRelayer] eth, of ?b])
      (rule that; assumption)
  have "chain_heights r' ''eth'' = Some (500, 500)"
    unfolding h by (simp add: sample_Runtime_def SaveHeightMaxAfter_def)
  then obtain c where c: "chain_at r' ''eth'' = Some c" "LastSavedHeight c = 500" "LastBlockHeight c = 500"
    by (auto simp: chain_heights_def)
  have "relay_step memS (sample_start w, []) (LBlock ''eth'' ?b) (Some (r', []))"
    using step_block [of "sample_start w" "''eth''" memS "[]" ?b] eth r' by (simp add: with_threads_def)
  from relay_run.run_step [OF relay_run.run_nil this] show ?thesis
    using c by (rule that)
qed


section \<open>What happens to a message\<close>

text \<open>C3: No message is lost. A message leaves the cache of its source in one step of a run only when
  its delivery was reported successful, when its destination is unknown or reports it received,
  or after it was written to the database of failed messages, with its number of attempts, a
  positive multiple of three, and unmarked as being processed.\<close>

theorem no_message_lost:
  assumes "kv_reliable S view" and "relay_step S (r, ts) l (Some (r', ts'))" and "config_wf (r, ts)"
    and "in_cache r n k" and "\<not> in_cache r' n k"
  shows "delivered l n k \<or> dropped r l n k \<or> saved_failed (view (rl_db r')) k"
  using kv_reliable.step_removal [OF assms(1-3), of n k] assms(4,5) by simp

theorem no_message_lost_witness:
  "\<exists>r'. Relayer_HandleMessageFailed memS 0 ''eth'' (sample_Relayer 3) = Some r' \<and>
     \<not> in_cache r' ''eth'' (Message_MessageKey sample_Message) \<and>
     saved_failed (map_of (rl_db r')) (Message_MessageKey sample_Message)"
proof -
  let ?k = "Message_MessageKey sample_Message"
  have m: "rm_Message (sample_RouteMessage\<lparr>rm_Retry := 3\<rparr>) = Some sample_Message"
    by simp
  obtain r' where r': "Relayer_HandleMessageFailed memS 0 ''eth'' (sample_Relayer 3) = Some r'"
    and gone: "rm_Retry (sample_RouteMessage\<lparr>rm_Retry := 3\<rparr>) \<noteq> 0 \<and>
        rm_Retry (sample_RouteMessage\<lparr>rm_Retry := 3\<rparr>) mod DefaultTxRetry = 0 \<longrightarrow>
      (\<forall>n k. in_cache r' n k \<longleftrightarrow> in_cache (sample_Relayer 3) n k \<and> \<not> (n = ''eth'' \<and> k = ?k))"
    using kv_reliable.HandleMessageFailed_ok [OF mem_rel sample_heap m, of "''eth''"] by metis
  have gone: "\<not> in_cache r' ''eth'' ?k"
    using gone by (simp add: DefaultTxRetry_def)
  have step: "relay_step memS (sample_Relayer 3, [] @ TFailed 0 ''eth'' # []) (LFailed 0 ''eth'') (Some (r', []))"
    using step_failed [of memS "sample_Relayer 3" "[]" 0 "''eth''" "[]"] r' by (simp add: with_threads_def)
  have wf: "config_wf (sample_Relayer 3, [] @ TFailed 0 ''eth'' # [])"
    by (simp add: config_wf_def sample_wf sample_chain_at msg_at_def sample_heap)
  have "in_cache (sample_Relayer 3) ''eth'' ?k"
    by (simp add: in_cache_def sample_chain_at)
  from no_message_lost [OF mem_rel step wf this gone]
  show ?thesis
    using r' gone by (auto simp: delivered_def dropped_def)
qed



text \<open>C19: A failed delivery. The message is unmarked; if its number of attempts is a positive multiple
  of three it is stored in the database under its source and serial number, and only then removed
  from the cache of its source; otherwise database and caches stay as they are and it will be
  tried again. After five such rounds, fifteen attempts, it is stale.\<close>

theorem HandleMessageFailed_accounts:
  assumes "kv_reliable S view" and "heap_get (rl_heap r) a = Some x" and "rm_Message x = Some m"
  shows "\<exists>r'. Relayer_HandleMessageFailed S a src r = Some r' \<and>
     rl_heap r' = heap_upd (rl_heap r) a (\<lambda>x. x\<lparr>rm_IsProcessing := False\<rparr>) \<and>
     (if rm_Retry x \<noteq> 0 \<and> rm_Retry x mod 3 = 0
      then MessageStore_GetMessage S prefixMessageStore (rl_db r') (Message_MessageKey m)
             = Inr (RouteMessage_clean (x\<lparr>rm_IsProcessing := False\<rparr>)) \<and>
           (\<forall>n k. in_cache r' n k \<longleftrightarrow> in_cache r n k \<and> \<not> (n = src \<and> k = Message_MessageKey m))
      else rl_db r' = rl_db r \<and> in_cache r' = in_cache r) \<and>
     (RouteMessage_IsStale x \<longleftrightarrow> 15 \<le> rm_Retry x)"
proof -
  obtain r' where r': "Relayer_HandleMessageFailed S a src r = Some r'"
    "rl_heap r' = heap_upd (rl_heap r) a (\<lambda>x. x\<lparr>rm_IsProcessing := False\<rparr>)"
    "rm_Retry x \<noteq> 0 \<and> rm_Retry x mod DefaultTxRetry = 0 \<longrightarrow>
      failed_msgs (view (rl_db r'))
        = (failed_msgs (view (rl_db r)))((msg_Src m, msg_Sn m) \<mapsto> RouteMessage_clean (x\<lparr>rm_IsProcessing := False\<rparr>))
      \<and> (\<forall>n k. in_cache r' n k \<longleftrightarrow> in_cache r n k \<and> \<not> (n = src \<and> k = Message_MessageKey m))"
    "\<not> (rm_Retry x \<noteq> 0 \<and> rm_Retry x mod DefaultTxRetry = 0) \<longrightarrow>
      rl_db r' = rl_db r \<and> in_cache r' = in_cache r"
    using kv_reliable.HandleMessageFailed_ok [OF assms, of src] by metis
  have "MessageStore_GetMessage S prefixMessageStore (rl_db r') (Message_MessageKey m)
      = Inr (RouteMessage_clean (x\<lparr>rm_IsProcessing := False\<rparr>))"
    if "rm_Retry x \<noteq> 0 \<and> rm_Retry x mod DefaultTxRetry = 0"
    unfolding kv_reliable.GetMessage_iff [OF assms(1)] using r'(3) that by simp
  then show ?thesis
    using r' by (auto simp: DefaultTxRetry_def RouteMessage_IsStale_def TotalMaxRetryTx_def)
qed

theorem HandleMessageFailed_accounts_witness:
  "\<exists>r'. Relayer_HandleMessageFailed memS 0 ''eth'' (sample_Relayer 3) = Some r' \<and>
     MessageStore_GetMessage memS prefixMessageStore (rl_db r') (Message_MessageKey sample_Message)
       = Inr (RouteMessage_clean (sample_RouteMessage\<lparr>rm_Retry := 3, rm_IsProcessing := False\<rparr>))"
  using HandleMessageFailed_accounts [OF mem_rel sample_heap [of 3], of sample_Message "''eth''"] by auto



text \<open>C14: One tick of the router always finishes, changes neither messages nor the outside world, and
  starts, in order, exactly one goroutine for every cache entry whose message is not being
  processed, has a known destination that accepts it and has not received it, and whose source
  agrees to send it.\<close>

theorem processMessages_spawns:
  assumes "relayer_wf r"
  shows "\<exists>r'. Relayer_processMessages S r = Some r' \<and> rl_heap r' = rl_heap r \<and> rl_world r' = rl_world r \<and>
     rl_go r' = rl_go r @ concat (map (\<lambda>n. concat (map (route_of r n \<circ> snd) (cache_of r n))) (map fst (rl_chains r)))"
proof -
  obtain r' where r': "Relayer_processMessages S r = Some r'"
    using processMessages_total [OF assms] by blast
  have "distinct (map fst (rl_chains r))"
    using assms by (simp add: relayer_wf_def)
  from process_chains_route [OF assms this r' [unfolded Relayer_processMessages_def]]
    process_chains_effect [OF r' [unfolded Relayer_processMessages_def]] show ?thesis
    using r' by (simp add: shrinks_def)
qed

lemma sample_route_of: "route_of (sample_Relayer 0) ''eth'' 0 = [GoRoute 0 ''icon'' ''eth'']"
  by (auto simp: route_of_def msg_at_def sample_heap eligible_def sample_chain_at sample_Provider_def
      mock_provider_def sample_Message_def)

theorem processMessages_spawns_witness:
  "\<exists>r'. Relayer_processMessages memS (sample_Relayer 0) = Some r' \<and> rl_go r' = [GoRoute 0 ''icon'' ''eth'']"
proof -
  have "map fst (rl_chains (sample_Relayer 0)) = [''eth'', ''icon'']" "rl_go (sample_Relayer 0) = []"
    by (simp_all add: sample_Relayer_def)
  moreover have "cache_of (sample_Relayer 0) ''eth'' = [(Message_MessageKey sample_Message, 0)]"
    "cache_of (sample_Relayer 0) ''icon'' = []"
    by (simp_all add: cache_of_def sample_chain_at)
  ultimately show ?thesis
    using processMessages_spawns [OF sample_wf, of memS 0] by (auto simp: sample_route_of)
qed

text \<open>C26: The processing mark is set by the goroutine of \<open>RouteMessage\<close>, not when it is started: if the
  router ticks twice before the goroutine has run, a message that is ready is routed twice.\<close>

theorem two_ticks_route_twice:
  assumes "kv_reliable S view" and "relayer_wf r" and "(k, a) \<in> set (cache_of r src)" and "eligible r a dst src"
  shows "\<exists>r1 r2. Relayer_processMessages S r = Some r1 \<and> Relayer_processMessages S r1 = Some r2 \<and>
     2 \<le> count_list (rl_go r2) (GoRoute a dst src)"
proof -
  obtain r1 where r1: "Relayer_processMessages S r = Some r1"
    using processMessages_total [OF assms(2)] by blast
  have stay: "(k, a) \<in> set (cache_of r1 src)" "eligible r1 a dst src" "relayer_wf r1"
    using kv_reliable.process_chains_stays [OF assms(1,2) r1 [unfolded Relayer_processMessages_def] assms(3,4)]
    by simp_all
  obtain r2 where r2: "Relayer_processMessages S r1 = Some r2"
    using processMessages_total [OF stay(3)] by blast
  have "count_list (rl_go r) (GoRoute a dst src) < count_list (rl_go r1) (GoRoute a dst src)"
    by (rule processMessages_starts [OF assms(2) r1 assms(3,4)])
  moreover have "count_list (rl_go r1) (GoRoute a dst src) < count_list (rl_go r2) (GoRoute a dst src)"
    by (rule processMessages_starts [OF stay(3) r2 stay(1,2)])
  ultimately show ?thesis
    using r1 r2 by (intro exI [of _ r1] exI [of _ r2]) simp
qed

theorem two_ticks_route_twice_witness:
  "\<exists>r1 r2. Relayer_processMessages memS (sample_Relayer 0) = Some r1 \<and> Relayer_processMessages memS r1 = Some r2 \<and>
     2 \<le> count_list (rl_go r2) (GoRoute 0 ''icon'' ''eth'')"
proof -
  have "eligible (sample_Relayer 0) 0 ''icon'' ''eth''"
    using sample_route_of by (auto simp: route_of_def sample_Message_def split: option.splits if_splits)
  moreover have "(Message_MessageKey sample_Message, 0) \<in> set (cache_of (sample_Relayer 0) ''eth'')"
    by (simp add: cache_of_def sample_chain_at)
  ultimately show ?thesis
    using two_ticks_route_twice [OF mem_rel sample_wf] by blast
qed

text \<open>C12: The callback of a delivery never panics. When the delivery succeeded on a chain without
  finality, or the message is still in its cache, exactly that entry leaves the caches and the
  store of failed messages; on a chain with finality the transaction is first filed as pending
  under the message's key, with the message's height. Without the entry a success on a chain with
  finality changes nothing. A failed delivery of an entry in the cache is handled as failed.\<close>

theorem callback_effect:
  assumes "kv_reliable S view" and "relayer_wf r" and "chain_at r dst = Some dc" and "chain_at r src = Some sc"
  shows "\<exists>r'. Relayer_callback S dst src key resp r = Some r' \<and>
     (if tr_Code resp \<noteq> Success then
        (case map_get (cr_MessageCache sc) key of
           None \<Rightarrow> r' = r | Some a \<Rightarrow> Relayer_HandleMessageFailed S a src r = Some r')
      else if FinalityBlock (cr_Provider dc) (rl_world r) = 0 then
        (\<forall>n k. in_cache r' n k \<longleftrightarrow> in_cache r n k \<and> \<not> (n = src \<and> k = key)) \<and>
        failed_msgs (view (rl_db r')) = (failed_msgs (view (rl_db r)))((key_Src key, key_Sn key) := None) \<and>
        pending_txs (view (rl_db r')) = pending_txs (view (rl_db r))
      else
        (case Option.bind (cached r src key) rm_Message of
           None \<Rightarrow> r' = r
         | Some m \<Rightarrow>
             (\<forall>n k. in_cache r' n k \<longleftrightarrow> in_cache r n k \<and> \<not> (n = src \<and> k = key)) \<and>
             failed_msgs (view (rl_db r')) = (failed_msgs (view (rl_db r)))((key_Src key, key_Sn key) := None) \<and>
             FinalityStore_GetTxObject S prefixFinalityStore (rl_db r') key
               = Inr (TransactionObject_clean (NewTransactionObject
                   (NewMessagekeyWithMessageHeight key (msg_MessageHeight m)) (tr_TxHash resp) (tr_Height resp)))))"
proof -
  note callback_other = kv_reliable.callback_other [OF assms(1,3,4)]
  have wf: "cache_wf (rl_heap r) (cr_MessageCache sc)"
    by (rule relayer_wf_caches [OF assms(2,4)])
  show ?thesis
  proof (cases "tr_Code resp = Success")
    case False
    have "\<exists>r'. Relayer_HandleMessageFailed S a src r = Some r'" if a: "map_get (cr_MessageCache sc) key = Some a" for a
    proof -
      obtain x m where "heap_get (rl_heap r) a = Some x" "rm_Message x = Some m" "Message_MessageKey m = key"
        by (rule cache_wfD [OF wf a])
      from kv_reliable.HandleMessageFailed_ok [OF assms(1) this(1,2)] show ?thesis
        by metis
    qed
    then show ?thesis
      using False callback_other(3) [OF False, of key] by (cases "map_get (cr_MessageCache sc) key") auto
  next
    case True
    show ?thesis
    proof (cases "FinalityBlock (cr_Provider dc) (rl_world r) = 0")
      case no: True
      have run: "Relayer_callback S dst src key resp r = Some (snd (Relayer_ClearMessages S [key] src r))"
        by (rule callback_other(1) [OF True no])
      note clear = kv_reliable.clear_one [OF assms(1) refl, of key src r]
      show ?thesis
        using run clear True no by (intro exI [of _ "snd (Relayer_ClearMessages S [key] src r)"]) simp
    next
      case fin: False
      then have pos: "FinalityBlock (cr_Provider dc) (rl_world r) > 0"
        by (simp add: word_gt_0)
      show ?thesis
      proof (cases "cached r src key")
        case None
        then have "map_get (cr_MessageCache sc) key = None"
          using wf by (cases "map_get (cr_MessageCache sc) key") (auto simp: cached_def assms(4) cache_view_def elim: cache_wfD)
        then show ?thesis
          using callback_other(2) [OF True pos] None True fin by simp
      next
        case (Some x)
        obtain r' m where r': "Relayer_callback S dst src key resp r = Some r'" "rm_Message x = Some m"
          "\<And>n k. in_cache r' n k \<longleftrightarrow> in_cache r n k \<and> \<not> (n = src \<and> k = key)"
          "failed_msgs (view (rl_db r')) = (failed_msgs (view (rl_db r)))((key_Src key, key_Sn key) := None)"
          "pending_txs (view (rl_db r')) = (pending_txs (view (rl_db r)))((key_Dst key, key_Sn key) \<mapsto>
            TransactionObject_clean (NewTransactionObject
              (NewMessagekeyWithMessageHeight key (msg_MessageHeight m)) (tr_TxHash resp) (tr_Height resp)))"
          by (rule kv_reliable.callback_delivered [OF assms True Some pos]) (rule that; assumption)
        have "FinalityStore_GetTxObject S prefixFinalityStore (rl_db r') key
               = Inr (TransactionObject_clean (NewTransactionObject
                   (NewMessagekeyWithMessageHeight key (msg_MessageHeight m)) (tr_TxHash resp) (tr_Height resp)))"
          unfolding kv_reliable.GetTxObject_iff [OF assms(1)] by (simp add: r'(5))
        then show ?thesis
          using r'(1-4) True fin Some by (intro exI [of _ r']) simp
      qed
    qed
  qed
qed

theorem callback_effect_witness:
  "\<exists>r'. Relayer_callback memS ''icon'' ''eth'' (Message_MessageKey sample_Message)
      (zero_TxResponse\<lparr>tr_Code := Success\<rparr>) (sample_Relayer 0) = Some r' \<and>
     \<not> in_cache r' ''eth'' (Message_MessageKey sample_Message)"
proof -
  have "chain_at (sample_Relayer 0) ''icon'' = Some (sample_Runtime ''icon'' [])"
    "chain_at (sample_Relayer 0) ''eth'' = Some (sample_Runtime ''eth'' [(Message_MessageKey sample_Message, 0)])"
    by (simp_all add: sample_chain_at)
  from callback_effect [OF mem_rel sample_wf this, of "Message_MessageKey sample_Message" "zero_TxResponse\<lparr>tr_Code := Success\<rparr>"]
  show ?thesis
    by auto
qed

text \<open>C13: The finality check of one pending transaction. Nothing happens before its block is
  \<open>finalityBlock\<close> behind the last block, or when its receipt cannot be queried. A receipt of
  success removes it; a receipt of failure removes it too and files the message generated again
  by its source, as a fresh route message, in the cache of the source. When the message cannot be
  generated it is gone from all three; a provider that answers without error and without receipt
  or message panics the relayer.\<close>

theorem check_tx_effect:
  assumes "kv_reliable S view" and "relayer_wf r" and "chain_at r nid = Some c"
  shows "let key = mk_Key (to_Key t); result = check_tx S nid finalityBlock latestHeight t r;
      removed = (\<lambda>r'. result = Some r' \<and> failed_msgs (view (rl_db r')) = failed_msgs (view (rl_db r)) \<and>
        pending_txs (view (rl_db r')) = (pending_txs (view (rl_db r)))((key_Dst key, key_Sn key) := None))
    in if to_TxHeight t = 0 \<or> latestHeight < to_TxHeight t + finalityBlock then result = Some r
       else case QueryTransactionReceipt (cr_Provider c) (rl_world r) (to_TxHash t) of
         Inl e \<Rightarrow> result = Some r
       | Inr None \<Rightarrow> result = None
       | Inr (Some receipt) \<Rightarrow>
           if rc_Status receipt then \<exists>r'. removed r' \<and> cached r' = cached r
           else case chain_at r (key_Src key) of
             None \<Rightarrow> result = Some r
           | Some sc \<Rightarrow>
               (case GenerateMessage (cr_Provider sc) (rl_world r) (to_Key t) of
                  (m, Some e) \<Rightarrow> \<exists>r'. removed r' \<and> cached r' = cached r
                | (None, None) \<Rightarrow> result = None
                | (Some m, None) \<Rightarrow>
                    \<exists>r'. removed r' \<and> cached r' = (cached r)(key_Src key :=
                      (cached r (key_Src key))(Message_MessageKey m \<mapsto> NewRouteMessage (Some m))))"
proof -
  let ?key = "mk_Key (to_Key t)"
  obtain d where d: "FinalityStore_DeleteTxObject S prefixFinalityStore (rl_db r) ?key = (None, d)"
    "pending_txs (view d) = (pending_txs (view (rl_db r)))((key_Dst ?key, key_Sn ?key) := None)"
    "failed_msgs (view d) = failed_msgs (view (rl_db r))"
    by (rule kv_reliable.delete_tx [OF assms(1)])
  have cached_db: "cached (r\<lparr>rl_db := d\<rparr>) = cached r"
    by (intro ext) (simp add: cached_def split: option.split)
  have wf: "relayer_wf (r\<lparr>rl_db := d\<rparr>)"
    using keepsD [OF keeps_db assms(2)] .
  have merge: "\<exists>r'. merge_into (key_Src ?key) [Some m] (r\<lparr>rl_db := d\<rparr>) = Some r' \<and> rl_db r' = d \<and>
      cached r' = (cached r)(key_Src ?key := (cached r (key_Src ?key))(Message_MessageKey m \<mapsto> NewRouteMessage (Some m)))"
    if "chain_at r (key_Src ?key) \<noteq> None" for m
  proof -
    have c: "chain_at (r\<lparr>rl_db := d\<rparr>) (key_Src ?key) \<noteq> None"
      using that by simp
    obtain r' where "merge_into (key_Src ?key) [Some m] (r\<lparr>rl_db := d\<rparr>) = Some r'" "rl_db r' = rl_db (r\<lparr>rl_db := d\<rparr>)"
      "cached r' = (cached (r\<lparr>rl_db := d\<rparr>))(key_Src ?key := (cached (r\<lparr>rl_db := d\<rparr>) (key_Src ?key))(Message_MessageKey m \<mapsto> NewRouteMessage (Some m)))"
      by (rule kv_reliable.merge_one [OF assms(1) wf c])
    then show ?thesis
      unfolding cached_db by auto
  qed
  have nil: "merge_into n [None] q = None" for n and q :: "('a, 'b) Relayer"
    by (simp add: merge_into_def mergeMessages_nil del: mergeMessages.simps split: option.split)
  show ?thesis
  proof (cases "to_TxHeight t = 0 \<or> latestHeight < to_TxHeight t + finalityBlock")
    case True
    then show ?thesis
      by (auto simp: check_tx_def assms(3))
  next
    case late: False
    show ?thesis
    proof (cases "QueryTransactionReceipt (cr_Provider c) (rl_world r) (to_TxHash t)")
      case (Inr rec)
      show ?thesis
      proof (cases rec)
        case None
        then show ?thesis
          using late Inr by (simp add: check_tx_def assms(3))
      next
        case (Some receipt)
        note run = check_tx_def [of S nid finalityBlock latestHeight t r]
        show ?thesis
        proof (cases "rc_Status receipt")
          case True
          then show ?thesis
            using late Inr Some d cached_db by (simp add: run assms(3))
        next
          case failed: False
          show ?thesis
          proof (cases "chain_at r (key_Src ?key)")
            case None
            then show ?thesis
              using late Inr Some failed by (simp add: run assms(3))
          next
            case (Some sc)
            obtain m e where g: "GenerateMessage (cr_Provider sc) (rl_world r) (to_Key t) = (m, e)"
              by fastforce
            show ?thesis
              using late Inr \<open>rec = Some receipt\<close> failed Some d cached_db g merge
              by (cases e; cases m) (auto simp: run assms(3) nil Let_def)
          qed
        qed
      qed
    qed (use late in \<open>simp add: check_tx_def assms(3)\<close>)
  qed
qed

theorem check_tx_effect_witness:
  "\<exists>r'. check_tx memS ''icon'' 2 20 sample_TransactionObject (sample_Relayer 3) = Some r' \<and>
     cached r' ''eth'' (Message_MessageKey sample_Message) = Some sample_RouteMessage"
proof -
  have c: "chain_at (sample_Relayer 3) ''icon'' = Some (sample_Runtime ''icon'' [])"
    "chain_at (sample_Relayer 3) ''eth'' = Some (sample_Runtime ''eth'' [(Message_MessageKey sample_Message, 0)])"
    by (simp_all add: sample_chain_at)
  have t: "to_TxHeight sample_TransactionObject = 9" "key_Src (mk_Key (to_Key sample_TransactionObject)) = ''eth''"
    by (simp_all add: sample_TransactionObject_def NewTransactionObject_def NewMessagekeyWithMessageHeight_def NewMessageKey_def)
  have p: "QueryTransactionReceipt (sample_Provider n) w h = Inr (Some sample_Receipt)"
    "GenerateMessage (sample_Provider n) w k = (Some sample_Message, None)" "\<not> rc_Status sample_Receipt" for n w h k
    by (simp_all add: sample_Provider_def sample_Receipt_def)
  show ?thesis
    using check_tx_effect [OF mem_rel sample_wf c(1), where t = sample_TransactionObject
        and finalityBlock = 2 and latestHeight = 20]
    by (auto simp: t p c sample_RouteMessage_def Let_def)
qed

text \<open>C22: A block. The relayer remembers its height as the last one, starts merging its messages, and
  saves the height when the block has messages or is more than ten blocks ahead of the saved
  height in 64-bit arithmetic: a block below the saved height wraps around, so the saved height
  goes back to it.\<close>

theorem processBlockInfo_effect:
  assumes "kv_reliable S view" and "relayer_wf r" and "chain_at r nid = Some c"
  shows "\<exists>r' c'. Relayer_processBlockInfo S nid b r = Some r' \<and> chain_at r' nid = Some c' \<and>
     LastBlockHeight c' = bi_Height b \<and> rl_go r' = rl_go r @ [GoMerge nid (bi_Messages b)] \<and> in_cache r' = in_cache r \<and>
     (let saves = (bi_Messages b \<noteq> [] \<or> 10 < (uint (bi_Height b) - uint (LastSavedHeight c)) mod 2 ^ 64)
      in LastSavedHeight c' = (if saves then bi_Height b else LastSavedHeight c) \<and>
         bs_heights (view (rl_db r')) = (if saves then (bs_heights (view (rl_db r)))(nid \<mapsto> bi_Height b)
           else bs_heights (view (rl_db r))))"
proof -
  have wrap: "SaveHeightMaxAfter < bi_Height b - LastSavedHeight c \<longleftrightarrow>
      10 < (uint (bi_Height b) - uint (LastSavedHeight c)) mod 2 ^ 64"
    by (simp add: SaveHeightMaxAfter_def word_less_def uint_word_ariths)
  obtain r' where r': "Relayer_processBlockInfo S nid b r = Some r'"
    "chain_heights r' = (chain_heights r)(nid \<mapsto>
      (if bi_Messages b \<noteq> [] \<or> SaveHeightMaxAfter < bi_Height b - LastSavedHeight c
       then bi_Height b else LastSavedHeight c, bi_Height b))"
    "bs_heights (view (rl_db r')) =
      (if bi_Messages b \<noteq> [] \<or> SaveHeightMaxAfter < bi_Height b - LastSavedHeight c
       then (bs_heights (view (rl_db r)))(nid \<mapsto> bi_Height b) else bs_heights (view (rl_db r)))"
    "rl_go r' = rl_go r @ [GoMerge nid (bi_Messages b)]"
    by (rule kv_reliable.processBlockInfo_ok [OF assms, of b]) (rule that; assumption)
  have "chain_heights r' nid = Some
      (if bi_Messages b \<noteq> [] \<or> SaveHeightMaxAfter < bi_Height b - LastSavedHeight c
       then bi_Height b else LastSavedHeight c, bi_Height b)"
    unfolding r'(2) by simp
  then obtain c' where "chain_at r' nid = Some c'" "LastBlockHeight c' = bi_Height b"
    "LastSavedHeight c' = (if bi_Messages b \<noteq> [] \<or> SaveHeightMaxAfter < bi_Height b - LastSavedHeight c
       then bi_Height b else LastSavedHeight c)"
    by (auto simp: chain_heights_def)
  then show ?thesis
    using r'(1,3,4) in_cache_processBlockInfo [OF r'(1)] unfolding wrap
    by (intro exI [of _ r'] exI [of _ c']) (simp add: Let_def)
qed

theorem processBlockInfo_effect_witness:
  "\<exists>r' c'. Relayer_processBlockInfo memS ''eth'' \<lparr>bi_Height = 500, bi_Messages = []\<rparr> (sample_Relayer 0) = Some r' \<and>
     chain_at r' ''eth'' = Some c' \<and> LastSavedHeight c' = 500"
proof -
  have c: "chain_at (sample_Relayer 0) ''eth'' = Some (sample_Runtime ''eth'' [(Message_MessageKey sample_Message, 0)])"
    by (simp add: sample_chain_at)
  have "LastSavedHeight (sample_Runtime n mc) = 0" for n mc
    by (simp add: sample_Runtime_def)
  then show ?thesis
    using processBlockInfo_effect [OF mem_rel sample_wf c, of "\<lparr>bi_Height = 500, bi_Messages = []\<rparr>"] by auto
qed

text \<open>Starting. A relayer starts unless a configured chain is nil. It then knows each configured
  chain under its network id, with an empty cache, no last block, and the height the database
  holds for it, or zero; started afresh it has first emptied the database.\<close>

lemma NewRelayer_starts:
  assumes "kv_reliable S view"
  shows "if None \<in> snd ` set cfg then \<exists>e d. NewRelayer S db w cfg fresh = (Inl e, d)
     else \<exists>r d. NewRelayer S db w cfg fresh = (Inr r, d) \<and> rl_db r = d \<and> rl_heap r = [] \<and> rl_go r = [] \<and> relayer_wf r \<and>
       view d = (if fresh then Map.empty else view db) \<and>
       (\<forall>n. chain_at r n = None \<longleftrightarrow> n \<notin> {Chain_NID ch |ch. Some ch \<in> snd ` set cfg}) \<and>
       (\<forall>n c. chain_at r n = Some c \<longrightarrow> cr_MessageCache c = NewMessageCache \<and> LastBlockHeight c = 0 \<and>
          LastSavedHeight c = (case bs_heights (view d) n of None \<Rightarrow> 0 | Some h \<Rightarrow> h))"
proof (cases "None \<in> snd ` set cfg")
  case True
  then have load: "\<exists>e. load_chains S d cfg out = Inl e" for d out
    by (induction cfg arbitrary: out) (auto simp: NewChainRuntime_def Let_def split: option.splits)
  obtain err d where "(if fresh then ClearStore S db else (None, db)) = (err, d)"
    by fastforce
  then have "\<exists>e d. NewRelayer S db w cfg fresh = (Inl e, d)"
    using load [of d "[]"] by (cases err) (auto simp: NewRelayer_def)
  then show ?thesis
    using True by simp
next
  case False
  then have "\<forall>kc \<in> set cfg. snd kc \<noteq> None"
    by force
  then have load: "\<exists>cs. load_chains S d cfg out = Inr cs" for d out
    by (rule kv_reliable.load_chains_total [OF assms])
  have "\<exists>r d. NewRelayer S db w cfg fresh = (Inr r, d)"
  proof (cases fresh)
    case True
    obtain d where "ClearStore S db = (None, d)"
      using kv_reliable.clear_total [OF assms, of db] by (cases "ClearStore S db") simp
    then show ?thesis
      using load [of d "[]"] True by (auto simp: NewRelayer_def)
  next
    case False
    then show ?thesis
      using load [of db "[]"] by (auto simp: NewRelayer_def)
  qed
  then obtain r d where run: "NewRelayer S db w cfg fresh = (Inr r, d)"
    by blast
  note ok = kv_reliable.NewRelayer_ok [OF assms run]
  have "chain_at r n = None \<longleftrightarrow> n \<notin> {Chain_NID ch |ch. Some ch \<in> snd ` set cfg}" for n
    using chain_at_keys [of n r] unfolding ok(9) by blast
  then show ?thesis
    using False run ok(1-6,8) by (auto simp: fresh_runtime_def)
qed

lemma NewRelayer_starts_instance:
  "\<exists>r d. NewRelayer memS [] sample_world sample_cfg True = (Inr r, d) \<and> chain_at r ''btc'' = None"
proof -
  have "None \<notin> snd ` set sample_cfg" "''btc'' \<notin> {Chain_NID ch |ch. Some ch \<in> snd ` set sample_cfg}"
    by (auto simp: sample_cfg_def NewChain_def Chain_NID_def)
  then show ?thesis
    using NewRelayer_starts [OF mem_rel, of sample_cfg "[]" sample_world True] by auto
qed

text \<open>A delivery from end to end. Routing a message to a mock chain counts the attempt, marks the
  message as being processed, hands it to the chain, which strikes it off its expected messages,
  and, the callback reporting success, takes it out of the cache of its source and out of the
  database; the other entries stay.\<close>

lemma mock_delivery:
  assumes "kv_reliable S view" and "relayer_wf r" and "chain_at r dst = Some dc"
    and "cr_Provider dc = mock_provider dst name" and "chain_at r src \<noteq> None"
    and "heap_get (rl_heap r) a = Some x" and "rm_Message x = Some m"
  shows "\<exists>r'. Relayer_RouteMessage S a dst src r = Some r' \<and>
     heap_get (rl_heap r') a = Some (x\<lparr>rm_Retry := rm_Retry x + 1, rm_IsProcessing := True\<rparr>) \<and>
     map_get (mp_ReceiveMessages (rl_world r' dst)) (Message_MessageKey m) = None \<and>
     (\<forall>n k. in_cache r' n k \<longleftrightarrow> in_cache r n k \<and> \<not> (n = src \<and> k = Message_MessageKey m)) \<and>
     failed_msgs (view (rl_db r')) = (failed_msgs (view (rl_db r)))((msg_Src m, msg_Sn m) := None)"
proof -
  let ?r1 = "mark_route a r"
  let ?w = "(rl_world r)(dst := MockProvider_DeleteMessage m (rl_world r dst))"
  let ?r2 = "?r1\<lparr>rl_world := ?w\<rparr>"
  let ?r' = "snd (Relayer_ClearMessages S [Message_MessageKey m] src ?r2)"
  have x: "heap_get (rl_heap ?r1) a = Some (x\<lparr>rm_Retry := rm_Retry x + 1, rm_IsProcessing := True\<rparr>)"
    using assms(6) by (simp add: mark_route_def RouteMessage_IncrementRetry_def RouteMessage_SetIsProcessing_def)
  have key: "key_Src (Message_MessageKey m) = msg_Src m" "key_Sn (Message_MessageKey m) = msg_Sn m"
    by (simp_all add: Message_MessageKey_def NewMessageKey_def)
  have world: "rl_world ?r1 = rl_world r"
    by (simp add: mark_route_def)
  have chains: "chain_at ?r2 n = chain_at r n" for n
    by (simp add: mark_route_def)
  obtain sc where sc: "chain_at ?r2 src = Some sc"
    using assms(5) unfolding chains by blast
  have dc: "chain_at ?r2 dst = Some dc"
    using assms(3) unfolding chains .
  have fin: "FinalityBlock (cr_Provider dc) (rl_world ?r2) = 0"
    by (simp add: assms(4) mock_provider_def)
  have "Relayer_callback S dst src (Message_MessageKey m) (zero_TxResponse\<lparr>tr_Code := Success\<rparr>) ?r2 = Some ?r'"
    by (rule kv_reliable.callback_other(1) [OF assms(1) dc sc _ fin]) simp
  then have run: "Relayer_RouteMessage S a dst src r = Some ?r'"
    using dc x assms(7) by (simp add: Relayer_RouteMessage_def assms(4) mock_provider_def MockProvider_Route_def
        RouteMessage_GetMessage_def world Let_def)
  note clear = kv_reliable.clear_one [OF assms(1) refl, of "Message_MessageKey m" src ?r2]
  have "rl_heap ?r' = rl_heap ?r1" "rl_world ?r' = ?w"
    by (simp_all add: ClearMessages_eq)
  moreover have "in_cache ?r2 = in_cache r" "rl_db ?r2 = rl_db r"
    by (simp_all add: mark_route_def)
  ultimately show ?thesis
    using run clear(1,2) x by (intro exI [of _ ?r']) (simp add: MockProvider_DeleteMessage_get key)
qed

lemma mock_delivery_instance:
  "\<exists>r'. Relayer_RouteMessage memS 0 ''icon'' ''eth''
       (sample_Relayer 0\<lparr>rl_chains := [(''eth'', sample_Runtime ''eth'' [(Message_MessageKey sample_Message, 0)]),
          (''icon'', \<lparr>cr_Provider = mock_provider ''icon'' ''i'', LastBlockHeight = 0, LastSavedHeight = 0, cr_MessageCache = []\<rparr>)]\<rparr>) = Some r' \<and>
     \<not> in_cache r' ''eth'' (Message_MessageKey sample_Message)"
proof -
  let ?dc = "\<lparr>cr_Provider = mock_provider ''icon'' ''i'', LastBlockHeight = 0, LastSavedHeight = 0, cr_MessageCache = []\<rparr>"
  let ?r = "sample_Relayer 0\<lparr>rl_chains := [(''eth'', sample_Runtime ''eth'' [(Message_MessageKey sample_Message, 0)]), (''icon'', ?dc)]\<rparr>"
  have at: "chain_at ?r n = (if n = ''eth'' then Some (sample_Runtime ''eth'' [(Message_MessageKey sample_Message, 0)])
      else if n = ''icon'' then Some ?dc else None)" for n
    by (simp add: chain_at_def)
  have h: "heap_get (rl_heap ?r) 0 = Some (sample_RouteMessage\<lparr>rm_Retry := 0\<rparr>)"
    using sample_heap [of 0] by simp
  have "NID (mock_provider n n') = n" for n n'
    by (simp add: mock_provider_def)
  moreover have "rl_go (sample_Relayer 0) = []"
    by (simp add: sample_Relayer_def)
  ultimately have "relayer_wf ?r"
    by (auto simp: relayer_wf_def caches_wf_def at cache_wf_def sample_heap RouteMessage_MessageKey_def)
  from mock_delivery [OF mem_rel this, of "''icon''" ?dc "''i''" "''eth''" 0 "sample_RouteMessage\<lparr>rm_Retry := 0\<rparr>" sample_Message]
  show ?thesis
    using h by (auto simp: at)
qed

end
